(* ===== verification/Prelude.thy ===== *)
theory Prelude
  imports Main "HOL-Library.Word"
begin

text \<open>
  Shared vocabulary of the development: the machine integers of the 32-bit ARM target, the
  error numbers the modelled functions return, and the generic facts on words, bits and lists
  that the component theories use.
\<close>

unbundle bit_operations_syntax

section \<open>Machine integers\<close>

type_synonym u8 = "8 word"
type_synonym u16 = "16 word"
type_synonym u32 = "32 word"
type_synonym u64 = "64 word"

section \<open>Error numbers\<close>

text \<open>The error numbers the modelled code returns, negated, where it fails.\<close>

datatype errno = EPERM | EIO | ENXIO | ENOMEM | EBUSY | ENODEV | EINVAL | ENOSYS | EL3HLT | EILSEQ
  | ETIME | EOVERFLOW | ETIMEDOUT | EFAULT | EAGAIN | EROFS | EBADMSG | EUCLEAN

section \<open>Bits of words\<close>

named_theorems bitwise \<open>bitwise characterisations used to compare words bit by bit\<close>

lemma word_eq_bits: "(x :: 'a::len word) = y \<longleftrightarrow> (\<forall>i < LENGTH('a). bit x i = bit y i)"
  by (auto simp: bit_eq_iff bit_imp_le_length)

lemma bit_ucast_word [bitwise]:
  "bit (ucast (x :: 'a::len word) :: 'b::len word) i \<longleftrightarrow> i < LENGTH('b) \<and> bit x i"
  by (simp add: bit_unsigned_iff)

lemma bit_three [bitwise]: "bit (3 :: 'a::len word) i \<longleftrightarrow> i < LENGTH('a) \<and> i < 2"
proof -
  have "(3 :: 'a word) = mask 2" by (simp add: mask_eq_exp_minus_1)
  then show ?thesis by (simp only: bit_mask_iff) auto
qed

lemma bit_drop_word [bitwise]: "bit (drop_bit n (x :: 'a::len word)) i \<longleftrightarrow> bit x (n + i)"
  by (simp add: bit_drop_bit_eq)

lemma bit_push_word [bitwise]:
  "bit (push_bit n (x :: 'a::len word)) i \<longleftrightarrow> n \<le> i \<and> i < LENGTH('a) \<and> bit x (i - n)"
  by (simp add: bit_push_bit_iff)

lemma bit_not_word [bitwise]: "bit (NOT (x :: 'a::len word)) i \<longleftrightarrow> i < LENGTH('a) \<and> \<not> bit x i"
  by (simp add: bit_not_iff)

lemma bit_one_word [bitwise]: "bit (1 :: 'a::len word) i \<longleftrightarrow> i = 0"
  by (simp add: bit_1_iff)

lemmas [bitwise] = bit_and_iff bit_or_iff bit_xor_iff

section \<open>Words as natural numbers\<close>

lemma unat_lt2p: "unat (x :: 'a::len word) < 2 ^ LENGTH('a)"
  by simp

lemma unat_of_nat_lt: "n < 2 ^ LENGTH('a) \<Longrightarrow> unat (of_nat n :: 'a::len word) = n"
  by (simp add: unsigned_of_nat take_bit_nat_eq_self)

lemma unat_add_nowrap:
  "unat (x :: 'a::len word) + unat y < 2 ^ LENGTH('a) \<Longrightarrow> unat (x + y) = unat x + unat y"
  by (simp add: unat_word_ariths)

lemma unat_mult_nowrap:
  "unat (x :: 'a::len word) * unat y < 2 ^ LENGTH('a) \<Longrightarrow> unat (x * y) = unat x * unat y"
  by (simp add: unat_word_ariths)

lemma unat_sub_nowrap:
  "unat y \<le> unat (x :: 'a::len word) \<Longrightarrow> unat (x - y) = unat x - unat y"
  by (simp add: unat_sub_if')

lemma unat_and_mask_low:
  "unat ((x :: 'a::len word) AND mask n) = unat x mod 2 ^ n"
  by (simp only: take_bit_eq_mask [symmetric] unsigned_take_bit_eq) (simp add: take_bit_eq_mod)

lemma unat_drop_bit: "unat (drop_bit n (x :: 'a::len word)) = unat x div 2 ^ n"
  by (simp only: unsigned_drop_bit_eq) (simp add: drop_bit_eq_div take_bit_eq_mod)

lemma unat_push_bit_nowrap:
  "unat (x :: 'a::len word) * 2 ^ n < 2 ^ LENGTH('a) \<Longrightarrow> unat (push_bit n x) = unat x * 2 ^ n"
  by (simp only: unsigned_push_bit_eq) (simp add: push_bit_eq_mult take_bit_eq_mod)

lemma unat_ucast_up:
  "LENGTH('a) \<le> LENGTH('b) \<Longrightarrow> unat (ucast (x :: 'a::len word) :: 'b::len word) = unat x"
  by (simp add: unsigned_ucast_eq take_bit_eq_self_iff_drop_bit_eq_0 drop_bit_eq_div)
     (metis div_less dual_order.strict_trans1 one_less_numeral_iff power_increasing_iff
        semiring_norm(76) unsigned_less)

lemma ucast_up_down [simp]:
  "LENGTH('a) \<le> LENGTH('b) \<Longrightarrow> ucast (ucast (x :: 'a::len word) :: 'b::len word) = x"
  by (auto simp: word_eq_bits bit_ucast_word)

lemma sint_small: "unat (x :: 'a::len word) < 2 ^ (LENGTH('a) - 1) \<Longrightarrow> sint x = int (unat x)"
proof -
  assume "unat x < 2 ^ (LENGTH('a) - 1)"
  then have "int (unat x) < 2 ^ (LENGTH('a) - 1)" by (metis of_nat_less_iff of_nat_numeral of_nat_power)
  then have "signed_take_bit (LENGTH('a) - Suc 0) (int (unat x)) = int (unat x)"
    by (intro signed_take_bit_int_eq_self) (auto intro: order_trans [of _ 0])
  then show "sint x = int (unat x)" by (simp add: sint_uint)
qed

lemma sint_neg_iff: "sint (x :: 'a::len word) < 0 \<longleftrightarrow> 2 ^ (LENGTH('a) - 1) \<le> unat x"
proof -
  have len: "(2 :: nat) ^ LENGTH('a) = 2 * 2 ^ (LENGTH('a) - 1)"
    by (metis One_nat_def Suc_pred len_gt_0 power_Suc)
  have "sint x < 0 \<longleftrightarrow> bit x (LENGTH('a) - 1)"
    unfolding sint_uint by (simp add: signed_take_bit_negative_iff bit_uint_iff)
  also have "\<dots> \<longleftrightarrow> odd (unat x div 2 ^ (LENGTH('a) - 1))"
    by (metis bit_iff_odd bit_unsigned_iff possible_bit_nat)
  also have "\<dots> \<longleftrightarrow> 2 ^ (LENGTH('a) - 1) \<le> unat x"
  proof (cases "unat x < 2 ^ (LENGTH('a) - 1)")
    case False
    then have "unat x div 2 ^ (LENGTH('a) - 1) = 1"
      using unat_lt2p [of x] len by (intro div_nat_eqI) simp_all
    with False show ?thesis by simp
  qed simp
  finally show ?thesis .
qed

lemma sint_nonneg: "0 \<le> sint (x :: 'a::len word) \<Longrightarrow> sint x = int (unat x)"
  using sint_neg_iff [of x] sint_small [of x] by linarith

lemma unat_ucast_small:
  "unat (x :: 'a::len word) < 2 ^ LENGTH('b) \<Longrightarrow> unat (ucast x :: 'b::len word) = unat x"
  by (simp add: unsigned_ucast_eq take_bit_nat_eq_self)

end
