(* ===== verification/Mmsp2_Io.thy ===== *)
theory Mmsp2_Io
  imports Prelude
begin

text \<open>
  Register access, pin multiplexing and clocks of the MP2520F system on chip
  (\<^verbatim>\<open>include/asm-arm/arch-mp25xxf\<close>, \<^verbatim>\<open>arch/arm/mach-mp2520f/generic.c\<close>).

  The chip's registers are hardware, not code: every routine takes a record of type
  \<open>'h mmio\<close> with the volatile loads and stores of the three widths, over a hardware state
  \<open>'h\<close>. A theorem that needs a register to keep what is written to it says so with
  \<open>plain16\<close>; the register file \<open>regfile\<close> is an instance for evaluation.
\<close>

section \<open>Memory-mapped registers\<close>

record 'h mmio =
  rd32 :: "u32 \<Rightarrow> 'h \<Rightarrow> u32 \<times> 'h"
  wr32 :: "u32 \<Rightarrow> u32 \<Rightarrow> 'h \<Rightarrow> 'h"
  rd16 :: "u32 \<Rightarrow> 'h \<Rightarrow> u16 \<times> 'h"
  wr16 :: "u32 \<Rightarrow> u16 \<Rightarrow> 'h \<Rightarrow> 'h"
  rd8 :: "u32 \<Rightarrow> 'h \<Rightarrow> u8 \<times> 'h"
  wr8 :: "u32 \<Rightarrow> u8 \<Rightarrow> 'h \<Rightarrow> 'h"

text \<open>The physical-to-virtual macro of the statically mapped windows, and its inverse.\<close>

definition io_p2v :: "u32 \<Rightarrow> u32" where
  "io_p2v x = (drop_bit 4 (x AND 0xff000000) OR 0xf0000000) OR (x AND 0x000ffff)"

definition io_v2p :: "u32 \<Rightarrow> u32" where
  "io_v2p x = push_bit 4 (x AND 0x0ff00000) OR (x AND 0x000fffff)"

definition REG_rd :: "'h mmio \<Rightarrow> u32 \<Rightarrow> 'h \<Rightarrow> u32 \<times> 'h" where
  "REG_rd io x h = rd32 io (io_p2v x) h"

definition REG_wr :: "'h mmio \<Rightarrow> u32 \<Rightarrow> u32 \<Rightarrow> 'h \<Rightarrow> 'h" where
  "REG_wr io x v h = wr32 io (io_p2v x) v h"

definition REGW_rd :: "'h mmio \<Rightarrow> u32 \<Rightarrow> 'h \<Rightarrow> u16 \<times> 'h" where
  "REGW_rd io x h = rd16 io (io_p2v x) h"

definition REGW_wr :: "'h mmio \<Rightarrow> u32 \<Rightarrow> u16 \<Rightarrow> 'h \<Rightarrow> 'h" where
  "REGW_wr io x v h = wr16 io (io_p2v x) v h"

definition REGB_rd :: "'h mmio \<Rightarrow> u32 \<Rightarrow> 'h \<Rightarrow> u8 \<times> 'h" where
  "REGB_rd io x h = rd8 io (io_p2v x) h"

text \<open>A compound assignment \<^verbatim>\<open>R op= e\<close>: one load, one store.\<close>

definition REG_upd :: "'h mmio \<Rightarrow> u32 \<Rightarrow> (u32 \<Rightarrow> u32) \<Rightarrow> 'h \<Rightarrow> 'h" where
  "REG_upd io x f h = (let (v, h) = REG_rd io x h in REG_wr io x (f v) h)"

definition REGW_upd :: "'h mmio \<Rightarrow> u32 \<Rightarrow> (u16 \<Rightarrow> u16) \<Rightarrow> 'h \<Rightarrow> 'h" where
  "REGW_upd io x f h = (let (v, h) = REGW_rd io x h in REGW_wr io x (f v) h)"

text \<open>
  Registers that hold what is written: on the addresses \<open>A\<close> a load returns the current
  value and changes nothing, a store changes the addressed register only.
\<close>

definition plain16 :: "'h mmio \<Rightarrow> ('h \<Rightarrow> u32 \<Rightarrow> u16) \<Rightarrow> u32 set \<Rightarrow> bool" where
  "plain16 io view A \<longleftrightarrow>
     (\<forall>h. \<forall>a \<in> A. rd16 io a h = (view h a, h) \<and>
        (\<forall>v. \<forall>b \<in> A. view (wr16 io a v h) b = (if b = a then v else view h b)))"

definition plain32 :: "'h mmio \<Rightarrow> ('h \<Rightarrow> u32 \<Rightarrow> u32) \<Rightarrow> u32 set \<Rightarrow> bool" where
  "plain32 io view A \<longleftrightarrow>
     (\<forall>h. \<forall>a \<in> A. rd32 io a h = (view h a, h) \<and>
        (\<forall>v. \<forall>b \<in> A. view (wr32 io a v h) b = (if b = a then v else view h b)))"

text \<open>A register file keyed by address, every register of which is plain.\<close>

definition regfile :: "(u32 \<Rightarrow> u32) mmio" where
  "regfile = \<lparr>rd32 = (\<lambda>a h. (h a, h)), wr32 = (\<lambda>a v h. h(a := v)),
     rd16 = (\<lambda>a h. (ucast (h a), h)), wr16 = (\<lambda>a v h. h(a := ucast v)),
     rd8 = (\<lambda>a h. (ucast (h a), h)), wr8 = (\<lambda>a v h. h(a := ucast v))\<rparr>"

definition regview16 :: "(u32 \<Rightarrow> u32) \<Rightarrow> u32 \<Rightarrow> u16" where
  "regview16 h a = ucast (h a)"

lemma regfile_plain16: "plain16 regfile regview16 A"
  by (simp add: plain16_def regfile_def regview16_def)

lemma regfile_plain32: "plain32 regfile (\<lambda>h a. h a) A"
  by (simp add: plain32_def regfile_def)

lemmas io_defs = REG_rd_def REG_wr_def REGW_rd_def REGW_wr_def REGB_rd_def
  REG_upd_def REGW_upd_def

lemma plain16_rd: "plain16 io view A \<Longrightarrow> a \<in> A \<Longrightarrow> rd16 io a h = (view h a, h)"
  by (simp add: plain16_def)

lemma plain16_wr:
  "plain16 io view A \<Longrightarrow> a \<in> A \<Longrightarrow> b \<in> A \<Longrightarrow>
     view (wr16 io a v h) b = (if b = a then v else view h b)"
  by (simp add: plain16_def)

lemma plain32_rd: "plain32 io view A \<Longrightarrow> a \<in> A \<Longrightarrow> rd32 io a h = (view h a, h)"
  by (simp add: plain32_def)

lemma plain32_wr:
  "plain32 io view A \<Longrightarrow> a \<in> A \<Longrightarrow> b \<in> A \<Longrightarrow>
     view (wr32 io a v h) b = (if b = a then v else view h b)"
  by (simp add: plain32_def)

section \<open>Statically mapped windows\<close>

text \<open>\<^verbatim>\<open>struct map_desc\<close>: virtual base, page frame, length (the memory type is always
  \<^verbatim>\<open>MT_DEVICE\<close> here).\<close>

record map_desc =
  md_virtual :: u32
  md_pfn :: u32
  md_length :: u32

definition MMSP2_NIO_START :: u32 where "MMSP2_NIO_START = 0xc0000000"
definition MMSP2_NIO_SIZE :: u32 where "MMSP2_NIO_SIZE = 0x00010000"
definition FIO_START :: u32 where "FIO_START = 0xe0000000"
definition FIO_SIZE :: u32 where "FIO_SIZE = 0x00010000"

definition phys_to_pfn :: "u32 \<Rightarrow> u32" where
  "phys_to_pfn x = drop_bit 12 x"

definition mmsp2_io_desc :: "map_desc list" where
  "mmsp2_io_desc =
    [\<lparr>md_virtual = io_p2v MMSP2_NIO_START, md_pfn = phys_to_pfn MMSP2_NIO_START,
      md_length = MMSP2_NIO_SIZE\<rparr>,
     \<lparr>md_virtual = io_p2v FIO_START, md_pfn = phys_to_pfn FIO_START,
      md_length = FIO_SIZE\<rparr>]"

section \<open>Pin multiplexing and output\<close>

definition GPIOL :: u16 where "GPIOL = 0x16"
definition GPIOO :: u16 where "GPIOO = 0x1c"

definition GPIO_FN_ALT1 :: u16 where "GPIO_FN_ALT1 = 2"

definition GPIOxALTFNHI :: "u16 \<Rightarrow> u32" where
  "GPIOxALTFNHI x = 0xc0001020 + 0x20 + ucast x"

definition GPIOxALTFNLOW :: "u16 \<Rightarrow> u32" where
  "GPIOxALTFNLOW x = 0xc0001020 + ucast x"

definition GPIOxOUT :: "u16 \<Rightarrow> u32" where
  "GPIOxOUT x = 0xc0001060 + ucast x"

text \<open>
  The \<^verbatim>\<open>printk\<close> calls load the registers they print; those loads are kept. The
  16-bit operands are promoted to 32 bits and the result is stored back in 16 bits.
\<close>

definition mmsp2_gpio_mode :: "'h mmio \<Rightarrow> u16 \<Rightarrow> u16 \<Rightarrow> u16 \<Rightarrow> 'h \<Rightarrow> 'h" where
  "mmsp2_gpio_mode io grp pin mode h =
    (if grp > GPIOO then h
     else if pin > 16 then h
     else if pin > 8 then
       let offset = unat (2 * (pin - 8));
           (_, h) = REGW_rd io (GPIOxALTFNHI grp) h;
           (_, h) = REGW_rd io (GPIOxALTFNLOW grp) h;
           (r, h) = REGW_rd io (GPIOxALTFNHI grp) h;
           value = (ucast ((ucast r :: u32) AND NOT (push_bit offset 3)) :: u16);
           value = value OR ucast (push_bit offset ((ucast mode :: u32) AND 3))
       in REGW_wr io (GPIOxALTFNHI grp) value h
     else
       let offset = unat (2 * pin);
           (_, h) = REGW_rd io (GPIOxALTFNHI grp) h;
           (_, h) = REGW_rd io (GPIOxALTFNLOW grp) h;
           (r, h) = REGW_rd io (GPIOxALTFNLOW grp) h;
           value = (ucast ((ucast r :: u32) AND NOT (push_bit offset 3)) :: u16);
           value = value OR ucast (push_bit offset ((ucast mode :: u32) AND 3))
       in REGW_wr io (GPIOxALTFNLOW grp) value h)"

definition mmsp2_gpio_write :: "'h mmio \<Rightarrow> u16 \<Rightarrow> u16 \<Rightarrow> u16 \<Rightarrow> 'h \<Rightarrow> 'h" where
  "mmsp2_gpio_write io grp pin data h =
    (let (_, h) = REGW_rd io (GPIOxOUT grp) h;
         (r, h) = REGW_rd io (GPIOxOUT grp) h;
         value = (ucast ((ucast r :: u32) AND NOT (push_bit (unat pin) 1)) :: u16);
         value = value OR ucast (push_bit (unat pin) (ucast data :: u32));
         h = REGW_wr io (GPIOxOUT grp) value h;
         (_, h) = REGW_rd io (GPIOxOUT grp) h
     in h)"

section \<open>Clocks\<close>

definition CLOCK_TICK_RATE :: u32 where "CLOCK_TICK_RATE = 7372800"

definition CPW_START :: u32 where "CPW_START = 0xc0000900"
definition FPLLVSETREG :: u32 where "FPLLVSETREG = CPW_START + 0x12"
definition UPLLVSETREG :: u32 where "UPLLVSETREG = CPW_START + 0x16"
definition APLLVSETREG :: u32 where "APLLVSETREG = CPW_START + 0x1a"
definition SYSCSETREG :: u32 where "SYSCSETREG = CPW_START + 0x1c"

definition GET_MDIV :: "u32 \<Rightarrow> u32" where "GET_MDIV x = drop_bit 8 (x AND 0xff00)"
definition GET_PDIV :: "u32 \<Rightarrow> u32" where "GET_PDIV x = drop_bit 2 (x AND 0x00fc)"
definition GET_SDIV :: "u32 \<Rightarrow> u32" where "GET_SDIV x = x AND 0x0003"
definition GET_DDIV :: "u16 \<Rightarrow> u32" where "GET_DDIV r = drop_bit 6 (ucast r AND 0x01f000)"

definition calc_clk :: "u16 \<Rightarrow> u32" where
  "calc_clk v =
    (let m = GET_MDIV (ucast v); p = GET_PDIV (ucast v); s = GET_SDIV (ucast v)
     in ((m + 8) * CLOCK_TICK_RATE) div ((p + 2) * push_bit (unat s) 1))"

definition mmsp2_get_fclk :: "'h mmio \<Rightarrow> 'h \<Rightarrow> u32 \<times> 'h" where
  "mmsp2_get_fclk io h = (let (v, h) = REGW_rd io FPLLVSETREG h in (calc_clk v, h))"

definition mmsp2_get_uclk :: "'h mmio \<Rightarrow> 'h \<Rightarrow> u32 \<times> 'h" where
  "mmsp2_get_uclk io h = (let (v, h) = REGW_rd io UPLLVSETREG h in (calc_clk v, h))"

definition mmsp2_get_aclk :: "'h mmio \<Rightarrow> 'h \<Rightarrow> u32 \<times> 'h" where
  "mmsp2_get_aclk io h = (let (v, h) = REGW_rd io APLLVSETREG h in (calc_clk v, h))"

text \<open>The quotient for DCLK is computed though it is not used: \<open>None\<close> is the division by
  zero it could raise.\<close>

definition mmsp2_get_pclk :: "'h mmio \<Rightarrow> 'h \<Rightarrow> (u32 \<times> 'h) option" where
  "mmsp2_get_pclk io h =
    (let (v, h) = REGW_rd io FPLLVSETREG h;
         c = calc_clk v;
         (r, h) = REGW_rd io SYSCSETREG h
     in if GET_DDIV r - 1 = 0 then None
        else let d = c div (GET_DDIV r - 1);
                 b = c div 2;
                 p = b div 2
             in Some (p, h))"

lemma bit_const16: "bit (0xffff :: u32) i \<longleftrightarrow> i < 16"
proof -
  have "(0xffff :: u32) = mask 16" by (simp add: mask_eq_exp_minus_1)
  then show ?thesis by (simp only: bit_mask_iff) auto
qed

lemma low_window:
  assumes "unat (off :: u32) < 0x10000"
  shows "off AND 0xffff = off" "off AND 0xff000000 = 0" "off AND 0xfffff = off" "off AND 0xff00000 = 0"
proof -
  have off: "off = take_bit 16 off"
    using assms by (simp add: word_unat_eq_iff unsigned_take_bit_eq take_bit_nat_eq_self)
  show "off AND 0xffff = off" by (subst (2) off) (simp add: take_bit_eq_mask mask_eq_exp_minus_1)
  show "off AND 0xff000000 = 0" 
    apply (subst off) apply (simp add: take_bit_eq_mask mask_eq_exp_minus_1 and.assoc)
    done
  show "off AND 0xff00000 = 0" 
    apply (subst off) apply (simp add: take_bit_eq_mask mask_eq_exp_minus_1 and.assoc)
    done
  show "off AND 0xfffff = off" 
    apply (subst (1 2) off) apply (simp add: take_bit_eq_mask mask_eq_exp_minus_1 and.assoc)
    done
qed
lemma window_plus:
  assumes "unat (off :: u32) < 0x10000" "b AND 0xffff = 0"
  shows "b + off = b OR off"
proof (rule disjunctive_add_eq_or)
  have "b AND off = b AND (off AND 0xffff)" using low_window(1) [OF assms(1)] by simp
  also have "\<dots> = (b AND 0xffff) AND off" by (simp only: ac_simps)
  also have "\<dots> = 0" using assms(2) by simp
  finally show "b AND off = 0" .
qed

lemma io_p2v_window:
  assumes "unat off < 0x10000" "base = 0xc0000000 \<or> base = 0xe0000000"
  shows "io_p2v (base + off) = io_p2v base + off" "io_v2p (io_p2v base + off) = base + off"
proof -
  note low = low_window [OF assms(1)]
  have plus: "base + off = base OR off"
    using assms by (intro window_plus) auto
  have p: "io_p2v (base OR off) = io_p2v base OR off"
    using assms(2) low by (elim disjE) (simp_all add: io_p2v_def bit.conj_disj_distrib2 or.assoc)
  have b0: "io_p2v base AND 0xffff = 0"
    using assms(2) by (auto simp: io_p2v_def)
  then show "io_p2v (base + off) = io_p2v base + off"
    by (simp only: plus p window_plus [OF assms(1)])
  have "io_v2p (io_p2v base OR off) = base OR off"
    using assms(2) low
    by (elim disjE) (simp_all add: io_p2v_def io_v2p_def bit.conj_disj_distrib2 or.assoc)
  then show "io_v2p (io_p2v base + off) = base + off"
    using b0 by (simp only: plus window_plus [OF assms(1)])
qed

text \<open>
  C23. On every address of the two statically mapped windows the address macro gives the virtual
  address the mapping table sets up, and the inverse macro gives the address back.
\<close>

theorem static_windows_map:
  "\<forall>d \<in> set mmsp2_io_desc. \<forall>off < md_length d.
     io_p2v (push_bit 12 (md_pfn d) + off) = md_virtual d + off \<and>
     io_v2p (io_p2v (push_bit 12 (md_pfn d) + off)) = push_bit 12 (md_pfn d) + off"
  by (auto simp: mmsp2_io_desc_def MMSP2_NIO_START_def MMSP2_NIO_SIZE_def FIO_START_def
      FIO_SIZE_def phys_to_pfn_def word_less_nat_alt io_p2v_window)

lemma gpio_field:
  fixes r mode :: u16 and k k' :: nat
  assumes "k < 8" "k' < 8"
  shows "drop_bit (2 * k') (ucast ((ucast r :: u32) AND NOT (push_bit (2 * k) 3)) OR
           ucast (push_bit (2 * k) ((ucast mode :: u32) AND 3)) :: u16) AND 3 =
         (if k' = k then mode AND 3 else drop_bit (2 * k') r AND 3)" (is "?l = ?r")
proof -
  have "bit ?l i = bit ?r i" if "i < 16" for i
  proof (cases "i < 2")
    case True
    have "2 * k \<le> 2 * k' + i \<and> 2 * k' + i - 2 * k < 2 \<longleftrightarrow> k' = k" using True by linarith
    then show ?thesis using True assms that by (simp only: bitwise split: if_split) auto
  next
    case False
    then show ?thesis by (simp only: bitwise split: if_split) simp
  qed
  then show ?thesis by (simp add: word_eq_bits)
qed

lemma gpio_field_out:
  fixes r mode :: u16
  shows "(ucast ((ucast r :: u32) AND NOT (push_bit 16 3)) OR
           ucast (push_bit 16 ((ucast mode :: u32) AND 3)) :: u16) = r" (is "?l = r")
proof -
  have "bit ?l i = bit r i" if "i < 16" for i
    using that by (simp only: bitwise) auto
  then show ?thesis by (simp add: word_eq_bits)
qed

section \<open>Pin functions\<close>

definition gpio_groups :: "u16 list" where
  "gpio_groups = [0x0, 0x2, 0x4, 0x6, 0x8, 0xa, 0xc, 0xe, 0x10, 0x12, 0x14, 0x16, 0x18, 0x1a, 0x1c]"

text \<open>The function selected for a pin: two bits per pin, pins 0 to 7 in the low register of
  the group, pins 8 to 15 in the high one.\<close>

definition gpio_fn :: "('h \<Rightarrow> u32 \<Rightarrow> u16) \<Rightarrow> 'h \<Rightarrow> u16 \<Rightarrow> nat \<Rightarrow> u16" where
  "gpio_fn view h g n =
    (if n < 8 then drop_bit (2 * n) (view h (io_p2v (GPIOxALTFNLOW g))) AND 3
     else drop_bit (2 * (n - 8)) (view h (io_p2v (GPIOxALTFNHI g))) AND 3)"

definition gpio_regs :: "u32 set" where
  "gpio_regs = (\<Union>g \<in> set gpio_groups.
     {io_p2v (GPIOxALTFNLOW g), io_p2v (GPIOxALTFNHI g), io_p2v (GPIOxOUT g)})"

lemma gpio_group_le: "g \<in> set gpio_groups \<Longrightarrow> unat g \<le> 28"
  by (auto simp: gpio_groups_def)

lemma gpio_group_OK: "g \<in> set gpio_groups \<Longrightarrow> \<not> GPIOO < g"
  by (drule gpio_group_le) (simp add: GPIOO_def word_less_nat_alt)

lemma gpio_window:
  assumes "g \<in> set gpio_groups" "unat k \<le> 0x2000"
  shows "unat (io_p2v (0xc0000000 + (k + ucast g))) = 0xfc000000 + unat k + unat g"
proof -
  have ug: "unat (ucast g :: u32) = unat g" by (simp add: unat_ucast_up)
  have le: "unat (k + (ucast g :: u32)) = unat k + unat g"
    using gpio_group_le [OF assms(1)] assms(2) by (simp add: unat_add_nowrap ug)
  then have "io_p2v (0xc0000000 + (k + ucast g)) = 0xfc000000 + (k + ucast g)"
    using gpio_group_le [OF assms(1)] assms(2)
      io_p2v_window(1) [where off = "k + ucast g" and base = "0xc0000000"] by (simp add: io_p2v_def)
  then show ?thesis
    using le gpio_group_le [OF assms(1)] assms(2) by (simp add: unat_add_nowrap)
qed

lemma gpio_addr:
  assumes "g \<in> set gpio_groups"
  shows "unat (io_p2v (GPIOxALTFNLOW g)) = 0xfc001020 + unat g"
    and "unat (io_p2v (GPIOxALTFNHI g)) = 0xfc001040 + unat g"
    and "unat (io_p2v (GPIOxOUT g)) = 0xfc001060 + unat g"
  using gpio_window [where k = "0x1020", OF assms] gpio_window [where k = "0x1040", OF assms]
    gpio_window [where k = "0x1060", OF assms]
  by (simp_all add: GPIOxALTFNLOW_def GPIOxALTFNHI_def GPIOxOUT_def add.assoc [symmetric])

lemma gpio_addr_distinct:
  assumes "g \<in> set gpio_groups" "g' \<in> set gpio_groups"
  shows "io_p2v (GPIOxALTFNLOW g) = io_p2v (GPIOxALTFNLOW g') \<longleftrightarrow> g = g'"
    and "io_p2v (GPIOxALTFNHI g) = io_p2v (GPIOxALTFNHI g') \<longleftrightarrow> g = g'"
    and "io_p2v (GPIOxOUT g) = io_p2v (GPIOxOUT g') \<longleftrightarrow> g = g'"
    and "io_p2v (GPIOxALTFNLOW g) \<noteq> io_p2v (GPIOxALTFNHI g')"
    and "io_p2v (GPIOxALTFNHI g) \<noteq> io_p2v (GPIOxALTFNLOW g')"
    and "io_p2v (GPIOxALTFNLOW g) \<noteq> io_p2v (GPIOxOUT g')"
    and "io_p2v (GPIOxALTFNHI g) \<noteq> io_p2v (GPIOxOUT g')"
    and "io_p2v (GPIOxOUT g) \<noteq> io_p2v (GPIOxALTFNLOW g')"
    and "io_p2v (GPIOxOUT g) \<noteq> io_p2v (GPIOxALTFNHI g')"
  using gpio_group_le [OF assms(1)] gpio_group_le [OF assms(2)]
  by (simp_all add: word_unat_eq_iff gpio_addr assms)

lemma gpio_regs_mem [simp]:
  "g \<in> set gpio_groups \<Longrightarrow> io_p2v (GPIOxALTFNLOW g) \<in> gpio_regs"
  "g \<in> set gpio_groups \<Longrightarrow> io_p2v (GPIOxALTFNHI g) \<in> gpio_regs"
  "g \<in> set gpio_groups \<Longrightarrow> io_p2v (GPIOxOUT g) \<in> gpio_regs"
  by (auto simp: gpio_regs_def)

lemma unat_double_pin: "unat (n :: u16) \<le> 16 \<Longrightarrow> unat (2 * n) = 2 * unat n"
  by (simp add: unat_word_ariths)

text \<open>The value both branches of \<open>mmsp2_gpio_mode\<close> store.\<close>

definition gpio_put :: "nat \<Rightarrow> u16 \<Rightarrow> u16 \<Rightarrow> u16" where
  "gpio_put off r mode = ucast ((ucast r :: u32) AND NOT (push_bit off 3)) OR
     ucast (push_bit off ((ucast mode :: u32) AND 3))"

lemma gpio_put_field:
  "k < 8 \<Longrightarrow> k' < 8 \<Longrightarrow> drop_bit (2 * k') (gpio_put (2 * k) r mode) AND 3 =
     (if k' = k then mode AND 3 else drop_bit (2 * k') r AND 3)"
  unfolding gpio_put_def by (rule gpio_field)

lemma gpio_put_out: "gpio_put 16 r mode = r"
  unfolding gpio_put_def by (rule gpio_field_out)

lemma gpio_mode_store:
  assumes "plain16 io view gpio_regs" "g \<in> set gpio_groups"
  shows "unat pin \<le> 8 \<Longrightarrow> mmsp2_gpio_mode io g pin mode h =
           wr16 io (io_p2v (GPIOxALTFNLOW g))
             (gpio_put (2 * unat pin) (view h (io_p2v (GPIOxALTFNLOW g))) mode) h"
    and "8 < unat pin \<Longrightarrow> unat pin \<le> 16 \<Longrightarrow> mmsp2_gpio_mode io g pin mode h =
           wr16 io (io_p2v (GPIOxALTFNHI g))
             (gpio_put (2 * (unat pin - 8)) (view h (io_p2v (GPIOxALTFNHI g))) mode) h"
proof -
  note rd = plain16_rd [OF assms(1)] gpio_group_OK [OF assms(2)] assms(2)
  show "mmsp2_gpio_mode io g pin mode h =
           wr16 io (io_p2v (GPIOxALTFNLOW g))
             (gpio_put (2 * unat pin) (view h (io_p2v (GPIOxALTFNLOW g))) mode) h"
    if le: "unat pin \<le> 8"
  proof -
    have "\<not> 16 < pin" "\<not> 8 < pin" using le by (simp_all add: word_less_nat_alt)
    with le show ?thesis
      by (simp add: mmsp2_gpio_mode_def io_defs rd unat_double_pin Let_def gpio_put_def)
  qed
  show "mmsp2_gpio_mode io g pin mode h =
           wr16 io (io_p2v (GPIOxALTFNHI g))
             (gpio_put (2 * (unat pin - 8)) (view h (io_p2v (GPIOxALTFNHI g))) mode) h"
    if le: "8 < unat pin" "unat pin \<le> 16"
  proof -
    have "\<not> 16 < pin" "8 < pin" using le by (simp_all add: word_less_nat_alt)
    moreover have "unat (2 * (pin - 8)) = 2 * (unat pin - 8)"
      using le by (simp add: unat_double_pin unat_sub_nowrap)
    ultimately show ?thesis
      by (simp add: mmsp2_gpio_mode_def io_defs rd Let_def gpio_put_def)
  qed
qed



section \<open>Output pins\<close>

definition gpio_out :: "('h \<Rightarrow> u32 \<Rightarrow> u16) \<Rightarrow> 'h \<Rightarrow> u16 \<Rightarrow> nat \<Rightarrow> bool" where
  "gpio_out view h g n = bit (view h (io_p2v (GPIOxOUT g))) n"

definition gpio_oput :: "nat \<Rightarrow> u16 \<Rightarrow> u16 \<Rightarrow> u16" where
  "gpio_oput k r data = ucast ((ucast r :: u32) AND NOT (push_bit k 1)) OR
     ucast (push_bit k (ucast data :: u32))"

lemma gpio_oput_bit:
  assumes "k < 16" "data \<le> 1" "n < 16"
  shows "bit (gpio_oput k r data) n = (if n = k then data = 1 else bit r n)"
proof -
  have "data = 0 \<or> data = 1" using assms(2) by (auto simp: word_le_nat_alt word_unat_eq_iff)
  then have d: "bit data i \<longleftrightarrow> i = 0 \<and> data = 1" for i by (auto simp: bit_1_iff)
  show ?thesis
    using assms(1,3) by (simp only: gpio_oput_def bitwise d split: if_split) auto
qed

lemma gpio_write_store:
  assumes "plain16 io view gpio_regs" "g \<in> set gpio_groups"
  shows "mmsp2_gpio_write io g pin data h =
    wr16 io (io_p2v (GPIOxOUT g)) (gpio_oput (unat pin) (view h (io_p2v (GPIOxOUT g))) data) h"
  by (simp add: mmsp2_gpio_write_def io_defs plain16_rd [OF assms(1)] assms(2) Let_def
      gpio_oput_def)

lemma gpio_write_fn:
  assumes "plain16 io view gpio_regs" "g \<in> set gpio_groups" "g' \<in> set gpio_groups"
  shows "gpio_fn view (mmsp2_gpio_write io g pin data h) g' n = gpio_fn view h g' n"
  by (simp add: gpio_fn_def gpio_write_store [OF assms(1,2)] plain16_wr [OF assms(1)]
      gpio_addr_distinct [OF assms(3,2)] assms)

lemma gpio_mode_out:
  assumes "plain16 io view gpio_regs" "g \<in> set gpio_groups" "g' \<in> set gpio_groups"
    and "unat pin \<le> 16"
  shows "gpio_out view (mmsp2_gpio_mode io g pin mode h) g' n = gpio_out view h g' n"
  using gpio_mode_store [OF assms(1,2), of pin mode h] assms(4)
  by (cases "unat pin \<le> 8")
     (simp_all add: gpio_out_def plain16_wr [OF assms(1)] gpio_addr_distinct [OF assms(3,2)] assms)


section \<open>Clock arithmetic\<close>

lemma pll_fields:
  fixes v :: u16
  shows "unat (GET_MDIV (ucast v)) = unat v div 256"
    and "unat (GET_PDIV (ucast v)) = unat v div 4 mod 64"
    and "unat (GET_SDIV (ucast v)) = unat v mod 4"
proof -
  have u: "unat (ucast v :: u32) = unat v" by (simp add: unat_ucast_up)
  have lt: "unat v < 65536" using unat_lt2p [of v] by simp
  have "GET_MDIV (ucast v) = drop_bit 8 (ucast v) AND mask 8"
    by (simp add: GET_MDIV_def mask_eq_exp_minus_1)
  then show "unat (GET_MDIV (ucast v)) = unat v div 256"
    using lt by (simp only: unat_and_mask_low unat_drop_bit u) simp
  have "GET_PDIV (ucast v) = drop_bit 2 (ucast v) AND mask 6"
    by (simp add: GET_PDIV_def mask_eq_exp_minus_1)
  then show "unat (GET_PDIV (ucast v)) = unat v div 4 mod 64"
    by (simp only: unat_and_mask_low unat_drop_bit u) simp
  have "GET_SDIV (ucast v) = ucast v AND mask 2"
    by (simp add: GET_SDIV_def mask_eq_exp_minus_1)
  then show "unat (GET_SDIV (ucast v)) = unat v mod 4"
    by (simp only: unat_and_mask_low u) simp
qed

lemma calc_clk_formula:
  "unat (calc_clk v) =
     (unat v div 256 + 8) * 7372800 div ((unat v div 4 mod 64 + 2) * 2 ^ (unat v mod 4))"
proof -
  let ?m = "GET_MDIV (ucast v)" and ?p = "GET_PDIV (ucast v)" and ?s = "GET_SDIV (ucast v)"
  note f = pll_fields [of v]
  have m: "unat v div 256 \<le> 255" using unat_lt2p [of v] by simp
  have s: "unat v mod 4 \<in> {0, 1, 2, 3}" by auto
  have "unat (?m + 8) = unat v div 256 + 8"
    using m by (simp add: unat_add_nowrap f)
  then have num: "unat ((?m + 8) * CLOCK_TICK_RATE) = (unat v div 256 + 8) * 7372800"
    using m by (subst unat_mult_nowrap) (simp_all add: CLOCK_TICK_RATE_def)
  have p2: "unat (?p + 2) = unat v div 4 mod 64 + 2"
    by (simp add: unat_add_nowrap f)
  have sh: "unat (push_bit (unat ?s) 1 :: u32) = 2 ^ (unat v mod 4)"
    using s by (auto simp: f)
  have "(unat v div 4 mod 64 + 2) * 2 ^ (unat v mod 4) \<le> 65 * 2 ^ 3"
    by (rule mult_le_mono) (use s in \<open>auto simp: less_Suc_eq_le [symmetric]\<close>)
  then have b: "(unat v div 4 mod 64 + 2) * 2 ^ (unat v mod 4) < 2 ^ 32" by simp
  have "unat ((?p + 2) * push_bit (unat ?s) 1) = (unat v div 4 mod 64 + 2) * 2 ^ (unat v mod 4)"
    using b by (subst unat_mult_nowrap) (simp_all only: p2 sh, simp_all)
  then show ?thesis
    by (simp only: calc_clk_def Let_def unat_div num)
qed

text \<open>
  C22. The clock of a PLL is the formula of the data sheet for every register value: the product
  with the crystal frequency stays below 2^32 and the divisor is never zero.
\<close>

theorem calc_clk_exact:
  "unat (calc_clk v) =
     (unat v div 256 + 8) * 7372800 div ((unat v div 4 mod 64 + 2) * 2 ^ (unat v mod 4))"
  by (rule calc_clk_formula)

text \<open>\<^verbatim>\<open>GET_DDIV\<close> is a multiple of 64, so the unused DCLK quotient never divides by zero.\<close>

lemma GET_DDIV_not_one: "GET_DDIV r - 1 \<noteq> 0"
proof -
  have "bit (GET_DDIV r) 0 = False"
    by (simp add: GET_DDIV_def bit_and_iff bit_drop_word)
  moreover have "bit (1 :: u32) 0" by simp
  ultimately have "GET_DDIV r \<noteq> 1" by metis
  then show ?thesis by simp
qed

theorem mmsp2_get_pclk_total:
  "\<exists>h'. mmsp2_get_pclk io h = Some (calc_clk (fst (REGW_rd io FPLLVSETREG h)) div 4, h')"
proof -
  have "x div 2 div 2 = x div 4" for x :: u32
    by (simp add: word_unat_eq_iff unat_div div_mult2_eq [symmetric])
  then show ?thesis
    using GET_DDIV_not_one by (simp add: mmsp2_get_pclk_def Let_def split: prod.splits)
qed

section \<open>Instances on the register file\<close>

theorem static_windows_map_witness:
  "io_p2v 0xe0000123 = 0xfe000123 \<and> io_v2p (io_p2v 0xe0000123) = 0xe0000123"
proof -
  let ?d = "\<lparr>md_virtual = io_p2v FIO_START, md_pfn = phys_to_pfn FIO_START, md_length = FIO_SIZE\<rparr>"
  have "?d \<in> set mmsp2_io_desc" "(0x123 :: u32) < md_length ?d"
    by (simp_all add: mmsp2_io_desc_def FIO_SIZE_def)
  with static_windows_map show ?thesis
    by (fastforce simp: FIO_START_def phys_to_pfn_def io_p2v_def)
qed




end
