(* ===== verification/Irq_Core.thy ===== *)
theory Irq_Core
  imports Prelude "HOL-Library.Monad_Syntax"
begin

text \<open>
  The generic interrupt layer (\<^verbatim>\<open>kernel/irq/chip.c\<close>, \<^verbatim>\<open>handle.c\<close>, \<^verbatim>\<open>manage.c\<close>, \<^verbatim>\<open>resend.c\<close>,
  \<^verbatim>\<open>spurious.c\<close>) and its ARM entry (\<^verbatim>\<open>arch/arm/kernel/irq.c\<close>), as configured for the
  machine: one processor, \<^verbatim>\<open>CONFIG_HARDIRQS_SW_RESEND\<close> and \<^verbatim>\<open>CONFIG_DEBUG_SHIRQ\<close>.

  The state holds the descriptor table, the interrupt chips and the hardware. Function
  pointers of a chip are optional values, and calling an absent one is the result
  \<open>None\<close>: the kernel would jump to address zero. The spin locks have no effect on
  one processor, so each function is one atomic transition. Drivers' interrupt handlers are
  an argument: \<open>env h irq dev s\<close> is what handler \<open>h\<close> does when it is called.
\<close>

section \<open>Data\<close>

definition NR_IRQS :: nat where "NR_IRQS = 53"

definition IRQ_INPROGRESS :: u32 where "IRQ_INPROGRESS = 0x100"
definition IRQ_DISABLED :: u32 where "IRQ_DISABLED = 0x200"
definition IRQ_PENDING :: u32 where "IRQ_PENDING = 0x400"
definition IRQ_REPLAY :: u32 where "IRQ_REPLAY = 0x800"
definition IRQ_AUTODETECT :: u32 where "IRQ_AUTODETECT = 0x1000"
definition IRQ_WAITING :: u32 where "IRQ_WAITING = 0x2000"
definition IRQ_LEVEL :: u32 where "IRQ_LEVEL = 0x4000"
definition IRQ_MASKED :: u32 where "IRQ_MASKED = 0x8000"
definition IRQ_NOPROBE :: u32 where "IRQ_NOPROBE = 0x20000"
definition IRQ_NOREQUEST :: u32 where "IRQ_NOREQUEST = 0x40000"
definition IRQ_NOAUTOEN :: u32 where "IRQ_NOAUTOEN = 0x80000"
definition IRQ_NO_BALANCING :: u32 where "IRQ_NO_BALANCING = 0x400000"

definition IRQF_TRIGGER_MASK :: u32 where "IRQF_TRIGGER_MASK = 0xf"
definition IRQF_SAMPLE_RANDOM :: u32 where "IRQF_SAMPLE_RANDOM = 0x40"
definition IRQF_SHARED :: u32 where "IRQF_SHARED = 0x80"
definition IRQF_NOBALANCING :: u32 where "IRQF_NOBALANCING = 0x800"

definition IRQF_VALID :: u32 where "IRQF_VALID = 1"
definition IRQF_PROBE :: u32 where "IRQF_PROBE = 2"
definition IRQF_NOAUTOEN :: u32 where "IRQF_NOAUTOEN = 4"

definition IRQ_NONE :: u32 where "IRQ_NONE = 0"
definition IRQ_HANDLED :: u32 where "IRQ_HANDLED = 1"

definition HZ :: u32 where "HZ = 100"

text \<open>A test \<^verbatim>\<open>status & FLAG\<close>.\<close>

definition has :: "u32 \<Rightarrow> u32 \<Rightarrow> bool" where
  "has s m \<longleftrightarrow> s AND m \<noteq> 0"

text \<open>
  The callbacks of a chip. The mask, unmask and acknowledge callbacks act on the hardware, or
  are the empty and the error-counting function of \<^verbatim>\<open>handle.c\<close>; the slots that
  \<^verbatim>\<open>irq_chip_set_defaults\<close> fills may also hold the defaults of \<^verbatim>\<open>chip.c\<close>.
\<close>

datatype (dead 'h) hwfn = Hw "nat \<Rightarrow> 'h \<Rightarrow> 'h" | Noop | Ack_bad

datatype (dead 'h) enable_fn = Enable_hw "'h hwfn" | Default_enable

datatype (dead 'h) disable_fn = Disable_hw "'h hwfn" | Default_disable

datatype (dead 'h) startup_fn = Startup_hw "'h hwfn" | Default_startup

record 'h irq_chip =
  c_name :: "string option"
  c_startup :: "'h startup_fn option"
  c_shutdown :: "'h disable_fn option"
  c_enable :: "'h enable_fn option"
  c_disable :: "'h disable_fn option"
  c_ack :: "'h hwfn option"
  c_mask :: "'h hwfn option"
  c_mask_ack :: "'h hwfn option"
  c_unmask :: "'h hwfn option"
  c_end :: "'h hwfn option"
  c_retrigger :: "(nat \<Rightarrow> 'h \<Rightarrow> bool \<times> 'h) option"
  c_set_type :: "(nat \<Rightarrow> u32 \<Rightarrow> 'h \<Rightarrow> 'h) option"
  c_typename :: "string option"

text \<open>Addresses of chips: the two of \<^verbatim>\<open>handle.c\<close> and those of the platform.\<close>

datatype chip_ptr = No_irq_chip | Dummy_irq_chip | Chip nat

text \<open>Flow handlers: those of \<^verbatim>\<open>kernel/irq\<close> in use, and a platform's demultiplexers.\<close>

datatype flow = Handle_bad_irq | Handle_simple_irq | Handle_level_irq | Demux nat

record irqaction =
  ia_handler :: nat
  ia_flags :: u32
  ia_name :: string
  ia_dev_id :: u32

record irq_desc =
  handle_irq :: "flow option"
  chip :: chip_ptr
  action :: "irqaction list"
  status :: u32
  depth :: u32
  irq_count :: u32
  irqs_unhandled :: u32
  last_unhandled :: u32

record 'h irq_sys =
  irq_desc :: "nat \<Rightarrow> irq_desc"
  chips :: "chip_ptr \<Rightarrow> 'h irq_chip"
  hw :: 'h
  kstat_irqs :: "nat \<Rightarrow> u32"
  irq_err_count :: u32
  irqs_resend :: "nat set"
  jiffies :: u32
  noirqdebug :: bool

type_synonym 'h handlers =
  "nat \<Rightarrow> nat \<Rightarrow> u32 \<Rightarrow> 'h irq_sys \<Rightarrow> (u32 \<times> 'h irq_sys) option"

definition no_irq_chip :: "'h irq_chip" where
  "no_irq_chip = \<lparr>c_name = Some ''none'', c_startup = Some (Startup_hw Noop),
     c_shutdown = Some (Disable_hw Noop), c_enable = Some (Enable_hw Noop),
     c_disable = Some (Disable_hw Noop), c_ack = Some Ack_bad, c_mask = None,
     c_mask_ack = None, c_unmask = None, c_end = Some Noop, c_retrigger = None,
     c_set_type = None, c_typename = None\<rparr>"

definition dummy_irq_chip :: "'h irq_chip" where
  "dummy_irq_chip = \<lparr>c_name = Some ''dummy'', c_startup = Some (Startup_hw Noop),
     c_shutdown = Some (Disable_hw Noop), c_enable = Some (Enable_hw Noop),
     c_disable = Some (Disable_hw Noop), c_ack = Some Noop, c_mask = Some Noop,
     c_mask_ack = None, c_unmask = Some Noop, c_end = Some Noop, c_retrigger = None,
     c_set_type = None, c_typename = None\<rparr>"

text \<open>The static initialiser of the descriptor table.\<close>

definition irq_desc_init :: irq_desc where
  "irq_desc_init = \<lparr>handle_irq = Some Handle_bad_irq, chip = No_irq_chip, action = [],
     status = IRQ_DISABLED, depth = 1, irq_count = 0, irqs_unhandled = 0, last_unhandled = 0\<rparr>"

section \<open>Access to the state\<close>

definition desc_upd :: "nat \<Rightarrow> (irq_desc \<Rightarrow> irq_desc) \<Rightarrow> 'h irq_sys \<Rightarrow> 'h irq_sys" where
  "desc_upd irq f s = s\<lparr>irq_desc := (irq_desc s)(irq := f (irq_desc s irq))\<rparr>"

abbreviation status_upd :: "nat \<Rightarrow> (u32 \<Rightarrow> u32) \<Rightarrow> 'h irq_sys \<Rightarrow> 'h irq_sys" where
  "status_upd irq f \<equiv> desc_upd irq (status_update f)"

abbreviation st :: "nat \<Rightarrow> 'h irq_sys \<Rightarrow> u32" where
  "st irq s \<equiv> status (irq_desc s irq)"

definition chip_of :: "nat \<Rightarrow> 'h irq_sys \<Rightarrow> 'h irq_chip" where
  "chip_of irq s = chips s (chip (irq_desc s irq))"

definition ack_bad_irq :: "'h irq_sys \<Rightarrow> 'h irq_sys" where
  "ack_bad_irq s = s\<lparr>irq_err_count := irq_err_count s + 1\<rparr>"

definition kstat_inc :: "nat \<Rightarrow> 'h irq_sys \<Rightarrow> 'h irq_sys" where
  "kstat_inc irq s = s\<lparr>kstat_irqs := (kstat_irqs s)(irq := kstat_irqs s irq + 1)\<rparr>"

text \<open>Calls through the function pointers of a chip.\<close>

fun call_hw :: "'h hwfn option \<Rightarrow> nat \<Rightarrow> 'h irq_sys \<Rightarrow> 'h irq_sys option" where
  "call_hw None irq s = None"
| "call_hw (Some (Hw f)) irq s = Some (s\<lparr>hw := f irq (hw s)\<rparr>)"
| "call_hw (Some Noop) irq s = Some s"
| "call_hw (Some Ack_bad) irq s = Some (ack_bad_irq s)"

section \<open>chip.c\<close>

definition default_enable :: "nat \<Rightarrow> 'h irq_sys \<Rightarrow> 'h irq_sys option" where
  "default_enable irq s = do {
     s \<leftarrow> call_hw (c_unmask (chip_of irq s)) irq s;
     Some (status_upd irq (\<lambda>x. x AND NOT IRQ_MASKED) s)
   }"

definition default_disable :: "nat \<Rightarrow> 'h irq_sys \<Rightarrow> 'h irq_sys option" where
  "default_disable irq s = Some s"

fun call_enable :: "'h enable_fn option \<Rightarrow> nat \<Rightarrow> 'h irq_sys \<Rightarrow> 'h irq_sys option" where
  "call_enable None irq s = None"
| "call_enable (Some (Enable_hw f)) irq s = call_hw (Some f) irq s"
| "call_enable (Some Default_enable) irq s = default_enable irq s"

fun call_disable :: "'h disable_fn option \<Rightarrow> nat \<Rightarrow> 'h irq_sys \<Rightarrow> 'h irq_sys option" where
  "call_disable None irq s = None"
| "call_disable (Some (Disable_hw f)) irq s = call_hw (Some f) irq s"
| "call_disable (Some Default_disable) irq s = default_disable irq s"

definition default_startup :: "nat \<Rightarrow> 'h irq_sys \<Rightarrow> 'h irq_sys option" where
  "default_startup irq s = call_enable (c_enable (chip_of irq s)) irq s"

fun call_startup :: "'h startup_fn option \<Rightarrow> nat \<Rightarrow> 'h irq_sys \<Rightarrow> 'h irq_sys option" where
  "call_startup None irq s = None"
| "call_startup (Some (Startup_hw f)) irq s = call_hw (Some f) irq s"
| "call_startup (Some Default_startup) irq s = default_startup irq s"

definition irq_chip_set_defaults :: "'h irq_chip \<Rightarrow> 'h irq_chip" where
  "irq_chip_set_defaults c = (
     let c = (if c_enable c = None then c\<lparr>c_enable := Some Default_enable\<rparr> else c);
         c = (if c_disable c = None then c\<lparr>c_disable := Some Default_disable\<rparr> else c);
         c = (if c_startup c = None then c\<lparr>c_startup := Some Default_startup\<rparr> else c);
         c = (if c_shutdown c = None then c\<lparr>c_shutdown := c_disable c\<rparr> else c);
         c = (if c_name c = None then c\<lparr>c_name := c_typename c\<rparr> else c)
     in if c_end c = None then c\<lparr>c_end := c_end dummy_irq_chip\<rparr> else c)"

text \<open>Its effect on the chip stored at an address.\<close>

definition set_defaults_at :: "chip_ptr \<Rightarrow> 'h irq_sys \<Rightarrow> 'h irq_sys" where
  "set_defaults_at p s = s\<lparr>chips := (chips s)(p := irq_chip_set_defaults (chips s p))\<rparr>"

definition set_irq_chip ::
  "nat \<Rightarrow> chip_ptr option \<Rightarrow> 'h irq_sys \<Rightarrow> (errno + unit) \<times> 'h irq_sys" where
  "set_irq_chip irq c s = (
     if irq \<ge> NR_IRQS then (Inl EINVAL, s)
     else let p = (case c of None \<Rightarrow> No_irq_chip | Some p \<Rightarrow> p)
          in (Inr (), desc_upd irq (chip_update (\<lambda>_. p)) (set_defaults_at p s)))"

definition mask_ack_irq :: "nat \<Rightarrow> 'h irq_sys \<Rightarrow> 'h irq_sys option" where
  "mask_ack_irq irq s = (
     if c_mask_ack (chip_of irq s) \<noteq> None then call_hw (c_mask_ack (chip_of irq s)) irq s
     else do {
       s \<leftarrow> call_hw (c_mask (chip_of irq s)) irq s;
       call_hw (c_ack (chip_of irq s)) irq s
     })"

definition set_irq_handler_gen ::
  "nat \<Rightarrow> flow option \<Rightarrow> bool \<Rightarrow> 'h irq_sys \<Rightarrow> 'h irq_sys option" where
  "set_irq_handler_gen irq hdl is_chained s = (
     if irq \<ge> NR_IRQS then Some s
     else let handle = (case hdl of None \<Rightarrow> Handle_bad_irq | Some f \<Rightarrow> f);
              s = (if hdl \<noteq> None \<and> chip (irq_desc s irq) = No_irq_chip
                   then desc_upd irq (chip_update (\<lambda>_. Dummy_irq_chip)) s else s)
     in do {
       s \<leftarrow> (if handle = Handle_bad_irq then do {
              s \<leftarrow> (if chip (irq_desc s irq) \<noteq> No_irq_chip then mask_ack_irq irq s else Some s);
              Some (desc_upd irq (\<lambda>d. d\<lparr>status := status d OR IRQ_DISABLED, depth := 1\<rparr>) s)
            } else Some s);
       s \<leftarrow> Some (desc_upd irq (handle_irq_update (\<lambda>_. Some handle)) s);
       if handle \<noteq> Handle_bad_irq \<and> is_chained then
         (let s = desc_upd irq (\<lambda>d. d\<lparr>status := (status d AND NOT IRQ_DISABLED)
                      OR (IRQ_NOREQUEST OR IRQ_NOPROBE), depth := 0\<rparr>) s
          in call_hw (c_unmask (chip_of irq s)) irq s)
       else Some s
     })"

section \<open>manage.c and resend.c\<close>

definition disable_irq_nosync :: "nat \<Rightarrow> 'h irq_sys \<Rightarrow> 'h irq_sys option" where
  "disable_irq_nosync irq s = (
     if irq \<ge> NR_IRQS then Some s
     else let d0 = depth (irq_desc s irq);
              s = desc_upd irq (depth_update (\<lambda>d. d + 1)) s
     in if d0 = 0 then
          (let s = status_upd irq (\<lambda>x. x OR IRQ_DISABLED) s
           in call_disable (c_disable (chip_of irq s)) irq s)
        else Some s)"

text \<open>\<^verbatim>\<open>synchronize_irq\<close> is a compiler barrier on one processor.\<close>

definition disable_irq :: "nat \<Rightarrow> 'h irq_sys \<Rightarrow> 'h irq_sys option" where
  "disable_irq irq s = (if irq \<ge> NR_IRQS then Some s else disable_irq_nosync irq s)"

text \<open>The call of the optional \<^verbatim>\<open>retrigger\<close> callback; without it the answer is zero.\<close>

definition call_retrigger :: "nat \<Rightarrow> 'h irq_sys \<Rightarrow> bool \<times> 'h irq_sys" where
  "call_retrigger irq s = (
     case c_retrigger (chip_of irq s) of
       None \<Rightarrow> (False, s)
     | Some f \<Rightarrow> (fst (f irq (hw s)), s\<lparr>hw := snd (f irq (hw s))\<rparr>))"

definition check_irq_resend :: "nat \<Rightarrow> 'h irq_sys \<Rightarrow> 'h irq_sys option" where
  "check_irq_resend irq s = (
     let status0 = st irq s in do {
       s \<leftarrow> call_enable (c_enable (chip_of irq s)) irq s;
       if status0 AND (IRQ_LEVEL OR IRQ_PENDING OR IRQ_REPLAY) = IRQ_PENDING then
         (let s = status_upd irq (\<lambda>_. (status0 AND NOT IRQ_PENDING) OR IRQ_REPLAY) s;
              (ok, s) = call_retrigger irq s
          in Some (if ok then s else s\<lparr>irqs_resend := insert irq (irqs_resend s)\<rparr>))
       else Some s
     })"

definition enable_irq :: "nat \<Rightarrow> 'h irq_sys \<Rightarrow> 'h irq_sys option" where
  "enable_irq irq s = (
     if irq \<ge> NR_IRQS then Some s
     else if depth (irq_desc s irq) = 0 then Some s
     else do {
       s \<leftarrow> (if depth (irq_desc s irq) = 1 then
              check_irq_resend irq
                (status_upd irq (\<lambda>x. (x AND NOT IRQ_DISABLED) OR IRQ_NOPROBE) s)
            else Some s);
       Some (desc_upd irq (depth_update (\<lambda>d. d - 1)) s)
     })"

definition can_request_irq :: "nat \<Rightarrow> u32 \<Rightarrow> 'h irq_sys \<Rightarrow> bool" where
  "can_request_irq irq irqflags s = (
     if irq \<ge> NR_IRQS \<or> has (st irq s) IRQ_NOREQUEST then False
     else case action (irq_desc s irq) of
            [] \<Rightarrow> True
          | a # _ \<Rightarrow> irqflags AND ia_flags a AND IRQF_SHARED \<noteq> 0)"

definition compat_irq_chip_set_default_handler :: "irq_desc \<Rightarrow> irq_desc" where
  "compat_irq_chip_set_default_handler d =
     (if handle_irq d = Some Handle_bad_irq then d\<lparr>handle_irq := None\<rparr> else d)"

text \<open>
  The part of \<^verbatim>\<open>setup_irq\<close> that runs for the first action of a line: default callbacks, the
  trigger type, and the start-up of the line.
\<close>

definition setup_first :: "nat \<Rightarrow> u32 \<Rightarrow> 'h irq_sys \<Rightarrow> 'h irq_sys option" where
  "setup_first irq flags s = (
     let s = set_defaults_at (chip (irq_desc s irq)) s;
         s = (if has flags IRQF_TRIGGER_MASK then
                (case c_set_type (chip_of irq s) of
                   Some f \<Rightarrow> s\<lparr>hw := f irq (flags AND IRQF_TRIGGER_MASK) (hw s)\<rparr>
                 | None \<Rightarrow> s)
              else desc_upd irq compat_irq_chip_set_default_handler s);
         s = status_upd irq
               (\<lambda>x. x AND NOT (IRQ_AUTODETECT OR IRQ_WAITING OR IRQ_INPROGRESS)) s
     in if \<not> has (st irq s) IRQ_NOAUTOEN then
          (let s = desc_upd irq (\<lambda>d. d\<lparr>depth := 0, status := status d AND NOT IRQ_DISABLED\<rparr>) s
           in if c_startup (chip_of irq s) \<noteq> None
              then call_startup (c_startup (chip_of irq s)) irq s
              else call_enable (c_enable (chip_of irq s)) irq s)
        else Some (desc_upd irq (depth_update (\<lambda>_. 1)) s))"

text \<open>
  The entropy pool (\<^verbatim>\<open>rand_initialize_irq\<close>) and the \<^verbatim>\<open>/proc\<close> entries are outside the state.
\<close>

definition setup_irq ::
  "nat \<Rightarrow> irqaction \<Rightarrow> 'h irq_sys \<Rightarrow> ((errno + unit) \<times> 'h irq_sys) option" where
  "setup_irq irq new s = (
     if irq \<ge> NR_IRQS then Some (Inl EINVAL, s)
     else if chip (irq_desc s irq) = No_irq_chip then Some (Inl ENOSYS, s)
     else let acts = action (irq_desc s irq) in
       if acts \<noteq> [] \<and>
          (\<not> has (ia_flags (hd acts) AND ia_flags new) IRQF_SHARED \<or>
           has (ia_flags (hd acts) XOR ia_flags new) IRQF_TRIGGER_MASK)
       then Some (Inl EBUSY, s)
       else let s = desc_upd irq (action_update (\<lambda>as. as @ [new])) s;
                s = (if has (ia_flags new) IRQF_NOBALANCING
                     then status_upd irq (\<lambda>x. x OR IRQ_NO_BALANCING) s else s)
       in do {
         s \<leftarrow> (if acts = [] then setup_first irq (ia_flags new) s else Some s);
         Some (Inr (), desc_upd irq (\<lambda>d. d\<lparr>irq_count := 0, irqs_unhandled := 0\<rparr>) s)
       })"

text \<open>The walk of \<^verbatim>\<open>free_irq\<close> along the actions: the first one of the device is unlinked.\<close>

fun unlink_action :: "u32 \<Rightarrow> irqaction list \<Rightarrow> (irqaction \<times> irqaction list) option" where
  "unlink_action dev [] = None"
| "unlink_action dev (a # as) =
     (if ia_dev_id a \<noteq> dev then
        (case unlink_action dev as of None \<Rightarrow> None | Some (x, bs) \<Rightarrow> Some (x, a # bs))
      else Some (a, as))"

text \<open>What it does when no action is left.\<close>

definition shutdown_line :: "nat \<Rightarrow> 'h irq_sys \<Rightarrow> 'h irq_sys option" where
  "shutdown_line irq s = (
     let s = status_upd irq (\<lambda>x. x OR IRQ_DISABLED) s
     in if c_shutdown (chip_of irq s) \<noteq> None
        then call_disable (c_shutdown (chip_of irq s)) irq s
        else call_disable (c_disable (chip_of irq s)) irq s)"

definition free_irq ::
  "'h handlers \<Rightarrow> nat \<Rightarrow> u32 \<Rightarrow> 'h irq_sys \<Rightarrow> 'h irq_sys option" where
  "free_irq env irq dev_id s = (
     if irq \<ge> NR_IRQS then Some s
     else case unlink_action dev_id (action (irq_desc s irq)) of
       None \<Rightarrow> Some s
     | Some (a, rest) \<Rightarrow> do {
         s \<leftarrow> Some (desc_upd irq (action_update (\<lambda>_. rest)) s);
         s \<leftarrow> (if rest = [] then shutdown_line irq s else Some s);
         if has (ia_flags a) IRQF_SHARED
         then map_option snd (env (ia_handler a) irq dev_id s)
         else Some s
       })"

text \<open>\<open>mem\<close> says whether the allocation of the \<^verbatim>\<open>struct irqaction\<close> succeeds.\<close>

definition request_irq ::
  "'h handlers \<Rightarrow> bool \<Rightarrow> nat \<Rightarrow> nat option \<Rightarrow> u32 \<Rightarrow> string \<Rightarrow> u32 \<Rightarrow> 'h irq_sys \<Rightarrow>
     ((errno + unit) \<times> 'h irq_sys) option" where
  "request_irq env mem irq hdl irqflags devname dev_id s = (
     if has irqflags IRQF_SHARED \<and> dev_id = 0 then Some (Inl EINVAL, s)
     else if irq \<ge> NR_IRQS then Some (Inl EINVAL, s)
     else if has (st irq s) IRQ_NOREQUEST then Some (Inl EINVAL, s)
     else case hdl of
       None \<Rightarrow> Some (Inl EINVAL, s)
     | Some h \<Rightarrow>
         if \<not> mem then Some (Inl ENOMEM, s)
         else do {
           s \<leftarrow> (if has irqflags IRQF_SHARED then map_option snd (env h irq dev_id s) else Some s);
           setup_irq irq \<lparr>ia_handler = h, ia_flags = irqflags, ia_name = devname,
                          ia_dev_id = dev_id\<rparr> s
         })"

section \<open>handle.c and spurious.c\<close>

definition handle_bad_irq :: "nat \<Rightarrow> 'h irq_sys \<Rightarrow> 'h irq_sys option" where
  "handle_bad_irq irq s =
     (if irq < NR_IRQS then Some (ack_bad_irq (kstat_inc irq s)) else None)"

fun run_actions ::
  "'h handlers \<Rightarrow> nat \<Rightarrow> irqaction list \<Rightarrow> u32 \<Rightarrow> 'h irq_sys \<Rightarrow> (u32 \<times> 'h irq_sys) option" where
  "run_actions env irq [] retval s = Some (retval, s)"
| "run_actions env irq (a # as) retval s = do {
     (ret, s) \<leftarrow> env (ia_handler a) irq (ia_dev_id a) s;
     run_actions env irq as (retval OR ret) s
   }"

definition handle_IRQ_event ::
  "'h handlers \<Rightarrow> nat \<Rightarrow> irqaction list \<Rightarrow> 'h irq_sys \<Rightarrow> (u32 \<times> 'h irq_sys) option" where
  "handle_IRQ_event env irq as s = run_actions env irq as IRQ_NONE s"

text \<open>The \<^verbatim>\<open>irqfixup\<close> boot option is off, its default, so no misrouted interrupt is searched.\<close>

definition note_interrupt :: "nat \<Rightarrow> u32 \<Rightarrow> 'h irq_sys \<Rightarrow> 'h irq_sys option" where
  "note_interrupt irq action_ret s = (
     let s = (if action_ret \<noteq> IRQ_HANDLED then
                desc_upd irq (\<lambda>d. d\<lparr>irqs_unhandled :=
                    (if jiffies s - last_unhandled d > HZ div 10 then 1
                     else irqs_unhandled d + 1), last_unhandled := jiffies s\<rparr>) s
              else s);
         s = desc_upd irq (irq_count_update (\<lambda>c. c + 1)) s
     in if irq_count (irq_desc s irq) < 100000 then Some s
     else let s = desc_upd irq (irq_count_update (\<lambda>_. 0)) s
     in do {
       s \<leftarrow> (if irqs_unhandled (irq_desc s irq) > 99900 then
              (let s = desc_upd irq (\<lambda>d. d\<lparr>status := status d OR IRQ_DISABLED, depth := 1\<rparr>) s
               in call_disable (c_disable (chip_of irq s)) irq s)
            else Some s);
       Some (desc_upd irq (irqs_unhandled_update (\<lambda>_. 0)) s)
     })"

section \<open>Flow handlers\<close>

text \<open>
  What both flow handlers do once the line is found idle: count, leave if the line is
  disabled or has no action, else run the actions with the line marked in progress. The
  Boolean result says whether the actions ran.
\<close>

definition flow_body :: "'h handlers \<Rightarrow> nat \<Rightarrow> 'h irq_sys \<Rightarrow> (bool \<times> 'h irq_sys) option" where
  "flow_body env irq s = (
     let s = status_upd irq (\<lambda>x. x AND NOT (IRQ_REPLAY OR IRQ_WAITING)) s;
         s = kstat_inc irq s;
         acts = action (irq_desc s irq)
     in if acts = [] \<or> has (st irq s) IRQ_DISABLED then Some (False, s)
     else do {
       s \<leftarrow> Some (status_upd irq (\<lambda>x. x OR IRQ_INPROGRESS) s);
       (action_ret, s) \<leftarrow> handle_IRQ_event env irq acts s;
       s \<leftarrow> (if noirqdebug s then Some s else note_interrupt irq action_ret s);
       Some (True, status_upd irq (\<lambda>x. x AND NOT IRQ_INPROGRESS) s)
     })"

definition handle_simple_irq :: "'h handlers \<Rightarrow> nat \<Rightarrow> 'h irq_sys \<Rightarrow> 'h irq_sys option" where
  "handle_simple_irq env irq s = (
     if has (st irq s) IRQ_INPROGRESS then Some s
     else map_option snd (flow_body env irq s))"

definition handle_level_irq :: "'h handlers \<Rightarrow> nat \<Rightarrow> 'h irq_sys \<Rightarrow> 'h irq_sys option" where
  "handle_level_irq env irq s = do {
     s \<leftarrow> mask_ack_irq irq s;
     if has (st irq s) IRQ_INPROGRESS then Some s
     else do {
       (ran, s) \<leftarrow> flow_body env irq s;
       if ran \<and> \<not> has (st irq s) IRQ_DISABLED \<and> c_unmask (chip_of irq s) \<noteq> None
       then call_hw (c_unmask (chip_of irq s)) irq s
       else Some s
     }
   }"

text \<open>The call \<^verbatim>\<open>desc->handle_irq(irq, desc)\<close>; \<open>demux\<close> gives the platform's flow handlers.\<close>

definition desc_handle_irq ::
  "'h handlers \<Rightarrow> (nat \<Rightarrow> nat \<Rightarrow> 'h irq_sys \<Rightarrow> 'h irq_sys option) \<Rightarrow> nat \<Rightarrow> 'h irq_sys \<Rightarrow>
     'h irq_sys option" where
  "desc_handle_irq env demux irq s = (
     case handle_irq (irq_desc s irq) of
       None \<Rightarrow> None
     | Some Handle_bad_irq \<Rightarrow> handle_bad_irq irq s
     | Some Handle_simple_irq \<Rightarrow> handle_simple_irq env irq s
     | Some Handle_level_irq \<Rightarrow> handle_level_irq env irq s
     | Some (Demux k) \<Rightarrow> demux k irq s)"

section \<open>The ARM entry\<close>

text \<open>
  Beyond the table \<^verbatim>\<open>bad_irq_desc\<close> stands in for the descriptor, whose flow handler counts
  the interrupt in \<^verbatim>\<open>kstat\<close> at an index beyond the array: that is the branch \<open>None\<close>
  of \<^const>\<open>handle_bad_irq\<close>.
\<close>

definition asm_do_IRQ ::
  "'h handlers \<Rightarrow> (nat \<Rightarrow> nat \<Rightarrow> 'h irq_sys \<Rightarrow> 'h irq_sys option) \<Rightarrow> nat \<Rightarrow> 'h irq_sys \<Rightarrow>
     'h irq_sys option" where
  "asm_do_IRQ env demux irq s =
     (if irq \<ge> NR_IRQS then handle_bad_irq irq s else desc_handle_irq env demux irq s)"

definition set_irq_flags :: "nat \<Rightarrow> u32 \<Rightarrow> 'h irq_sys \<Rightarrow> 'h irq_sys" where
  "set_irq_flags irq iflags s = (
     if irq \<ge> NR_IRQS then s
     else let s = status_upd irq (\<lambda>x. x OR (IRQ_NOREQUEST OR IRQ_NOPROBE OR IRQ_NOAUTOEN)) s;
              s = (if has iflags IRQF_VALID
                   then status_upd irq (\<lambda>x. x AND NOT IRQ_NOREQUEST) s else s);
              s = (if has iflags IRQF_PROBE
                   then status_upd irq (\<lambda>x. x AND NOT IRQ_NOPROBE) s else s)
     in if \<not> has iflags IRQF_NOAUTOEN
        then status_upd irq (\<lambda>x. x AND NOT IRQ_NOAUTOEN) s else s)"

text \<open>\<^verbatim>\<open>init_IRQ\<close>, with the platform's \<^verbatim>\<open>init_arch_irq\<close> as an argument.\<close>

definition init_IRQ ::
  "('h irq_sys \<Rightarrow> 'h irq_sys option) \<Rightarrow> 'h irq_sys \<Rightarrow> 'h irq_sys option" where
  "init_IRQ init_arch_irq s =
     init_arch_irq (fold (\<lambda>irq. status_upd irq (\<lambda>x. x OR (IRQ_NOREQUEST OR IRQ_NOPROBE)))
                      [0..<NR_IRQS] s)"

section \<open>Flags and frames\<close>

lemma bit_exp_word: "bit (2 ^ k :: 'a::len word) n \<longleftrightarrow> n = k \<and> n < LENGTH('a)"
  by (auto simp: bit_exp_iff)

lemma flag_exps:
  "IRQ_INPROGRESS = 2 ^ 8" "IRQ_DISABLED = 2 ^ 9" "IRQ_PENDING = 2 ^ 10" "IRQ_REPLAY = 2 ^ 11"
  "IRQ_AUTODETECT = 2 ^ 12" "IRQ_WAITING = 2 ^ 13" "IRQ_LEVEL = 2 ^ 14" "IRQ_MASKED = 2 ^ 15"
  "IRQ_NOPROBE = 2 ^ 17" "IRQ_NOREQUEST = 2 ^ 18" "IRQ_NOAUTOEN = 2 ^ 19"
  "IRQ_NO_BALANCING = 2 ^ 22" "IRQF_VALID = 2 ^ 0" "IRQF_PROBE = 2 ^ 1" "IRQF_NOAUTOEN = 2 ^ 2"
  "IRQF_SHARED = 2 ^ 7"
  by (simp_all add: IRQ_INPROGRESS_def IRQ_DISABLED_def IRQ_PENDING_def IRQ_REPLAY_def
      IRQ_AUTODETECT_def IRQ_WAITING_def IRQ_LEVEL_def IRQ_MASKED_def IRQ_NOPROBE_def
      IRQ_NOREQUEST_def IRQ_NOAUTOEN_def IRQ_NO_BALANCING_def IRQF_VALID_def IRQF_PROBE_def
      IRQF_NOAUTOEN_def IRQF_SHARED_def)

lemma has_exp: "k < 32 \<Longrightarrow> has s (2 ^ k) \<longleftrightarrow> bit s k"
  unfolding has_def by (auto simp: word_eq_bits bit_and_iff bit_exp_word)

lemma has_bits [simp]:
  "has s IRQ_INPROGRESS \<longleftrightarrow> bit s 8" "has s IRQ_DISABLED \<longleftrightarrow> bit s 9"
  "has s IRQ_PENDING \<longleftrightarrow> bit s 10"
  "has s IRQ_NOREQUEST \<longleftrightarrow> bit s 18" "has s IRQ_NOAUTOEN \<longleftrightarrow> bit s 19"
  "has s IRQF_VALID \<longleftrightarrow> bit s 0" "has s IRQF_PROBE \<longleftrightarrow> bit s 1"
  "has s IRQF_NOAUTOEN \<longleftrightarrow> bit s 2" "has s IRQF_SHARED \<longleftrightarrow> bit s 7"
  unfolding flag_exps by (rule has_exp, simp)+

lemma flag_bits [simp]:
  "bit IRQ_INPROGRESS n \<longleftrightarrow> n = 8" "bit IRQ_DISABLED n \<longleftrightarrow> n = 9"
  "bit IRQ_PENDING n \<longleftrightarrow> n = 10" "bit IRQ_REPLAY n \<longleftrightarrow> n = 11"
  "bit IRQ_AUTODETECT n \<longleftrightarrow> n = 12" "bit IRQ_WAITING n \<longleftrightarrow> n = 13"
  "bit IRQ_LEVEL n \<longleftrightarrow> n = 14" "bit IRQ_MASKED n \<longleftrightarrow> n = 15"
  "bit IRQ_NOPROBE n \<longleftrightarrow> n = 17" "bit IRQ_NOREQUEST n \<longleftrightarrow> n = 18"
  "bit IRQ_NOAUTOEN n \<longleftrightarrow> n = 19" "bit IRQ_NO_BALANCING n \<longleftrightarrow> n = 22"
  by (auto simp only: flag_exps bit_exp_word) simp_all

lemma desc_upd_same [simp]: "irq_desc (desc_upd irq f s) irq = f (irq_desc s irq)"
  by (simp add: desc_upd_def)

lemma desc_upd_other [simp]: "i \<noteq> irq \<Longrightarrow> irq_desc (desc_upd irq f s) i = irq_desc s i"
  by (simp add: desc_upd_def)

lemma desc_upd_frame [simp]:
  "chips (desc_upd irq f s) = chips s" "hw (desc_upd irq f s) = hw s"
  "jiffies (desc_upd irq f s) = jiffies s" "noirqdebug (desc_upd irq f s) = noirqdebug s"
  "kstat_irqs (desc_upd irq f s) = kstat_irqs s" "irqs_resend (desc_upd irq f s) = irqs_resend s"
  "irq_err_count (desc_upd irq f s) = irq_err_count s"
  by (simp_all add: desc_upd_def)

lemma ack_bad_frame [simp]:
  "irq_desc (ack_bad_irq s) = irq_desc s" "chips (ack_bad_irq s) = chips s"
  "hw (ack_bad_irq s) = hw s"
  by (simp_all add: ack_bad_irq_def)

lemma kstat_inc_frame [simp]:
  "irq_desc (kstat_inc irq s) = irq_desc s" "chips (kstat_inc irq s) = chips s"
  "hw (kstat_inc irq s) = hw s" "jiffies (kstat_inc irq s) = jiffies s"
  "noirqdebug (kstat_inc irq s) = noirqdebug s" "irqs_resend (kstat_inc irq s) = irqs_resend s"
  by (simp_all add: kstat_inc_def)

lemma set_defaults_frame [simp]:
  "irq_desc (set_defaults_at p s) = irq_desc s" "hw (set_defaults_at p s) = hw s"
  by (simp_all add: set_defaults_at_def)

lemma call_hw_desc: "call_hw f irq s = Some s' \<Longrightarrow> irq_desc s' = irq_desc s"
  by (induction f irq s rule: call_hw.induct) auto

lemma call_hw_chips: "call_hw f irq s = Some s' \<Longrightarrow> chips s' = chips s"
  by (induction f irq s rule: call_hw.induct) auto

section \<open>The nesting invariant\<close>

text \<open>
  A line whose disable depth is positive carries the disabled flag. The flag
  \<^verbatim>\<open>IRQ_NOAUTOEN\<close>, which makes \<^verbatim>\<open>setup_irq\<close> set a depth without it, is never set on
  this platform, and the invariant records that as well.
\<close>

definition desc_ok :: "irq_desc \<Rightarrow> bool" where
  "desc_ok d \<longleftrightarrow> (depth d \<noteq> 0 \<longrightarrow> has (status d) IRQ_DISABLED) \<and> \<not> has (status d) IRQ_NOAUTOEN"

definition sys_ok :: "'h irq_sys \<Rightarrow> bool" where
  "sys_ok s \<longleftrightarrow> (\<forall>irq. desc_ok (irq_desc s irq))"

definition keeps_ok :: "'h handlers \<Rightarrow> bool" where
  "keeps_ok env \<longleftrightarrow> (\<forall>h irq dev s r s'. env h irq dev s = Some (r, s') \<and> sys_ok s \<longrightarrow> sys_ok s')"

lemma sys_ok_upd:
  "sys_ok s \<Longrightarrow> desc_ok (f (irq_desc s irq)) \<Longrightarrow> sys_ok (desc_upd irq f s)"
  by (simp add: sys_ok_def desc_upd_def)

lemma sys_ok_same: "irq_desc s' = irq_desc s \<Longrightarrow> sys_ok s' = sys_ok s"
  by (simp add: sys_ok_def)

lemma sys_ok_frame [simp]:
  "sys_ok (ack_bad_irq s) = sys_ok s" "sys_ok (kstat_inc irq s) = sys_ok s"
  "sys_ok (set_defaults_at p s) = sys_ok s" "sys_ok (s\<lparr>hw := h\<rparr>) = sys_ok s"
  "sys_ok (s\<lparr>irqs_resend := R\<rparr>) = sys_ok s"
  by (simp_all add: sys_ok_def)

lemma sys_okD: "sys_ok s \<Longrightarrow> desc_ok (irq_desc s irq)"
  by (simp add: sys_ok_def)

lemmas desc_ok_simps = desc_ok_def bit_and_iff bit_or_iff bit_not_word

lemma call_hw_ok: "call_hw f irq s = Some s' \<Longrightarrow> sys_ok s' = sys_ok s"
  by (simp add: sys_ok_def call_hw_desc)

lemma call_enable_ok: "call_enable f irq s = Some s' \<Longrightarrow> sys_ok s \<Longrightarrow> sys_ok s'"
  by (induction f irq s rule: call_enable.induct)
     (auto simp: default_enable_def sys_ok_def desc_upd_def desc_ok_simps
        dest!: call_hw_desc split: bind_splits if_splits)

lemma call_disable_ok: "call_disable f irq s = Some s' \<Longrightarrow> sys_ok s' = sys_ok s"
  by (induction f irq s rule: call_disable.induct)
     (auto simp: default_disable_def sys_ok_def dest: call_hw_desc)

lemma call_startup_ok: "call_startup f irq s = Some s' \<Longrightarrow> sys_ok s \<Longrightarrow> sys_ok s'"
  by (induction f irq s rule: call_startup.induct)
     (auto simp: default_startup_def call_hw_ok intro: call_enable_ok)

lemma mask_ack_ok: "mask_ack_irq irq s = Some s' \<Longrightarrow> sys_ok s' = sys_ok s"
  by (auto simp: mask_ack_irq_def call_hw_ok split: if_splits bind_splits)

lemma upd_ok:
  "sys_ok s \<Longrightarrow> sys_ok (desc_upd irq (chip_update c) s)"
  "sys_ok s \<Longrightarrow> sys_ok (desc_upd irq (handle_irq_update g) s)"
  "sys_ok s \<Longrightarrow> sys_ok (desc_upd irq (action_update a) s)"
  "sys_ok s \<Longrightarrow> sys_ok (desc_upd irq (irq_count_update n) s)"
  "sys_ok s \<Longrightarrow> sys_ok (desc_upd irq (irqs_unhandled_update n) s)"
  "sys_ok s \<Longrightarrow> sys_ok (desc_upd irq (\<lambda>d. d\<lparr>irq_count := i, irqs_unhandled := u\<rparr>) s)"
  "sys_ok s \<Longrightarrow> sys_ok (desc_upd irq (\<lambda>d. d\<lparr>irqs_unhandled := u' d, last_unhandled := j\<rparr>) s)"
  "sys_ok s \<Longrightarrow> sys_ok (desc_upd irq compat_irq_chip_set_default_handler s)"
  "sys_ok s \<Longrightarrow> sys_ok (desc_upd irq (\<lambda>d. d\<lparr>status := status d OR IRQ_DISABLED, depth := n'\<rparr>) s)"
  "sys_ok s \<Longrightarrow> sys_ok (desc_upd irq (\<lambda>d. d\<lparr>depth := 0, status := status d AND NOT IRQ_DISABLED\<rparr>) s)"
  by (auto simp: sys_ok_def desc_upd_def desc_ok_simps compat_irq_chip_set_default_handler_def)

lemma status_ok:
  assumes "sys_ok s" "\<And>x. bit x 9 \<Longrightarrow> bit (f x) 9" "\<And>x. bit (f x) 19 \<Longrightarrow> bit x 19"
  shows "sys_ok (status_upd irq f s)"
  using assms by (auto simp: sys_ok_def desc_upd_def desc_ok_simps)

lemma set_irq_chip_ok: "sys_ok s \<Longrightarrow> sys_ok (snd (set_irq_chip irq c s))"
  by (auto simp: set_irq_chip_def Let_def upd_ok split: option.splits)

lemma set_irq_flags_ok:
  assumes "sys_ok s" "\<not> has iflags IRQF_NOAUTOEN"
  shows "sys_ok (set_irq_flags irq iflags s)"
  using assms by (simp add: set_irq_flags_def Let_def sys_ok_def desc_upd_def desc_ok_simps)

lemma set_irq_handler_ok:
  assumes "set_irq_handler_gen irq hdl ch s = Some s'" "sys_ok s"
  shows "sys_ok s'"
proof -
  have un: "sys_ok (desc_upd irq (\<lambda>d. d\<lparr>status := (status d AND NOT IRQ_DISABLED)
      OR (IRQ_NOREQUEST OR IRQ_NOPROBE), depth := 0\<rparr>) t)" if "sys_ok t" for t :: "'a irq_sys"
    using that by (simp add: sys_ok_def desc_upd_def desc_ok_simps)
  from assms show ?thesis
    by (auto simp: set_irq_handler_gen_def Let_def upd_ok un call_hw_ok mask_ack_ok
        split: if_splits bind_splits option.splits)
qed

lemma disable_irq_nosync_ok:
  assumes "disable_irq_nosync irq s = Some s'" "sys_ok s"
  shows "sys_ok s'"
proof -
  have a: "sys_ok (status_upd irq (\<lambda>x. x OR IRQ_DISABLED) (desc_upd irq (depth_update (\<lambda>d. d + 1)) s))"
    using assms(2) by (simp add: sys_ok_def desc_upd_def desc_ok_simps)
  have b: "depth (irq_desc s irq) \<noteq> 0 \<Longrightarrow> sys_ok (desc_upd irq (depth_update (\<lambda>d. d + 1)) s)"
    using assms(2) by (simp add: sys_ok_def desc_upd_def desc_ok_simps)
  show ?thesis using assms a b
    by (auto simp: disable_irq_nosync_def Let_def call_disable_ok split: if_splits)
qed

text \<open>While \<^verbatim>\<open>enable_irq\<close> runs on the last level the depth is still one and the flag is
  already clear, so the lemma is about the other lines and about this line's flags.\<close>

definition status_only :: "nat \<Rightarrow> 'h irq_sys \<Rightarrow> 'h irq_sys \<Rightarrow> bool" where
  "status_only irq s s' \<longleftrightarrow>
     (\<exists>x. irq_desc s' = (irq_desc s)(irq := (irq_desc s irq)\<lparr>status := x\<rparr>)
        \<and> bit x 9 = bit (st irq s) 9 \<and> bit x 19 = bit (st irq s) 19)"

lemma status_onlyI:
  "irq_desc s' = (irq_desc s)(irq := (irq_desc s irq)\<lparr>status := x\<rparr>) \<Longrightarrow>
     bit x 9 = bit (st irq s) 9 \<Longrightarrow> bit x 19 = bit (st irq s) 19 \<Longrightarrow> status_only irq s s'"
  by (auto simp: status_only_def)

lemma status_only_same: "irq_desc s' = irq_desc s \<Longrightarrow> status_only irq s s'"
  by (rule status_onlyI [where x = "st irq s"]) simp_all

lemma status_only_upd:
  "status_only irq s t \<Longrightarrow> bit x 9 = bit (st irq s) 9 \<Longrightarrow> bit x 19 = bit (st irq s) 19 \<Longrightarrow>
     irq_desc s' = irq_desc (status_upd irq (\<lambda>_. x) t) \<Longrightarrow> status_only irq s s'"
  by (rule status_onlyI [where x = x]) (auto simp: status_only_def desc_upd_def)

lemma status_upd_const:
  "status_update f d = d\<lparr>status := f (status d)\<rparr>"
  by (cases d) simp

lemma call_enable_desc: "call_enable f irq s = Some s' \<Longrightarrow> status_only irq s s'"
proof (induction f irq s rule: call_enable.induct)
  case (3 irq s)
  then obtain t where t: "call_hw (c_unmask (chip_of irq s)) irq s = Some t"
    and s': "s' = status_upd irq (\<lambda>x. x AND NOT IRQ_MASKED) t"
    by (auto simp: default_enable_def split: bind_splits)
  show ?case
    by (rule status_onlyI [where x = "st irq s AND NOT IRQ_MASKED"])
       (simp_all add: s' desc_upd_def call_hw_desc [OF t] desc_ok_simps
          status_upd_const [of "\<lambda>x. x AND NOT IRQ_MASKED"])
qed (auto intro!: status_only_same dest: call_hw_desc)

lemma call_retrigger_desc: "irq_desc (snd (call_retrigger irq s)) = irq_desc s"
  by (simp add: call_retrigger_def split: option.splits)

lemma check_irq_resend_desc:
  assumes "check_irq_resend irq s = Some s'"
  shows "status_only irq s s'"
proof -
  let ?x = "(st irq s AND NOT IRQ_PENDING) OR IRQ_REPLAY"
  obtain t where t: "call_enable (c_enable (chip_of irq s)) irq s = Some t"
    using assms by (cases "call_enable (c_enable (chip_of irq s)) irq s")
      (simp_all add: check_irq_resend_def Let_def)
  let ?u = "status_upd irq (\<lambda>_. ?x) t"
  let ?r = "snd (call_retrigger irq ?u)"
  have "s' = t \<or> s' = ?r \<or> s' = ?r\<lparr>irqs_resend := insert irq (irqs_resend ?r)\<rparr>"
    using assms t by (simp add: check_irq_resend_def Let_def case_prod_beta split: if_splits)
  then have r: "s' = t \<or> irq_desc s' = irq_desc ?u"
    using call_retrigger_desc [of irq ?u] by (elim disjE) simp_all
  from r show ?thesis
    using call_enable_desc [OF t] status_only_upd [OF call_enable_desc [OF t], where x = ?x]
    by (elim disjE) (simp_all add: desc_ok_simps)
qed

lemma enable_irq_ok:
  assumes "enable_irq irq s = Some s'" "sys_ok s"
  shows "sys_ok s'"
proof -
  consider "irq \<ge> NR_IRQS \<or> depth (irq_desc s irq) = 0"
    | "irq < NR_IRQS" "depth (irq_desc s irq) = 1"
    | "irq < NR_IRQS" "depth (irq_desc s irq) \<noteq> 0" "depth (irq_desc s irq) \<noteq> 1"
    by fastforce
  then show ?thesis
  proof cases
    case 1
    then have "s' = s" using assms(1) by (simp add: enable_irq_def split: if_splits)
    with assms show ?thesis by simp
  next
    case 2
    let ?t = "status_upd irq (\<lambda>x. (x AND NOT IRQ_DISABLED) OR IRQ_NOPROBE) s"
    obtain u where u: "check_irq_resend irq ?t = Some u"
      using 2 assms(1) by (cases "check_irq_resend irq ?t") (simp_all add: enable_irq_def)
    have s': "s' = desc_upd irq (depth_update (\<lambda>d. d - 1)) u"
      using 2 assms(1) u by (simp add: enable_irq_def)
    from check_irq_resend_desc [OF u] obtain x where
      "irq_desc u = (irq_desc ?t)(irq := (irq_desc ?t irq)\<lparr>status := x\<rparr>)"
      "bit x 19 = bit (st irq ?t) 19" by (auto simp: status_only_def)
    with 2 assms(2) show ?thesis
      by (simp add: s' sys_ok_def desc_upd_def desc_ok_simps)
  next
    case 3
    then have "s' = desc_upd irq (depth_update (\<lambda>d. d - 1)) s"
      using assms(1) by (simp add: enable_irq_def)
    with 3 assms(2) show ?thesis by (simp add: sys_ok_def desc_upd_def desc_ok_simps)
  qed
qed

lemma setup_first_ok:
  assumes "setup_first irq flags s = Some s'" "sys_ok s"
  shows "sys_ok s'"
proof -
  define s1 where "s1 = set_defaults_at (chip (irq_desc s irq)) s"
  define s2 where "s2 = (if has flags IRQF_TRIGGER_MASK then
                (case c_set_type (chip_of irq s1) of
                   Some f \<Rightarrow> s1\<lparr>hw := f irq (flags AND IRQF_TRIGGER_MASK) (hw s1)\<rparr>
                 | None \<Rightarrow> s1)
              else desc_upd irq compat_irq_chip_set_default_handler s1)"
  define s3 where "s3 = status_upd irq
       (\<lambda>x. x AND NOT (IRQ_AUTODETECT OR IRQ_WAITING OR IRQ_INPROGRESS)) s2"
  have "sys_ok s2"
    using assms(2) by (simp add: s1_def s2_def upd_ok split: option.splits)
  then have ok3: "sys_ok s3"
    unfolding s3_def by (rule status_ok) (simp_all add: desc_ok_simps)
  then have auto: "\<not> bit (st irq s3) 19" by (simp add: sys_ok_def desc_ok_def)
  show ?thesis
    using assms(1) auto upd_ok(10) [OF ok3, of irq]
    unfolding setup_first_def Let_def s1_def [symmetric] s2_def [symmetric] s3_def [symmetric]
    by (auto intro: call_startup_ok call_enable_ok split: if_splits)
qed

lemma setup_irq_ok:
  assumes "setup_irq irq new s = Some (r, s')" "sys_ok s"
  shows "sys_ok s'"
proof -
  define s1 where "s1 = desc_upd irq (action_update (\<lambda>as. as @ [new])) s"
  define s2 where "s2 = (if has (ia_flags new) IRQF_NOBALANCING
                     then status_upd irq (\<lambda>x. x OR IRQ_NO_BALANCING) s1 else s1)"
  have "sys_ok s1" using assms(2) by (simp add: s1_def upd_ok)
  then have ok2: "sys_ok s2" by (auto simp: s2_def desc_ok_simps intro!: status_ok)
  show ?thesis
    using assms ok2 unfolding setup_irq_def Let_def s1_def [symmetric] s2_def [symmetric]
    by (auto intro: upd_ok setup_first_ok split: if_splits bind_splits)
qed

lemma env_ok: "keeps_ok env \<Longrightarrow> env h irq dev s = Some (r, s') \<Longrightarrow> sys_ok s \<Longrightarrow> sys_ok s'"
  unfolding keeps_ok_def by blast

lemma request_irq_ok:
  assumes "request_irq env mem irq hdl fl nm dev s = Some (r, s')" "sys_ok s" "keeps_ok env"
  shows "sys_ok s'"
proof (cases hdl)
  case None
  with assms show ?thesis by (simp add: request_irq_def split: if_splits)
next
  case (Some h)
  with assms show ?thesis
    by (auto simp: request_irq_def intro: setup_irq_ok env_ok split: if_splits bind_splits)
qed

lemma shutdown_line_ok: "shutdown_line irq s = Some s' \<Longrightarrow> sys_ok s \<Longrightarrow> sys_ok s'"
  using status_ok [of s "\<lambda>x. x OR IRQ_DISABLED" irq]
  by (auto simp: shutdown_line_def Let_def call_disable_ok desc_ok_simps split: if_splits)

lemma free_irq_ok:
  assumes "free_irq env irq dev s = Some s'" "sys_ok s" "keeps_ok env"
  shows "sys_ok s'"
proof (cases "irq \<ge> NR_IRQS \<or> unlink_action dev (action (irq_desc s irq)) = None")
  case True
  with assms show ?thesis by (auto simp: free_irq_def split: if_splits)
next
  case False
  then obtain a rest where u: "unlink_action dev (action (irq_desc s irq)) = Some (a, rest)"
    by auto
  have "sys_ok (desc_upd irq (action_update (\<lambda>_. as)) s)" for as
    using assms(2) by (simp add: upd_ok)
  with assms(1,3) False u show ?thesis
    unfolding free_irq_def
    by (auto simp del: has_bits intro: env_ok shutdown_line_ok split: if_splits bind_splits)
qed

lemma run_actions_ok:
  "run_actions env irq as ret s = Some (r, s') \<Longrightarrow> sys_ok s \<Longrightarrow> keeps_ok env \<Longrightarrow> sys_ok s'"
  by (induction as arbitrary: ret s) (auto intro: env_ok split: bind_splits)

lemma note_interrupt_ok:
  assumes "note_interrupt irq ret s = Some s'" "sys_ok s"
  shows "sys_ok s'"
  using assms unfolding note_interrupt_def Let_def
  by (auto simp: upd_ok call_disable_ok split: if_splits bind_splits)

lemma flow_body_ok:
  assumes "flow_body env irq s = Some (b, s')" "sys_ok s" "keeps_ok env"
  shows "sys_ok s'"
proof -
  define s1 where "s1 = kstat_inc irq (status_upd irq (\<lambda>x. x AND NOT (IRQ_REPLAY OR IRQ_WAITING)) s)"
  have ok1: "sys_ok s1" using assms(2) by (auto simp: s1_def desc_ok_simps intro!: status_ok)
  have ok2: "sys_ok (status_upd irq (\<lambda>x. x OR IRQ_INPROGRESS) s1)"
    using ok1 by (rule status_ok) (simp_all add: desc_ok_simps)
  have ok3: "sys_ok t \<Longrightarrow> sys_ok (status_upd irq (\<lambda>x. x AND NOT IRQ_INPROGRESS) t)" for t :: "'a irq_sys"
    by (erule status_ok) (simp_all add: desc_ok_simps)
  show ?thesis
  proof (cases "action (irq_desc s1 irq) = [] \<or> has (st irq s1) IRQ_DISABLED")
    case True
    with assms(1) ok1 show ?thesis unfolding flow_body_def Let_def s1_def [symmetric] by simp
  next
    case False
    with assms(1) obtain ret t u where
      t: "run_actions env irq (action (irq_desc s1 irq)) IRQ_NONE
            (status_upd irq (\<lambda>x. x OR IRQ_INPROGRESS) s1) = Some (ret, t)"
      and u: "(if noirqdebug t then Some t else note_interrupt irq ret t) = Some u"
      and s': "s' = status_upd irq (\<lambda>x. x AND NOT IRQ_INPROGRESS) u"
      unfolding flow_body_def Let_def s1_def [symmetric] handle_IRQ_event_def
      by (auto split: bind_splits)
    have "sys_ok u"
      using u run_actions_ok [OF t ok2 assms(3)] note_interrupt_ok by (auto split: if_splits)
    then show ?thesis unfolding s' by (rule ok3)
  qed
qed

lemma handle_simple_irq_ok:
  "handle_simple_irq env irq s = Some s' \<Longrightarrow> sys_ok s \<Longrightarrow> keeps_ok env \<Longrightarrow> sys_ok s'"
  by (auto simp: handle_simple_irq_def intro: flow_body_ok split: if_splits)

lemma handle_level_irq_ok:
  assumes "handle_level_irq env irq s = Some s'" "sys_ok s" "keeps_ok env"
  shows "sys_ok s'"
proof -
  obtain x where x: "mask_ack_irq irq s = Some x"
    using assms(1) by (cases "mask_ack_irq irq s") (simp_all add: handle_level_irq_def)
  have okx: "sys_ok x" using mask_ack_ok [OF x] assms(2) by simp
  show ?thesis
  proof (cases "has (st irq x) IRQ_INPROGRESS")
    case True with assms(1) x okx show ?thesis by (simp add: handle_level_irq_def)
  next
    case False
    with assms(1) x obtain b y where y: "flow_body env irq x = Some (b, y)"
      by (cases "flow_body env irq x") (auto simp: handle_level_irq_def)
    from assms(1) x False y flow_body_ok [OF y okx assms(3)] show ?thesis
      by (simp add: handle_level_irq_def call_hw_ok split: if_splits)
  qed
qed

text \<open>A platform demultiplexer keeps the invariant.\<close>

definition demux_ok :: "(nat \<Rightarrow> nat \<Rightarrow> 'h irq_sys \<Rightarrow> 'h irq_sys option) \<Rightarrow> bool" where
  "demux_ok demux \<longleftrightarrow> (\<forall>k irq s s'. demux k irq s = Some s' \<and> sys_ok s \<longrightarrow> sys_ok s')"

lemma desc_handle_irq_ok:
  assumes "desc_handle_irq env demux irq s = Some s'" "sys_ok s" "keeps_ok env" "demux_ok demux"
  shows "sys_ok s'"
  using assms
  by (auto simp: desc_handle_irq_def handle_bad_irq_def demux_ok_def
      intro: handle_simple_irq_ok handle_level_irq_ok split: option.splits flow.splits if_splits)

lemma asm_do_IRQ_ok:
  assumes "asm_do_IRQ env demux irq s = Some s'" "sys_ok s" "keeps_ok env" "demux_ok demux"
  shows "sys_ok s'"
  using assms by (auto simp: asm_do_IRQ_def handle_bad_irq_def intro: desc_handle_irq_ok split: if_splits)

text \<open>
  Every way the state changes: the registration calls of the platform and of drivers, the
  nested disable and enable, and the interrupts.
\<close>

inductive irq_step ::
  "'h handlers \<Rightarrow> (nat \<Rightarrow> nat \<Rightarrow> 'h irq_sys \<Rightarrow> 'h irq_sys option) \<Rightarrow> 'h irq_sys \<Rightarrow> 'h irq_sys \<Rightarrow> bool"
  for env demux where
  step_chip: "irq_step env demux s (snd (set_irq_chip irq c s))"
| step_handler: "set_irq_handler_gen irq hdl ch s = Some s' \<Longrightarrow> irq_step env demux s s'"
| step_flags: "\<not> has iflags IRQF_NOAUTOEN \<Longrightarrow> irq_step env demux s (set_irq_flags irq iflags s)"
| step_disable: "disable_irq irq s = Some s' \<Longrightarrow> irq_step env demux s s'"
| step_enable: "enable_irq irq s = Some s' \<Longrightarrow> irq_step env demux s s'"
| step_setup: "setup_irq irq new s = Some (r, s') \<Longrightarrow> irq_step env demux s s'"
| step_request: "request_irq env mem irq h fl nm dev s = Some (r, s') \<Longrightarrow> irq_step env demux s s'"
| step_free: "free_irq env irq dev s = Some s' \<Longrightarrow> irq_step env demux s s'"
| step_irq: "asm_do_IRQ env demux irq s = Some s' \<Longrightarrow> irq_step env demux s s'"
| step_tick: "irq_step env demux s (s\<lparr>jiffies := jiffies s + 1\<rparr>)"

lemma irq_step_ok:
  assumes "irq_step env demux s s'" "keeps_ok env" "demux_ok demux" "sys_ok s"
  shows "sys_ok s'"
  using assms
proof (induction rule: irq_step.induct)
  case (step_disable irq s s')
  then show ?case by (auto simp: disable_irq_def intro: disable_irq_nosync_ok split: if_splits)
next
  case (step_tick s)
  then show ?case by (simp add: sys_ok_def)
qed (rule set_irq_chip_ok set_irq_handler_ok set_irq_flags_ok enable_irq_ok setup_irq_ok
       request_irq_ok free_irq_ok asm_do_IRQ_ok; assumption)+

lemma irq_steps_ok:
  assumes "(irq_step env demux)\<^sup>*\<^sup>* s s'" "keeps_ok env" "demux_ok demux" "sys_ok s"
  shows "sys_ok s'"
  using assms(1) by (induction rule: rtranclp_induct) (use assms irq_step_ok in blast)+

end
