(* ===== verification/Irq_Line.thy ===== *)
theory Irq_Line
  imports Irq_Core
begin

text \<open>
  What the generic interrupt layer does for one line: nested disables, sharing, registration
  and release, and the shutdown of a line nobody answers.
\<close>

section \<open>Nested disable and enable\<close>

fun repeat_op :: "('s \<Rightarrow> 's option) \<Rightarrow> nat \<Rightarrow> 's \<Rightarrow> 's option" where
  "repeat_op f 0 s = Some s"
| "repeat_op f (Suc n) s = do { s \<leftarrow> f s; repeat_op f n s }"

lemma repeat_op_Suc: "repeat_op f (Suc n) s = do { s \<leftarrow> repeat_op f n s; f s }"
proof (induction n arbitrary: s)
  case 0
  show ?case by (cases "f s") simp_all
next
  case (Suc n)
  have "repeat_op f (Suc (Suc n)) s = do { t \<leftarrow> f s; repeat_op f (Suc n) t }"
    by (rule repeat_op.simps(2))
  also have "\<dots> = do { t \<leftarrow> f s; u \<leftarrow> repeat_op f n t; f u }" by (simp only: Suc.IH)
  also have "\<dots> = do { u \<leftarrow> repeat_op f (Suc n) s; f u }"
    by (cases "f s") simp_all
  finally show ?case .
qed

lemma desc_upd_desc_upd: "desc_upd irq g (desc_upd irq f s) = desc_upd irq (\<lambda>d. g (f d)) s"
  by (simp add: desc_upd_def)

lemma desc_upd_cong: "f (irq_desc s irq) = g (irq_desc s irq) \<Longrightarrow> desc_upd irq f s = desc_upd irq g s"
  by (simp add: desc_upd_def)

lemma chip_of_desc_upd:
  "chip (f (irq_desc s irq)) = chip (irq_desc s irq) \<Longrightarrow> chip_of irq (desc_upd irq f s) = chip_of irq s"
  by (simp add: chip_of_def)

lemma of_nat_u32_eq_0: "n < 2 ^ 32 \<Longrightarrow> of_nat n = (0 :: u32) \<longleftrightarrow> n = 0"
  by (auto simp: word_of_nat_eq_0_iff dest: nat_dvd_not_less [rotated])

text \<open>The descriptor while \<open>n > 0\<close> disables are outstanding.\<close>

abbreviation disabled_at :: "nat \<Rightarrow> irq_desc \<Rightarrow> irq_desc" where
  "disabled_at n d \<equiv> d\<lparr>status := status d OR IRQ_DISABLED, depth := of_nat n\<rparr>"

lemma disable_irq_again:
  assumes "irq < NR_IRQS" "depth (irq_desc s irq) \<noteq> 0"
  shows "disable_irq irq s = Some (desc_upd irq (\<lambda>d. d\<lparr>depth := depth d + 1\<rparr>) s)"
proof -
  have "depth_update (\<lambda>d. d + 1) = (\<lambda>d :: irq_desc. d\<lparr>depth := depth d + 1\<rparr>)" by (rule ext) simp
  with assms show ?thesis by (simp add: disable_irq_def disable_irq_nosync_def)
qed

lemma enable_irq_again:
  assumes "irq < NR_IRQS" "depth (irq_desc s irq) \<noteq> 0" "depth (irq_desc s irq) \<noteq> 1"
  shows "enable_irq irq s = Some (desc_upd irq (\<lambda>d. d\<lparr>depth := depth d - 1\<rparr>) s)"
proof -
  have "depth_update (\<lambda>d. d - 1) = (\<lambda>d :: irq_desc. d\<lparr>depth := depth d - 1\<rparr>)" by (rule ext) simp
  with assms show ?thesis by (simp add: enable_irq_def)
qed

lemma disable_irq_n:
  assumes "irq < NR_IRQS" "depth (irq_desc s irq) = 0" "Suc n < 2 ^ 32"
    and "c_disable (chip_of irq s) = Some Default_disable"
  shows "repeat_op (disable_irq irq) (Suc n) s = Some (desc_upd irq (disabled_at (Suc n)) s)"
  using assms(3)
proof (induction n)
  case 0
  have eq: "status_update (\<lambda>x. x OR IRQ_DISABLED) (depth_update (\<lambda>d. d + 1) (irq_desc s irq))
      = disabled_at 1 (irq_desc s irq)"
    using assms(2) by (cases "irq_desc s irq") simp
  from assms show ?case
    by (simp add: disable_irq_def disable_irq_nosync_def desc_upd_desc_upd chip_of_desc_upd
        default_disable_def)
       (rule desc_upd_cong, use eq in simp)
next
  case (Suc n)
  let ?s = "desc_upd irq (disabled_at (Suc n)) s"
  have "repeat_op (disable_irq irq) (Suc (Suc n)) s = disable_irq irq ?s"
    using Suc by (simp only: repeat_op_Suc [of _ "Suc n"]) simp
  also have "\<dots> = Some (desc_upd irq (disabled_at (Suc (Suc n))) s)"
    using disable_irq_again [of irq ?s] of_nat_u32_eq_0 [of "Suc n"] assms(1) Suc.prems
    by (simp add: desc_upd_desc_upd ac_simps)
  finally show ?case .
qed

lemma enable_irq_n:
  assumes "irq < NR_IRQS" "m < n" "n < 2 ^ 32"
  shows "repeat_op (enable_irq irq) m (desc_upd irq (disabled_at n) s)
    = Some (desc_upd irq (disabled_at (n - m)) s)"
  using assms(2)
proof (induction m)
  case (Suc m)
  let ?s = "desc_upd irq (disabled_at (n - m)) s"
  have "unat (of_nat (n - m) :: u32) = n - m"
    using assms(3) by (intro unat_of_nat_lt) simp
  then have d: "of_nat (n - m) \<noteq> (0 :: u32)" "of_nat (n - m) \<noteq> (1 :: u32)"
    using Suc.prems by (auto simp del: of_nat_diff)
  have "repeat_op (enable_irq irq) (Suc m) (desc_upd irq (disabled_at n) s) = enable_irq irq ?s"
    using Suc by (simp only: repeat_op_Suc) simp
  also have "\<dots> = Some (desc_upd irq (disabled_at (n - Suc m)) s)"
    using enable_irq_again [of irq ?s] d assms(1) Suc.prems
    by (simp add: desc_upd_desc_upd of_nat_diff diff_diff_eq add.commute)
  finally show ?case .
qed simp

lemma not_resent:
  assumes "\<not> bit x 10"
  shows "x AND (IRQ_LEVEL OR IRQ_PENDING OR IRQ_REPLAY) \<noteq> IRQ_PENDING"
proof
  assume "x AND (IRQ_LEVEL OR IRQ_PENDING OR IRQ_REPLAY) = IRQ_PENDING"
  then have "bit (x AND (IRQ_LEVEL OR IRQ_PENDING OR IRQ_REPLAY)) 10" by simp
  with assms show False by (simp add: bit_and_iff)
qed

lemma enable_irq_last:
  assumes "irq < NR_IRQS" "depth (irq_desc s irq) = 1"
    and "c_enable (chip_of irq s) = Some Default_enable" "c_unmask (chip_of irq s) = Some (Hw u)"
    and "\<not> bit (st irq s) 10"
  shows "enable_irq irq s = Some ((desc_upd irq (\<lambda>d. d\<lparr>
      status := ((status d AND NOT IRQ_DISABLED) OR IRQ_NOPROBE) AND NOT IRQ_MASKED,
      depth := 0\<rparr>) s)\<lparr>hw := u irq (hw s)\<rparr>)"
proof -
  let ?t = "status_upd irq (\<lambda>x. (x AND NOT IRQ_DISABLED) OR IRQ_NOPROBE) s"
  have c: "chip_of irq ?t = chip_of irq s" by (rule chip_of_desc_upd) simp
  have p: "st irq ?t AND (IRQ_LEVEL OR IRQ_PENDING OR IRQ_REPLAY) \<noteq> IRQ_PENDING"
    using assms(5) by (intro not_resent) (simp add: desc_ok_simps)
  have "check_irq_resend irq ?t
      = Some (status_upd irq (\<lambda>x. x AND NOT IRQ_MASKED) (?t\<lparr>hw := u irq (hw s)\<rparr>))"
    using assms c p by (simp add: check_irq_resend_def default_enable_def)
  with assms(1,2) show ?thesis
    by (cases "irq_desc s irq") (simp add: enable_irq_def desc_upd_def)
qed

text \<open>
  C10. Disables nest: while fewer enables than disables have run the line stays
  disabled and the controller is not touched, and the enable that matches the first disable
  reopens the line with one unmask.
\<close>

theorem disable_enable_nest:
  assumes "irq < NR_IRQS" "depth (irq_desc s irq) = 0" "\<not> has (st irq s) IRQ_DISABLED"
    and "c_disable (chip_of irq s) = Some Default_disable"
    and "c_enable (chip_of irq s) = Some Default_enable" "c_unmask (chip_of irq s) = Some (Hw u)"
    and "\<not> has (st irq s) IRQ_PENDING" "0 < n" "n < 2 ^ 32"
  shows "(\<forall>m < n. \<exists>s'.
      do { s \<leftarrow> repeat_op (disable_irq irq) n s; repeat_op (enable_irq irq) m s } = Some s'
      \<and> has (st irq s') IRQ_DISABLED \<and> unat (depth (irq_desc s' irq)) = n - m \<and> hw s' = hw s)
    \<and> do { s \<leftarrow> repeat_op (disable_irq irq) n s; repeat_op (enable_irq irq) n s }
      = Some ((desc_upd irq (status_update (\<lambda>x. (x OR IRQ_NOPROBE) AND NOT IRQ_MASKED)) s)
                \<lparr>hw := u irq (hw s)\<rparr>)"
proof -
  obtain k where k: "n = Suc k" using assms(8) by (cases n) auto
  have dis: "repeat_op (disable_irq irq) n s = Some (desc_upd irq (disabled_at n) s)"
    using disable_irq_n [OF assms(1,2) _ assms(4), of k] assms(9) k by simp
  have en: "m < n \<Longrightarrow> repeat_op (enable_irq irq) m (desc_upd irq (disabled_at n) s)
      = Some (desc_upd irq (disabled_at (n - m)) s)" for m
    by (rule enable_irq_n [OF assms(1) _ assms(9)])
  have "unat (of_nat (n - m) :: u32) = n - m" for m
    using assms(9) by (intro unat_of_nat_lt) simp
  then have part: "\<exists>s'. do { s \<leftarrow> repeat_op (disable_irq irq) n s; repeat_op (enable_irq irq) m s } = Some s'
      \<and> has (st irq s') IRQ_DISABLED \<and> unat (depth (irq_desc s' irq)) = n - m \<and> hw s' = hw s"
    if "m < n" for m
    using dis en [OF that] by (simp add: desc_ok_simps)
  let ?s1 = "desc_upd irq (disabled_at 1) s"
  have "do { s \<leftarrow> repeat_op (disable_irq irq) n s; repeat_op (enable_irq irq) n s }
      = enable_irq irq ?s1"
    using dis en [of k] k by (simp only: repeat_op_Suc) simp
  also have "\<dots> = Some ((desc_upd irq (\<lambda>d. d\<lparr>
      status := (((status d OR IRQ_DISABLED) AND NOT IRQ_DISABLED) OR IRQ_NOPROBE) AND NOT IRQ_MASKED,
      depth := 0\<rparr>) s)\<lparr>hw := u irq (hw s)\<rparr>)"
    using enable_irq_last [of irq ?s1 u] assms
    by (simp add: chip_of_desc_upd desc_upd_desc_upd desc_ok_simps)
  finally have all: "do { s \<leftarrow> repeat_op (disable_irq irq) n s; repeat_op (enable_irq irq) n s } = \<dots>" .
  have "(st irq s OR IRQ_DISABLED) AND NOT IRQ_DISABLED = st irq s"
    using assms(3) by (auto simp: word_eq_bits desc_ok_simps)
  with part all assms(2) show ?thesis
    by (cases "irq_desc s irq") (simp add: desc_upd_def)
qed

section \<open>Unanswered interrupts\<close>

abbreviation unanswered :: "nat \<Rightarrow> u32 \<Rightarrow> irq_desc \<Rightarrow> irq_desc" where
  "unanswered n j d \<equiv> d\<lparr>irq_count := of_nat n, irqs_unhandled := of_nat n, last_unhandled := j\<rparr>"

lemma note_first:
  assumes "irq_count (irq_desc s irq) = 0" "irqs_unhandled (irq_desc s irq) = 0"
  shows "note_interrupt irq IRQ_NONE s = Some (desc_upd irq (unanswered 1 (jiffies s)) s)"
proof -
  have "IRQ_NONE \<noteq> IRQ_HANDLED" by (simp add: IRQ_NONE_def IRQ_HANDLED_def)
  with assms show ?thesis
    by (cases "irq_desc s irq") (simp add: note_interrupt_def desc_upd_def)
qed

lemma note_next:
  assumes "Suc n < 100000"
  shows "note_interrupt irq IRQ_NONE (desc_upd irq (unanswered n (jiffies s)) s)
    = Some (desc_upd irq (unanswered (Suc n) (jiffies s)) s)"
proof -
  have "IRQ_NONE \<noteq> IRQ_HANDLED" by (simp add: IRQ_NONE_def IRQ_HANDLED_def)
  moreover have "(of_nat n + 1 :: u32) < 100000"
  proof -
    have "unat (of_nat (Suc n) :: u32) = Suc n"
      by (rule unat_of_nat_lt) (use assms in simp)
    then have "of_nat (Suc n) < (100000 :: u32)"
      using assms by (simp add: word_less_nat_alt del: of_nat_Suc)
    then show ?thesis by (simp add: add.commute)
  qed
  moreover have "\<not> HZ div 10 < 0" by (simp add: HZ_def)
  ultimately show ?thesis
    by (cases "irq_desc s irq") (simp add: note_interrupt_def desc_upd_def add.commute)
qed

lemma note_n:
  assumes "irq_count (irq_desc s irq) = 0" "irqs_unhandled (irq_desc s irq) = 0" "Suc n < 100000"
  shows "repeat_op (note_interrupt irq IRQ_NONE) (Suc n) s
    = Some (desc_upd irq (unanswered (Suc n) (jiffies s)) s)"
  using assms(3)
proof (induction n)
  case 0
  show ?case using note_first [OF assms(1,2)] by simp
next
  case (Suc n)
  then have "repeat_op (note_interrupt irq IRQ_NONE) (Suc (Suc n)) s
      = note_interrupt irq IRQ_NONE (desc_upd irq (unanswered (Suc n) (jiffies s)) s)"
    by (simp only: repeat_op_Suc [of _ "Suc n"]) simp
  with note_next [of "Suc n" irq s] Suc.prems show ?case by simp
qed

lemma note_last:
  assumes "c_disable (chip_of irq s) = Some Default_disable"
  shows "note_interrupt irq IRQ_NONE (desc_upd irq (unanswered 99999 (jiffies s)) s)
    = Some (desc_upd irq (\<lambda>d. d\<lparr>status := status d OR IRQ_DISABLED, depth := 1, irq_count := 0,
        irqs_unhandled := 0, last_unhandled := jiffies s\<rparr>) s)"
proof -
  have "IRQ_NONE \<noteq> IRQ_HANDLED" by (simp add: IRQ_NONE_def IRQ_HANDLED_def)
  moreover have "\<not> HZ div 10 < 0" by (simp add: HZ_def)
  ultimately show ?thesis using assms
    by (cases "irq_desc s irq")
       (simp add: note_interrupt_def desc_upd_def chip_of_def default_disable_def)
qed


section \<open>Sharing, registration and release\<close>

definition shareable :: "irqaction \<Rightarrow> irqaction \<Rightarrow> bool" where
  "shareable old new \<longleftrightarrow> has (ia_flags old AND ia_flags new) IRQF_SHARED
     \<and> \<not> has (ia_flags old XOR ia_flags new) IRQF_TRIGGER_MASK"

lemma setup_irq_busy:
  assumes "irq < NR_IRQS" "chip (irq_desc s irq) \<noteq> No_irq_chip"
    and "action (irq_desc s irq) = old # rest" "\<not> shareable old new"
  shows "setup_irq irq new s = Some (Inl EBUSY, s)"
  using assms by (simp add: setup_irq_def shareable_def del: has_bits)

lemma setup_irq_join:
  assumes "irq < NR_IRQS" "chip (irq_desc s irq) \<noteq> No_irq_chip"
    and "action (irq_desc s irq) = old # rest" "shareable old new"
  shows "setup_irq irq new s = Some (Inr (), desc_upd irq (\<lambda>d. d\<lparr>
      action := action d @ [new],
      status := (if has (ia_flags new) IRQF_NOBALANCING then status d OR IRQ_NO_BALANCING
                 else status d),
      irq_count := 0, irqs_unhandled := 0\<rparr>) s)"
  using assms
  by (cases "irq_desc s irq")
     (simp add: setup_irq_def shareable_def desc_upd_def del: has_bits)

lemma unlink_new:
  "\<forall>a \<in> set as. ia_dev_id a \<noteq> dev \<Longrightarrow> ia_dev_id new = dev \<Longrightarrow>
     unlink_action dev (as @ [new]) = Some (new, as)"
  by (induction as) auto

lemma unlink_action_Some:
  "unlink_action dev as = Some (a, bs) \<Longrightarrow>
     \<exists>us vs. as = us @ a # vs \<and> bs = us @ vs \<and> ia_dev_id a = dev \<and> (\<forall>u \<in> set us. ia_dev_id u \<noteq> dev)"
proof (induction as arbitrary: bs)
  case (Cons x as)
  show ?case
  proof (cases "ia_dev_id x = dev")
    case True
    with Cons.prems have "x # as = [] @ a # as \<and> bs = [] @ as \<and> ia_dev_id a = dev" by auto
    then show ?thesis by (metis empty_iff empty_set)
  next
    case False
    with Cons.prems obtain cs where "unlink_action dev as = Some (a, cs)" "bs = x # cs"
      by (auto split: option.splits)
    with Cons.IH obtain us vs where "as = us @ a # vs" "bs = x # us @ vs" "ia_dev_id a = dev"
        "\<forall>u \<in> set us. ia_dev_id u \<noteq> dev" by blast
    with False have "x # as = (x # us) @ a # vs \<and> bs = (x # us) @ vs \<and> ia_dev_id a = dev
        \<and> (\<forall>u \<in> set (x # us). ia_dev_id u \<noteq> dev)" by auto
    then show ?thesis by blast
  qed
qed simp

lemma set_defaults_some:
  "c_shutdown (irq_chip_set_defaults c) \<noteq> None" "c_disable (irq_chip_set_defaults c) \<noteq> None"
  "c_enable (irq_chip_set_defaults c) \<noteq> None" "c_startup (irq_chip_set_defaults c) \<noteq> None"
  by (auto simp: irq_chip_set_defaults_def Let_def)

lemma call_hw_total: "f \<noteq> None \<Longrightarrow> \<exists>s'. call_hw f irq s = Some s' \<and> irq_desc s' = irq_desc s \<and> chips s' = chips s"
  by (induction f irq s rule: call_hw.induct) auto

lemma call_disable_total:
  "f \<noteq> None \<Longrightarrow> \<exists>s'. call_disable f irq s = Some s' \<and> irq_desc s' = irq_desc s \<and> chips s' = chips s"
  by (induction f irq s rule: call_disable.induct) (auto simp: default_disable_def call_hw_total)

lemma call_enable_frame:
  assumes "call_enable f irq s = Some s'"
  shows "chips s' = chips s \<and> irq_desc s' = (irq_desc s)(irq := (irq_desc s irq)\<lparr>status := st irq s'\<rparr>)"
proof -
  from call_enable_desc [OF assms] obtain x where
    "irq_desc s' = (irq_desc s)(irq := (irq_desc s irq)\<lparr>status := x\<rparr>)" by (auto simp: status_only_def)
  then have "irq_desc s' = (irq_desc s)(irq := (irq_desc s irq)\<lparr>status := st irq s'\<rparr>)" by simp
  moreover have "chips s' = chips s"
    using assms by (induction f irq s rule: call_enable.induct)
      (auto simp: default_enable_def dest!: call_hw_chips split: bind_splits)
  ultimately show ?thesis by simp
qed

lemma call_startup_frame:
  assumes "call_startup f irq s = Some s'"
  shows "chips s' = chips s \<and> irq_desc s' = (irq_desc s)(irq := (irq_desc s irq)\<lparr>status := st irq s'\<rparr>)"
  using assms
proof (induction f irq s rule: call_startup.induct)
  case (3 irq s)
  then show ?case by (intro call_enable_frame) (simp add: default_startup_def)
qed (auto dest: call_hw_desc call_hw_chips)

text \<open>What every step of a registration leaves alone: other lines, the actions, the chip.\<close>

definition line_frame :: "nat \<Rightarrow> 'h irq_sys \<Rightarrow> 'h irq_sys \<Rightarrow> bool" where
  "line_frame irq s s' \<longleftrightarrow> (\<forall>i. i \<noteq> irq \<longrightarrow> irq_desc s' i = irq_desc s i)
     \<and> action (irq_desc s' irq) = action (irq_desc s irq)
     \<and> chip (irq_desc s' irq) = chip (irq_desc s irq)"

lemma line_frame_trans: "line_frame irq s t \<Longrightarrow> line_frame irq t u \<Longrightarrow> line_frame irq s u"
  by (simp add: line_frame_def)

lemma line_frame_upd:
  "action (f (irq_desc s irq)) = action (irq_desc s irq) \<Longrightarrow>
     chip (f (irq_desc s irq)) = chip (irq_desc s irq) \<Longrightarrow> line_frame irq s (desc_upd irq f s)"
  by (simp add: line_frame_def)

lemma line_frame_status:
  "irq_desc s' = (irq_desc s)(irq := (irq_desc s irq)\<lparr>status := x\<rparr>) \<Longrightarrow> line_frame irq s s'"
  by (simp add: line_frame_def)

lemma line_frame_same: "irq_desc s' = irq_desc s \<Longrightarrow> line_frame irq s s'"
  by (simp add: line_frame_def)

lemma setup_first_frame:
  assumes "setup_first irq flags s = Some s'"
  shows "line_frame irq s s' \<and> c_shutdown (chip_of irq s') \<noteq> None"
proof -
  define s1 where "s1 = set_defaults_at (chip (irq_desc s irq)) s"
  define s2 where "s2 = (if has flags IRQF_TRIGGER_MASK then
                (case c_set_type (chip_of irq s1) of
                   Some f \<Rightarrow> s1\<lparr>hw := f irq (flags AND IRQF_TRIGGER_MASK) (hw s1)\<rparr>
                 | None \<Rightarrow> s1)
              else desc_upd irq compat_irq_chip_set_default_handler s1)"
  define s3 where "s3 = status_upd irq
       (\<lambda>x. x AND NOT (IRQ_AUTODETECT OR IRQ_WAITING OR IRQ_INPROGRESS)) s2"
  define s4 where "s4 = desc_upd irq (\<lambda>d. d\<lparr>depth := 0, status := status d AND NOT IRQ_DISABLED\<rparr>) s3"
  have c1: "chips s1 (chip (irq_desc s irq)) = irq_chip_set_defaults (chips s (chip (irq_desc s irq)))"
    by (simp add: s1_def set_defaults_at_def)
  have f2: "line_frame irq s s2 \<and> chips s2 = chips s1"
    by (auto simp: s2_def s1_def line_frame_def compat_irq_chip_set_default_handler_def
        split: option.splits)
  have f3: "line_frame irq s s3 \<and> chips s3 = chips s1"
    using f2 by (simp add: s3_def line_frame_def)
  have f4: "line_frame irq s s4 \<and> chips s4 = chips s1"
    using f3 by (simp add: s4_def line_frame_def)
  have sd: "line_frame irq s t \<Longrightarrow> chips t = chips s1 \<Longrightarrow> c_shutdown (chip_of irq t) \<noteq> None" for t
    using c1 set_defaults_some(1) by (simp add: chip_of_def line_frame_def)
  have "line_frame irq s s' \<and> chips s' = chips s1"
  proof (cases "has (st irq s3) IRQ_NOAUTOEN")
    case True
    then have "s' = desc_upd irq (depth_update (\<lambda>_. 1)) s3"
      using assms unfolding setup_first_def Let_def
        s1_def [symmetric] s2_def [symmetric] s3_def [symmetric] by simp
    with f3 show ?thesis by (simp add: line_frame_def)
  next
    case False
    with assms have "call_startup (c_startup (chip_of irq s4)) irq s4 = Some s'
        \<or> call_enable (c_enable (chip_of irq s4)) irq s4 = Some s'"
      unfolding setup_first_def Let_def s1_def [symmetric] s2_def [symmetric] s3_def [symmetric]
        s4_def [symmetric] by (auto split: if_splits)
    then have "chips s' = chips s4 \<and> line_frame irq s4 s'"
      by (auto dest: call_startup_frame call_enable_frame line_frame_status)
    with f4 show ?thesis using line_frame_trans by auto
  qed
  with sd show ?thesis by simp
qed


text \<open>A handler that only works on its device: it returns and leaves the descriptors alone.\<close>

definition device_only :: "'h handlers \<Rightarrow> nat \<Rightarrow> bool" where
  "device_only env h \<longleftrightarrow> (\<forall>irq dev s. \<exists>r s'. env h irq dev s = Some (r, s')
     \<and> irq_desc s' = irq_desc s \<and> chips s' = chips s)"

lemma shutdown_line_total:
  assumes "c_shutdown (chip_of irq s) \<noteq> None"
  shows "\<exists>s'. shutdown_line irq s = Some s'
    \<and> irq_desc s' = irq_desc (status_upd irq (\<lambda>x. x OR IRQ_DISABLED) s)"
proof -
  let ?t = "status_upd irq (\<lambda>x. x OR IRQ_DISABLED) s"
  have "chip_of irq ?t = chip_of irq s" by (rule chip_of_desc_upd) simp
  with call_disable_total [of "c_shutdown (chip_of irq s)" irq ?t] assms show ?thesis
    by (auto simp: shutdown_line_def)
qed

lemma free_irq_new:
  assumes "irq < NR_IRQS" "action (irq_desc s irq) = as @ [new]"
    and "\<forall>a \<in> set as. ia_dev_id a \<noteq> ia_dev_id new"
    and "device_only env (ia_handler new)" "as = [] \<Longrightarrow> c_shutdown (chip_of irq s) \<noteq> None"
  shows "\<exists>s'. free_irq env irq (ia_dev_id new) s = Some s' \<and> irq_desc s' = (irq_desc s)(irq :=
      (irq_desc s irq)\<lparr>action := as,
        status := (if as = [] then st irq s OR IRQ_DISABLED else st irq s)\<rparr>)"
proof -
  let ?t = "desc_upd irq (action_update (\<lambda>_. as)) s"
  have u: "unlink_action (ia_dev_id new) (action (irq_desc s irq)) = Some (new, as)"
    unfolding assms(2) by (rule unlink_new [OF assms(3) refl])
  obtain t' where t': "(if as = [] then shutdown_line irq ?t else Some ?t) = Some t'"
    and d: "irq_desc t' = (irq_desc s)(irq := (irq_desc s irq)\<lparr>action := as,
        status := (if as = [] then st irq s OR IRQ_DISABLED else st irq s)\<rparr>)"
  proof (cases "as = []")
    case True
    have "chip_of irq ?t = chip_of irq s" by (rule chip_of_desc_upd) simp
    with shutdown_line_total [of irq ?t] assms(5) True obtain s' where
      "shutdown_line irq ?t = Some s'"
      "irq_desc s' = irq_desc (status_upd irq (\<lambda>x. x OR IRQ_DISABLED) ?t)" by auto
    with True that [of s'] show ?thesis by (cases "irq_desc s irq") (simp add: desc_upd_def)
  next
    case False
    with that [of ?t] show ?thesis by (cases "irq_desc s irq") (simp add: desc_upd_def)
  qed
  obtain r v where v: "env (ia_handler new) irq (ia_dev_id new) t' = Some (r, v)"
      "irq_desc v = irq_desc t'"
    using assms(4) unfolding device_only_def by blast
  show ?thesis
  proof (cases "has (ia_flags new) IRQF_SHARED")
    case True
    then have "free_irq env irq (ia_dev_id new) s = Some v"
      using assms(1) u t' v by (simp add: free_irq_def)
    with v(2) d show ?thesis by auto
  next
    case False
    then have "free_irq env irq (ia_dev_id new) s = Some t'"
      using assms(1) u t' by (simp add: free_irq_def)
    with d show ?thesis by auto
  qed
qed

lemma setup_irq_registered:
  assumes "setup_irq irq new s = Some (Inr (), s1)"
  shows "irq < NR_IRQS \<and> action (irq_desc s1 irq) = action (irq_desc s irq) @ [new]
    \<and> chip (irq_desc s1 irq) = chip (irq_desc s irq) \<and> (\<forall>i. i \<noteq> irq \<longrightarrow> irq_desc s1 i = irq_desc s i)
    \<and> (action (irq_desc s irq) = [] \<longrightarrow> c_shutdown (chip_of irq s1) \<noteq> None)
    \<and> (action (irq_desc s irq) \<noteq> [] \<longrightarrow> depth (irq_desc s1 irq) = depth (irq_desc s irq))"
proof (cases "action (irq_desc s irq)")
  case Nil
  define t where "t = (if has (ia_flags new) IRQF_NOBALANCING
       then status_upd irq (\<lambda>x. x OR IRQ_NO_BALANCING)
              (desc_upd irq (action_update (\<lambda>as. as @ [new])) s)
       else desc_upd irq (action_update (\<lambda>as. as @ [new])) s)"
  have ne: "irq < NR_IRQS" "chip (irq_desc s irq) \<noteq> No_irq_chip"
    using assms by (auto simp: setup_irq_def split: if_splits)
  have t: "action (irq_desc t irq) = [new]" "chip (irq_desc t irq) = chip (irq_desc s irq)"
      "\<And>i. i \<noteq> irq \<Longrightarrow> irq_desc t i = irq_desc s i"
    using Nil by (simp_all add: t_def)
  have "do { s \<leftarrow> setup_first irq (ia_flags new) t;
      Some (Inr (), desc_upd irq (\<lambda>d. d\<lparr>irq_count := 0, irqs_unhandled := 0\<rparr>) s) }
      = Some ((Inr () :: errno + unit), s1)"
    using assms Nil ne unfolding setup_irq_def Let_def t_def [symmetric] by simp
  then obtain u where u: "setup_first irq (ia_flags new) t = Some u"
      and s1: "s1 = desc_upd irq (\<lambda>d. d\<lparr>irq_count := 0, irqs_unhandled := 0\<rparr>) u"
    by (cases "setup_first irq (ia_flags new) t") auto
  have "chip_of irq s1 = chip_of irq u" unfolding s1 by (rule chip_of_desc_upd) simp
  with setup_first_frame [OF u] t Nil ne show ?thesis by (simp add: s1 line_frame_def)
next
  case (Cons old rest)
  have ne: "irq < NR_IRQS" "chip (irq_desc s irq) \<noteq> No_irq_chip"
    using assms by (auto simp: setup_irq_def split: if_splits)
  have sh: "shareable old new"
    using setup_irq_busy [OF ne Cons, of new] assms by (cases "shareable old new") simp_all
  from setup_irq_join [OF ne Cons sh] assms ne Cons show ?thesis by auto
qed

text \<open>
  C11. Registering an action on a line and releasing it again gives back the actions of the line
  in their order, and leaves every other line alone; a line that had no action before is
  disabled after.
\<close>

theorem setup_free_roundtrip:
  assumes "setup_irq irq new s = Some (Inr (), s1)"
    and "\<forall>a \<in> set (action (irq_desc s irq)). ia_dev_id a \<noteq> ia_dev_id new"
    and "device_only env (ia_handler new)"
  shows "\<exists>s2. free_irq env irq (ia_dev_id new) s1 = Some s2
    \<and> action (irq_desc s2 irq) = action (irq_desc s irq)
    \<and> (\<forall>i. i \<noteq> irq \<longrightarrow> irq_desc s2 i = irq_desc s i)
    \<and> (if action (irq_desc s irq) = [] then has (st irq s2) IRQ_DISABLED
       else depth (irq_desc s2 irq) = depth (irq_desc s irq))"
proof -
  note reg = setup_irq_registered [OF assms(1)]
  from free_irq_new [of irq s1 "action (irq_desc s irq)" new env] reg assms(2,3) obtain s2 where
    "free_irq env irq (ia_dev_id new) s1 = Some s2"
    "irq_desc s2 = (irq_desc s1)(irq := (irq_desc s1 irq)\<lparr>action := action (irq_desc s irq),
        status := (if action (irq_desc s irq) = [] then st irq s1 OR IRQ_DISABLED else st irq s1)\<rparr>)"
    by blast
  with reg show ?thesis by (simp add: desc_ok_simps)
qed

text \<open>
  C12. A second action joins a line, behind those already there, exactly when the first one and it
  both allow sharing and agree on the trigger bits; if not, the request is refused with
  \<^verbatim>\<open>EBUSY\<close> and nothing changes. In neither case is the controller touched.
\<close>

theorem setup_irq_sharing:
  assumes "irq < NR_IRQS" "chip (irq_desc s irq) \<noteq> No_irq_chip"
    and "action (irq_desc s irq) = old # rest"
  shows "\<exists>r s'. setup_irq irq new s = Some (r, s') \<and> hw s' = hw s \<and>
    (if has (ia_flags old AND ia_flags new) IRQF_SHARED
        \<and> ia_flags old AND IRQF_TRIGGER_MASK = ia_flags new AND IRQF_TRIGGER_MASK
     then r = Inr () \<and> action (irq_desc s' irq) = old # rest @ [new]
        \<and> depth (irq_desc s' irq) = depth (irq_desc s irq)
        \<and> has (st irq s') IRQ_DISABLED = has (st irq s) IRQ_DISABLED
     else r = Inl EBUSY \<and> s' = s)"
proof -
  have xor: "(x XOR y) AND m = 0 \<longleftrightarrow> x AND m = y AND m" for x y m :: u32
    by (auto simp: word_eq_bits bit_and_iff bit_xor_iff)
  have "shareable old new \<longleftrightarrow> has (ia_flags old AND ia_flags new) IRQF_SHARED
        \<and> ia_flags old AND IRQF_TRIGGER_MASK = ia_flags new AND IRQF_TRIGGER_MASK"
    by (simp only: shareable_def has_def [of _ IRQF_TRIGGER_MASK] xor not_not)
  then show ?thesis
    using setup_irq_busy [OF assms, of new] setup_irq_join [OF assms, of new] assms(3)
    by (cases "shareable old new") (simp_all add: desc_ok_simps del: has_bits(8))
qed

section \<open>Instances on a controller that logs\<close>

text \<open>
  A chip whose callbacks log the operation and the line, and a table all of whose lines are
  wired to it: the state the theorems of this theory are evaluated on.
\<close>

definition log_chip :: "(nat \<times> nat) list irq_chip" where
  "log_chip = irq_chip_set_defaults \<lparr>c_name = Some ''log'', c_startup = None, c_shutdown = None,
     c_enable = None, c_disable = None, c_ack = Some (Hw (\<lambda>irq h. (0, irq) # h)),
     c_mask = Some (Hw (\<lambda>irq h. (1, irq) # h)), c_mask_ack = None,
     c_unmask = Some (Hw (\<lambda>irq h. (2, irq) # h)), c_end = None, c_retrigger = None,
     c_set_type = None, c_typename = None\<rparr>"

definition log_sys :: "irqaction list \<Rightarrow> u32 \<Rightarrow> u32 \<Rightarrow> (nat \<times> nat) list irq_sys" where
  "log_sys as x d = \<lparr>irq_desc = (\<lambda>_. \<lparr>handle_irq = Some Handle_level_irq, chip = Chip 0,
       action = as, status = x, depth = d, irq_count = 0, irqs_unhandled = 0,
       last_unhandled = 0\<rparr>), chips = (\<lambda>_. log_chip), hw = [], kstat_irqs = (\<lambda>_. 0),
     irq_err_count = 0, irqs_resend = {}, jiffies = 0, noirqdebug = False\<rparr>"

definition answering :: "'h handlers" where
  "answering h irq dev s = Some (IRQ_HANDLED, s)"

lemma log_chip_callbacks [simp]:
  "c_disable log_chip = Some Default_disable" "c_enable log_chip = Some Default_enable"
  "c_unmask log_chip = Some (Hw (\<lambda>irq h. (2, irq) # h))"
  by (simp_all add: log_chip_def irq_chip_set_defaults_def Let_def)

lemma log_sys_sel [simp]:
  "irq_desc (log_sys as x d) irq = \<lparr>handle_irq = Some Handle_level_irq, chip = Chip 0,
     action = as, status = x, depth = d, irq_count = 0, irqs_unhandled = 0, last_unhandled = 0\<rparr>"
  "chip_of irq (log_sys as x d) = log_chip" "hw (log_sys as x d) = []"
  by (simp_all add: log_sys_def chip_of_def)

theorem disable_enable_nest_witness:
  "(\<exists>s'. do { s \<leftarrow> repeat_op (disable_irq 7) 3 (log_sys [] 0 0); repeat_op (enable_irq 7) 2 s } = Some s'
      \<and> has (st 7 s') IRQ_DISABLED \<and> unat (depth (irq_desc s' 7)) = 1 \<and> hw s' = [])
   \<and> map_option hw (do { s \<leftarrow> repeat_op (disable_irq 7) 3 (log_sys [] 0 0); repeat_op (enable_irq 7) 3 s })
      = Some [(2, 7)]"
proof -
  have pre: "(7 :: nat) < NR_IRQS" by (simp add: NR_IRQS_def)
  note th = disable_enable_nest [OF pre, of "log_sys [] 0 0" "\<lambda>irq h. (2, irq) # h" 3, simplified]
  from th show ?thesis
    by (elim conjE allE [of _ 2]) (simp del: repeat_op.simps)
qed


definition act :: "u32 \<Rightarrow> u32 \<Rightarrow> irqaction" where
  "act fl dev = \<lparr>ia_handler = 0, ia_flags = fl, ia_name = ''x'', ia_dev_id = dev\<rparr>"

lemma act_sel [simp]: "ia_dev_id (act fl dev) = dev" "ia_flags (act fl dev) = fl" "ia_handler (act fl dev) = 0"
  by (simp_all add: act_def)

theorem setup_free_roundtrip_witness:
  "\<exists>s1 s2. setup_irq 7 (act 0x80 2) (log_sys [act 0x80 1] 0 0) = Some (Inr (), s1)
     \<and> action (irq_desc s1 7) = [act 0x80 1, act 0x80 2]
     \<and> free_irq answering 7 2 s1 = Some s2 \<and> action (irq_desc s2 7) = [act 0x80 1]"
proof -
  let ?s = "log_sys [act 0x80 1] 0 0"
  have d: "device_only answering 0" by (simp add: device_only_def answering_def)
  have pre: "(7 :: nat) < NR_IRQS" by (simp add: NR_IRQS_def)
  have sh: "shareable (act 0x80 1) (act 0x80 2)" by (simp add: shareable_def has_def IRQF_SHARED_def)
  obtain s1 where s1: "setup_irq 7 (act 0x80 2) ?s = Some (Inr (), s1)"
    using setup_irq_join [OF pre, of ?s "act 0x80 1" "[]" "act 0x80 2"] sh by simp
  have "action (irq_desc s1 7) = [act 0x80 1, act 0x80 2]"
    using setup_irq_registered [OF s1] by simp
  with s1 setup_free_roundtrip [OF s1, of answering] d show ?thesis by auto
qed

theorem setup_irq_sharing_witness:
  "(\<exists>s'. setup_irq 7 (act 0x80 2) (log_sys [act 0x80 1] 0 0) = Some (Inr (), s')
      \<and> action (irq_desc s' 7) = [act 0x80 1, act 0x80 2])
   \<and> setup_irq 7 (act 0 2) (log_sys [act 0x80 1] 0 0) = Some (Inl EBUSY, log_sys [act 0x80 1] 0 0)"
proof -
  have pre: "(7 :: nat) < NR_IRQS" by (simp add: NR_IRQS_def)
  show ?thesis
    using setup_irq_sharing [OF pre, of "log_sys [act 0x80 1] 0 0" "act 0x80 1" "[]" "act 0x80 2"]
      setup_irq_sharing [OF pre, of "log_sys [act 0x80 1] 0 0" "act 0x80 1" "[]" "act 0 2"]
    by (auto simp: has_def IRQF_SHARED_def IRQF_TRIGGER_MASK_def)
qed

end
