(* ===== verification/Mmsp2_Irq.thy ===== *)
theory Mmsp2_Irq
  imports Mmsp2_Io Irq_Line
begin

text \<open>
  The interrupt controller of the MP2520F (\<^verbatim>\<open>arch/arm/mach-mp2520f/irq.c\<close>,
  \<^verbatim>\<open>include/asm-arm/arch-mp25xxf/irqs.h\<close> and the decoding macro of
  \<^verbatim>\<open>entry-macro.S\<close>): 32 main lines, four timer lines behind main line 5 and sixteen UART
  lines behind main line 10. The debug prints of the file are compiled out.
\<close>

section \<open>Numbers and registers\<close>

definition IRQ_TIMER :: nat where "IRQ_TIMER = 5"
definition IRQ_UART :: nat where "IRQ_UART = 10"
definition MMSP2_IRQS :: nat where "MMSP2_IRQS = 32"
definition IRQ_TIMER_START :: nat where "IRQ_TIMER_START = MMSP2_IRQS"
definition IRQ_TIMER_END :: nat where "IRQ_TIMER_END = IRQ_TIMER_START + 4"
definition IRQ_TIMER_0 :: nat where "IRQ_TIMER_0 = 0 + IRQ_TIMER_START"
definition IRQ_UART_START :: nat where "IRQ_UART_START = IRQ_TIMER_END"
definition IRQ_UART_END :: nat where "IRQ_UART_END = IRQ_UART_START + 16"
definition IRQ_UART_TXD0 :: nat where "IRQ_UART_TXD0 = 0 + IRQ_UART_START"

definition SRCPEND :: u32 where "SRCPEND = 0xc0000800"
definition INTMOD :: u32 where "INTMOD = 0xc0000804"
definition INTMASK :: u32 where "INTMASK = 0xc0000808"
definition IPRIORITY :: u32 where "IPRIORITY = 0xc000080c"
definition INTPEND :: u32 where "INTPEND = 0xc0000810"
definition TSTATUS :: u32 where "TSTATUS = 0xc0000a16"
definition TINTEN :: u32 where "TINTEN = 0xc0000a18"
definition INTSTATREG :: u32 where "INTSTATREG = 0xc0001280"

definition UCONn :: "u16 \<Rightarrow> u32" where "UCONn n = 0xc0001202 + (0x20 * ucast n)"
definition MCONn :: "u16 \<Rightarrow> u32" where "MCONn n = 0xc0001206 + (0x20 * ucast n)"

definition UCON_TX_INT :: u16 where "UCON_TX_INT = 0x200"
definition UCON_RX_INT :: u16 where "UCON_RX_INT = 0x100"
definition UCON_RX_TIMEOUT :: u16 where "UCON_RX_TIMEOUT = 0x80"
definition MCON_MODEM_INT :: u16 where "MCON_MODEM_INT = 8"

section \<open>Main lines\<close>

definition mmsp2_main_ack_irq :: "'h mmio \<Rightarrow> nat \<Rightarrow> 'h \<Rightarrow> 'h" where
  "mmsp2_main_ack_irq io irq h =
     (let ofs = push_bit irq 1; h = REG_wr io SRCPEND ofs h in REG_wr io INTPEND ofs h)"

definition mmsp2_main_mask_irq :: "'h mmio \<Rightarrow> nat \<Rightarrow> 'h \<Rightarrow> 'h" where
  "mmsp2_main_mask_irq io irq h = REG_upd io INTMASK (\<lambda>v. v OR push_bit irq 1) h"

definition mmsp2_main_unmask_irq :: "'h mmio \<Rightarrow> nat \<Rightarrow> 'h \<Rightarrow> 'h" where
  "mmsp2_main_unmask_irq io irq h = REG_upd io INTMASK (\<lambda>v. v AND NOT (push_bit irq 1)) h"

text \<open>A chip with the three callbacks the platform gives and no other.\<close>

definition simple_chip ::
  "string \<Rightarrow> (nat \<Rightarrow> 'h \<Rightarrow> 'h) \<Rightarrow> (nat \<Rightarrow> 'h \<Rightarrow> 'h) \<Rightarrow> (nat \<Rightarrow> 'h \<Rightarrow> 'h) \<Rightarrow> 'h irq_chip" where
  "simple_chip n ack msk unmask = \<lparr>c_name = Some n, c_startup = None, c_shutdown = None,
     c_enable = None, c_disable = None, c_ack = Some (Hw ack), c_mask = Some (Hw msk),
     c_mask_ack = None, c_unmask = Some (Hw unmask), c_end = None, c_retrigger = None,
     c_set_type = None, c_typename = None\<rparr>"

definition mmsp2_main_chip :: "'h mmio \<Rightarrow> 'h irq_chip" where
  "mmsp2_main_chip io = simple_chip ''MAIN'' (mmsp2_main_ack_irq io) (mmsp2_main_mask_irq io)
     (mmsp2_main_unmask_irq io)"

section \<open>Timer lines\<close>

definition mmsp2_timer_ack_irq :: "'h mmio \<Rightarrow> nat \<Rightarrow> 'h \<Rightarrow> 'h" where
  "mmsp2_timer_ack_irq io irq h =
     REGW_upd io TSTATUS (\<lambda>v. v AND push_bit (irq - IRQ_TIMER_0) 1) h"

definition mmsp2_timer_mask_irq :: "'h mmio \<Rightarrow> nat \<Rightarrow> 'h \<Rightarrow> 'h" where
  "mmsp2_timer_mask_irq io irq h =
     REGW_upd io TINTEN (\<lambda>v. v AND NOT (push_bit (irq - IRQ_TIMER_0) 1)) h"

definition mmsp2_timer_unmask_irq :: "'h mmio \<Rightarrow> nat \<Rightarrow> 'h \<Rightarrow> 'h" where
  "mmsp2_timer_unmask_irq io irq h =
     REGW_upd io TINTEN (\<lambda>v. v OR push_bit (irq - IRQ_TIMER_0) 1) h"

definition mmsp2_timer_chip :: "'h mmio \<Rightarrow> 'h irq_chip" where
  "mmsp2_timer_chip io = simple_chip ''TIMER'' (mmsp2_timer_ack_irq io)
     (mmsp2_timer_mask_irq io) (mmsp2_timer_unmask_irq io)"

section \<open>UART lines\<close>

definition mmsp2_uart_ack_irq :: "'h mmio \<Rightarrow> nat \<Rightarrow> 'h \<Rightarrow> 'h" where
  "mmsp2_uart_ack_irq io irq h = REGW_wr io INTSTATREG (push_bit (irq - IRQ_UART_TXD0) 1) h"

text \<open>The port and the kind of a UART line, in the 16-bit variables of the source.\<close>

definition uart_line_port :: "nat \<Rightarrow> u16" where
  "uart_line_port irq = ucast (drop_bit 2 (of_nat irq AND 0xf :: u32) - 1)"

definition uart_type :: "nat \<Rightarrow> u16" where
  "uart_type irq = ucast (of_nat irq AND 0x3 :: u32)"

definition mmsp2_uart_mask_irq :: "'h mmio \<Rightarrow> nat \<Rightarrow> 'h \<Rightarrow> 'h" where
  "mmsp2_uart_mask_irq io irq h = (
     let port = uart_line_port irq; type = uart_type irq
     in if type = 0 then REGW_upd io (UCONn port) (\<lambda>v. v AND NOT UCON_TX_INT) h
        else if type = 1 then REGW_upd io (UCONn port) (\<lambda>v. v AND NOT UCON_RX_INT) h
        else if type = 2 then REGW_upd io (UCONn port) (\<lambda>v. v AND NOT 0x40) h
        else if type = 3 then REGW_upd io (MCONn port) (\<lambda>v. v AND NOT MCON_MODEM_INT) h
        else h)"

definition mmsp2_uart_unmask_irq :: "'h mmio \<Rightarrow> nat \<Rightarrow> 'h \<Rightarrow> 'h" where
  "mmsp2_uart_unmask_irq io irq h = (
     let port = uart_line_port irq; type = uart_type irq
     in if type = 0 then REGW_upd io (UCONn port) (\<lambda>v. v OR UCON_TX_INT) h
        else if type = 1 then
          REGW_upd io (UCONn port) (\<lambda>v. v OR (UCON_RX_INT OR UCON_RX_TIMEOUT)) h
        else if type = 2 then REGW_upd io (UCONn port) (\<lambda>v. v OR 0x40) h
        else if type = 3 then REGW_upd io (MCONn port) (\<lambda>v. v OR MCON_MODEM_INT) h
        else h)"

definition mmsp2_uart_chip :: "'h mmio \<Rightarrow> 'h irq_chip" where
  "mmsp2_uart_chip io = simple_chip ''UART'' (mmsp2_uart_ack_irq io) (mmsp2_uart_mask_irq io)
     (mmsp2_uart_unmask_irq io)"

section \<open>Demultiplexers\<close>

lemma drop_bit_decreases: "m \<noteq> 0 \<Longrightarrow> unat (drop_bit 1 (m :: u16)) < unat m"
  unfolding unat_drop_bit by (simp add: unat_gt_0)

text \<open>
  The loop over the 16-bit status word; \<open>sub\<close> is the call \<^verbatim>\<open>desc_handle_irq\<close> of a line.
\<close>

function timer_demux_loop ::
  "(nat \<Rightarrow> 'h irq_sys \<Rightarrow> 'h irq_sys option) \<Rightarrow> nat \<Rightarrow> u16 \<Rightarrow> 'h irq_sys \<Rightarrow> 'h irq_sys option" where
  "timer_demux_loop sub irq msk s = (
     if msk = 0 then Some s
     else do {
       s \<leftarrow> (if msk AND 1 \<noteq> 0 then sub irq s else Some s);
       timer_demux_loop sub (irq + 1) (drop_bit 1 msk) s
     })"
  by auto
termination
  by (relation "measure (\<lambda>(_, _, m, _). unat m)") (auto simp: drop_bit_decreases [unfolded One_nat_def])

declare timer_demux_loop.simps [simp del]

definition mmsp2_timer_demux_handler ::
  "'h mmio \<Rightarrow> (nat \<Rightarrow> 'h irq_sys \<Rightarrow> 'h irq_sys option) \<Rightarrow> 'h irq_sys \<Rightarrow> 'h irq_sys option" where
  "mmsp2_timer_demux_handler io sub s = (
     let (msk, h) = REGW_rd io TSTATUS (hw s) in do {
       s \<leftarrow> timer_demux_loop sub IRQ_TIMER_0 msk (s\<lparr>hw := h\<rparr>);
       Some (s\<lparr>hw := REG_upd io INTPEND (\<lambda>v. v AND push_bit IRQ_TIMER 1)
                      (REG_upd io SRCPEND (\<lambda>v. v AND push_bit IRQ_TIMER 1) (hw s))\<rparr>)
     })"

text \<open>The UART loop leaves at the first line it has handled, with the mask not shifted out.\<close>

function uart_demux_loop ::
  "(nat \<Rightarrow> 'h irq_sys \<Rightarrow> 'h irq_sys option) \<Rightarrow> nat \<Rightarrow> u16 \<Rightarrow> 'h irq_sys \<Rightarrow>
     (u16 \<times> 'h irq_sys) option" where
  "uart_demux_loop sub irq msk s = (
     if msk = 0 then Some (msk, s)
     else if msk AND 1 \<noteq> 0 then do { s \<leftarrow> sub irq s; Some (msk, s) }
     else uart_demux_loop sub (irq + 1) (drop_bit 1 msk) s)"
  by auto
termination
  by (relation "measure (\<lambda>(_, _, m, _). unat m)") (auto simp: drop_bit_decreases [unfolded One_nat_def])

declare uart_demux_loop.simps [simp del]

definition mmsp2_uart_demux_handler ::
  "'h mmio \<Rightarrow> (nat \<Rightarrow> 'h irq_sys \<Rightarrow> 'h irq_sys option) \<Rightarrow> 'h irq_sys \<Rightarrow> 'h irq_sys option" where
  "mmsp2_uart_demux_handler io sub s = (
     let (msk, h) = REGW_rd io INTSTATREG (hw s) in do {
       (msk, s) \<leftarrow> uart_demux_loop sub IRQ_UART_TXD0 msk (s\<lparr>hw := h\<rparr>);
       Some (if msk = 0 then
               s\<lparr>hw := REG_upd io INTPEND (\<lambda>v. v AND push_bit IRQ_UART 1)
                        (REG_upd io SRCPEND (\<lambda>v. v AND push_bit IRQ_UART 1) (hw s))\<rparr>
             else s)
     })"

text \<open>
  The platform's flow handlers by number: \<open>DEMUX_TIMER\<close> and the other. The first argument
  bounds how deep demultiplexers call each other; one level is what the platform installs.
\<close>

definition DEMUX_TIMER :: nat where "DEMUX_TIMER = 0"
definition DEMUX_UART :: nat where "DEMUX_UART = 1"

primrec mmsp2_demux ::
  "nat \<Rightarrow> 'h mmio \<Rightarrow> 'h handlers \<Rightarrow> nat \<Rightarrow> nat \<Rightarrow> 'h irq_sys \<Rightarrow> 'h irq_sys option" where
  "mmsp2_demux 0 io env k irq s = None"
| "mmsp2_demux (Suc n) io env k irq s = (
     let sub = desc_handle_irq env (mmsp2_demux n io env)
     in if k = DEMUX_TIMER then mmsp2_timer_demux_handler io sub s
        else mmsp2_uart_demux_handler io sub s)"

section \<open>Initialisation\<close>

definition CHIP_MAIN :: chip_ptr where "CHIP_MAIN = Chip 0"
definition CHIP_TIMER :: chip_ptr where "CHIP_TIMER = Chip 1"
definition CHIP_UART :: chip_ptr where "CHIP_UART = Chip 2"

text \<open>The three calls the initialisation makes for a line.\<close>

definition install_line :: "chip_ptr \<Rightarrow> nat \<Rightarrow> 'h irq_sys \<Rightarrow> 'h irq_sys option" where
  "install_line p irq s = do {
     s \<leftarrow> Some (snd (set_irq_chip irq (Some p) s));
     s \<leftarrow> set_irq_handler_gen irq (Some Handle_level_irq) False s;
     Some (set_irq_flags irq (IRQF_VALID OR IRQF_PROBE) s)
   }"

fun install_lines :: "chip_ptr \<Rightarrow> nat list \<Rightarrow> 'h irq_sys \<Rightarrow> 'h irq_sys option" where
  "install_lines p [] s = Some s"
| "install_lines p (irq # irqs) s = do { s \<leftarrow> install_line p irq s; install_lines p irqs s }"

definition reserved_irqs :: "nat list" where "reserved_irqs = [3, 4, 21, 22]"

definition mmsp2_init_irq :: "'h mmio \<Rightarrow> 'h irq_sys \<Rightarrow> 'h irq_sys option" where
  "mmsp2_init_irq io s = (
     let h = REG_wr io INTMASK 0xffffffff (hw s);
         h = REG_wr io INTMOD 0 h;
         h = REG_wr io IPRIORITY 0 h;
         h = REGW_wr io TSTATUS 0xffff h;
         h = REGW_wr io INTSTATREG 0xffff h;
         h = REG_wr io SRCPEND 0xffffffff h;
         h = REG_wr io INTPEND 0xffffffff h
     in do {
       s \<leftarrow> install_lines CHIP_MAIN [irq \<leftarrow> [0..<MMSP2_IRQS]. irq \<notin> set reserved_irqs] (s\<lparr>hw := h\<rparr>);
       s \<leftarrow> install_lines CHIP_TIMER [IRQ_TIMER_START..<Suc IRQ_TIMER_END] s;
       s \<leftarrow> set_irq_handler_gen IRQ_TIMER (Some (Demux DEMUX_TIMER)) True s;
       s \<leftarrow> install_lines CHIP_UART [IRQ_UART_START..<Suc IRQ_UART_END] s;
       set_irq_handler_gen IRQ_UART (Some (Demux DEMUX_UART)) True s
     })"

text \<open>The boot state: the static table, and the chips as the sources initialise them.\<close>

definition mmsp2_chips :: "'h mmio \<Rightarrow> chip_ptr \<Rightarrow> 'h irq_chip" where
  "mmsp2_chips io p = (
     if p = CHIP_MAIN then mmsp2_main_chip io
     else if p = CHIP_TIMER then mmsp2_timer_chip io
     else if p = CHIP_UART then mmsp2_uart_chip io
     else if p = Dummy_irq_chip then dummy_irq_chip else no_irq_chip)"

definition boot_sys :: "'h mmio \<Rightarrow> 'h \<Rightarrow> 'h irq_sys" where
  "boot_sys io h = \<lparr>irq_desc = (\<lambda>_. irq_desc_init), chips = mmsp2_chips io, hw = h,
     kstat_irqs = (\<lambda>_. 0), irq_err_count = 0, irqs_resend = {}, jiffies = 0,
     noirqdebug = False\<rparr>"

section \<open>Decoding the pending line\<close>

text \<open>
  \<^verbatim>\<open>get_irqnr_and_base\<close>: the loop of the macro from number \<open>irqnr\<close>; \<open>None\<close> is the flag
  that says there is nothing to handle.
\<close>

function irqnr_loop :: "nat \<Rightarrow> u32 \<Rightarrow> nat" where
  "irqnr_loop irqnr irqstat = (
     if irqstat AND 1 \<noteq> 0 then irqnr
     else if irqnr + 1 < 32 then irqnr_loop (irqnr + 1) (drop_bit 1 irqstat)
     else irqnr + 1)"
  by auto
termination
  by (relation "measure (\<lambda>(n, _). 32 - n)") auto

declare irqnr_loop.simps [simp del]

definition get_irqnr_and_base :: "'h mmio \<Rightarrow> 'h \<Rightarrow> nat option \<times> 'h" where
  "get_irqnr_and_base io h = (
     let (m, h) = rd32 io (io_p2v INTMASK) h;
         (p, h) = rd32 io (io_p2v INTPEND) h;
         irqstat = p AND NOT m
     in (if irqstat = 0 then None else Some (irqnr_loop 0 irqstat), h))"

section \<open>The decoded line\<close>

lemma and_one_bit: "(x :: 'a::len word) AND 1 \<noteq> 0 \<longleftrightarrow> bit x 0"
  by (auto simp: and_one_eq odd_iff_mod_2_eq_one even_iff_mod_2_eq_zero bit_0)

lemma drop_bit_1_drop: "drop_bit 1 (drop_bit n x) = drop_bit (n + 1) (x :: 'a::len word)"
  by simp

lemma irqnr_loop_least:
  assumes "i < 32" "n \<le> i" "bit p i"
  shows "irqnr_loop n (drop_bit n p) < 32 \<and> n \<le> irqnr_loop n (drop_bit n p)
    \<and> bit p (irqnr_loop n (drop_bit n p))
    \<and> (\<forall>j. n \<le> j \<and> j < irqnr_loop n (drop_bit n p) \<longrightarrow> \<not> bit p j)"
  using assms(2)
proof (induction "i - n" arbitrary: n rule: less_induct)
  case less
  have step: "irqnr_loop n (drop_bit n p) = (if bit p n then n
      else if n + 1 < 32 then irqnr_loop (n + 1) (drop_bit (n + 1) p) else n + 1)"
    by (subst irqnr_loop.simps) (simp only: and_one_bit drop_bit_1_drop bit_drop_word add_0_right)
  show ?case
  proof (cases "bit p n")
    case True
    with step less.prems assms(1) show ?thesis by auto
  next
    case False
    with less.prems assms have lt: "n < i" by (metis le_neq_implies_less)
    with less.hyps [of "n + 1"] have "irqnr_loop (n + 1) (drop_bit (n + 1) p) < 32
      \<and> n + 1 \<le> irqnr_loop (n + 1) (drop_bit (n + 1) p)
      \<and> bit p (irqnr_loop (n + 1) (drop_bit (n + 1) p))
      \<and> (\<forall>j. n + 1 \<le> j \<and> j < irqnr_loop (n + 1) (drop_bit (n + 1) p) \<longrightarrow> \<not> bit p j)" by simp
    moreover have "irqnr_loop n (drop_bit n p) = irqnr_loop (n + 1) (drop_bit (n + 1) p)"
      using step False lt assms(1) by simp
    ultimately show ?thesis using False by (metis Suc_eq_plus1 Suc_leD Suc_leI le_neq_implies_less)
  qed
qed

text \<open>
  C14. The entry macro gives the lowest main line that is pending and not masked, and says
  there is none exactly when there is none.
\<close>

theorem get_irqnr_lowest:
  assumes "rd32 io (io_p2v INTMASK) h = (m, h1)" "rd32 io (io_p2v INTPEND) h1 = (p, h2)"
  shows "case get_irqnr_and_base io h of
      (None, h') \<Rightarrow> h' = h2 \<and> (\<forall>i < 32. bit p i \<longrightarrow> bit m i)
    | (Some irq, h') \<Rightarrow> h' = h2 \<and> irq < MMSP2_IRQS \<and> bit p irq \<and> \<not> bit m irq
        \<and> (\<forall>j < irq. bit p j \<longrightarrow> bit m j)"
proof (cases "p AND NOT m = 0")
  case True
  then have "\<forall>i < 32. \<not> bit (p AND NOT m) i" by simp
  then have "\<forall>i < 32. bit p i \<longrightarrow> bit m i" by (auto simp: bit_and_iff bit_not_word)
  with True assms show ?thesis by (simp add: get_irqnr_and_base_def)
next
  case False
  then obtain i where "i < 32" "bit (p AND NOT m) i"
    by (auto simp: word_eq_bits)
  from irqnr_loop_least [OF this(1) _ this(2), of 0]
  have "irqnr_loop 0 (p AND NOT m) < 32 \<and> bit (p AND NOT m) (irqnr_loop 0 (p AND NOT m))
      \<and> (\<forall>j < irqnr_loop 0 (p AND NOT m). \<not> bit (p AND NOT m) j)" by simp
  with False assms show ?thesis
    by (auto simp: get_irqnr_and_base_def MMSP2_IRQS_def bit_and_iff bit_not_word)
qed

section \<open>The demultiplexers\<close>

primrec each :: "('a \<Rightarrow> 's \<Rightarrow> 's option) \<Rightarrow> 'a list \<Rightarrow> 's \<Rightarrow> 's option" where
  "each f [] s = Some s"
| "each f (x # xs) s = do { s \<leftarrow> f x s; each f xs s }"

text \<open>The numbers of the bits set in a status word, lowest first.\<close>

definition set_bits16 :: "u16 \<Rightarrow> nat list" where
  "set_bits16 m = filter (bit m) [0..<16]"

lemma timer_demux_from:
  assumes "n \<le> 16"
  shows "timer_demux_loop sub (base + n) (drop_bit n m) s
    = each (\<lambda>i. sub (base + i)) (filter (bit m) [n..<16]) s"
  using assms
proof (induction "16 - n" arbitrary: n s)
  case 0
  then have n: "n = 16" by simp
  then have "drop_bit n m = 0" by (auto simp: word_eq_bits bit_drop_word bit_imp_le_length)
  with n show ?case by (simp add: timer_demux_loop.simps)
next
  case (Suc k)
  have n: "n < 16" "[n..<16] = n # [Suc n..<16]" using Suc.hyps(2) by (simp_all add: upt_rec)
  have IH: "timer_demux_loop sub (Suc (base + n)) (drop_bit (Suc n) m)
      = each (\<lambda>i. sub (base + i)) (filter (bit m) [Suc n..<16])"
    using Suc.hyps(1) [of "Suc n"] Suc.hyps(2) by (intro ext) simp
  show ?case
  proof (cases "drop_bit n m = 0")
    case True
    then have "\<not> bit m i" if "n \<le> i" for i
      using that bit_drop_word [of n m "i - n"] by simp
    then have "filter (bit m) [n..<16] = []" by (auto simp: filter_empty_conv)
    with True show ?thesis by (simp add: timer_demux_loop.simps)
  next
    case False
    then show ?thesis
      using n IH by (subst timer_demux_loop.simps)
        (simp add: and_one_bit bit_drop_word)
  qed
qed

lemma timer_demux_eq:
  assumes "REGW_rd io TSTATUS (hw s) = (m, h)"
  shows "mmsp2_timer_demux_handler io sub s = do {
      s \<leftarrow> each (\<lambda>i. sub (IRQ_TIMER_0 + i)) (set_bits16 m) (s\<lparr>hw := h\<rparr>);
      Some (s\<lparr>hw := REG_upd io INTPEND (\<lambda>v. v AND push_bit IRQ_TIMER 1)
                    (REG_upd io SRCPEND (\<lambda>v. v AND push_bit IRQ_TIMER 1) (hw s))\<rparr>) }"
  using assms timer_demux_from [of 0 sub IRQ_TIMER_0 m]
  by (simp add: mmsp2_timer_demux_handler_def set_bits16_def)

text \<open>
  C15. The timer demultiplexer reads the status word once, runs the flow handler of every timer
  whose bit is set, in ascending order, and then writes the two pending registers of the
  main controller.
\<close>

theorem timer_demux_all:
  assumes "REGW_rd io TSTATUS (hw s) = (m, h)"
  shows "mmsp2_timer_demux_handler io sub s = do {
      s \<leftarrow> each (\<lambda>i. sub (IRQ_TIMER_0 + i)) (set_bits16 m) (s\<lparr>hw := h\<rparr>);
      Some (s\<lparr>hw := REG_upd io INTPEND (\<lambda>v. v AND push_bit IRQ_TIMER 1)
                    (REG_upd io SRCPEND (\<lambda>v. v AND push_bit IRQ_TIMER 1) (hw s))\<rparr>) }"
  using assms by (rule timer_demux_eq)

lemma uart_demux_from:
  assumes "n \<le> 16"
  shows "uart_demux_loop sub (base + n) (drop_bit n m) s
    = (case filter (bit m) [n..<16] of
         [] \<Rightarrow> Some (0, s)
       | i # _ \<Rightarrow> do { s \<leftarrow> sub (base + i) s; Some (drop_bit i m, s) })"
  using assms
proof (induction "16 - n" arbitrary: n)
  case 0
  then have n: "n = 16" by simp
  then have "drop_bit n m = 0" by (auto simp: word_eq_bits bit_drop_word bit_imp_le_length)
  with n show ?case by (simp add: uart_demux_loop.simps)
next
  case (Suc k)
  have n: "n < 16" "[n..<16] = n # [Suc n..<16]" using Suc.hyps(2) by (simp_all add: upt_rec)
  have IH: "uart_demux_loop sub (base + Suc n) (drop_bit (Suc n) m) s
      = (case filter (bit m) [Suc n..<16] of
           [] \<Rightarrow> Some (0, s)
         | i # _ \<Rightarrow> do { s \<leftarrow> sub (base + i) s; Some (drop_bit i m, s) })"
    using Suc.hyps(1) [of "Suc n"] Suc.hyps(2) by simp
  show ?case
  proof (cases "drop_bit n m = 0")
    case True
    then have "\<not> bit m i" if "n \<le> i" for i
      using that bit_drop_word [of n m "i - n"] by simp
    then have "filter (bit m) [n..<16] = []" by (auto simp: filter_empty_conv)
    with True show ?thesis by (simp add: uart_demux_loop.simps)
  next
    case False
    then show ?thesis
      using n IH by (subst uart_demux_loop.simps) (simp add: and_one_bit bit_drop_word)
  qed
qed

lemma drop_bit_set: "bit m i \<Longrightarrow> drop_bit i (m :: u16) \<noteq> 0"
  using bit_drop_word [of i m 0] by (metis add_0_right bit_0_eq bot_apply bot_bool_def)

lemma uart_demux_eq:
  assumes "REGW_rd io INTSTATREG (hw s) = (m, h)"
  shows "mmsp2_uart_demux_handler io sub s = (
    case set_bits16 m of
      [] \<Rightarrow> Some (s\<lparr>hw := REG_upd io INTPEND (\<lambda>v. v AND push_bit IRQ_UART 1)
                    (REG_upd io SRCPEND (\<lambda>v. v AND push_bit IRQ_UART 1) h)\<rparr>)
    | i # _ \<Rightarrow> sub (IRQ_UART_TXD0 + i) (s\<lparr>hw := h\<rparr>))"
proof (cases "set_bits16 m")
  case Nil
  with assms uart_demux_from [of 0 sub IRQ_UART_TXD0 m] show ?thesis
    by (simp add: mmsp2_uart_demux_handler_def set_bits16_def)
next
  case (Cons i rest)
  then have "bit m i" unfolding set_bits16_def by (metis filter_eq_ConsD)
  with assms Cons uart_demux_from [of 0 sub IRQ_UART_TXD0 m] drop_bit_set [of m i] show ?thesis
    by (cases "sub (IRQ_UART_TXD0 + i) (s\<lparr>hw := h\<rparr>)")
       (simp_all add: mmsp2_uart_demux_handler_def set_bits16_def)
qed

text \<open>
  C16. The UART demultiplexer serves one line per main interrupt, the lowest whose status bit is
  set; the pending registers of the main controller are written only when no bit is set.
\<close>

theorem uart_demux_lowest:
  assumes "REGW_rd io INTSTATREG (hw s) = (m, h)"
  shows "mmsp2_uart_demux_handler io sub s = (
    case set_bits16 m of
      [] \<Rightarrow> Some (s\<lparr>hw := REG_upd io INTPEND (\<lambda>v. v AND push_bit IRQ_UART 1)
                    (REG_upd io SRCPEND (\<lambda>v. v AND push_bit IRQ_UART 1) h)\<rparr>)
    | i # _ \<Rightarrow> sub (IRQ_UART_TXD0 + i) (s\<lparr>hw := h\<rparr>))"
  using assms by (rule uart_demux_eq)

section \<open>The mask register\<close>

text \<open>
  What the code relies on of the mask register: it reads back what was stored last, and stores
  to other registers leave it alone.
\<close>

definition intmask_reg :: "'h mmio \<Rightarrow> ('h \<Rightarrow> u32) \<Rightarrow> bool" where
  "intmask_reg io view \<longleftrightarrow> (\<forall>h. rd32 io (io_p2v INTMASK) h = (view h, h))
     \<and> (\<forall>h v. view (wr32 io (io_p2v INTMASK) v h) = v)
     \<and> (\<forall>h v a. a \<noteq> io_p2v INTMASK \<longrightarrow> view (wr32 io a v h) = view h)
     \<and> (\<forall>h v a. a \<noteq> io_p2v INTMASK \<and> a \<noteq> io_p2v INTMASK + 2 \<longrightarrow> view (wr16 io a v h) = view h)"

lemma regfile_intmask: "intmask_reg regfile (\<lambda>h. h (io_p2v INTMASK))"
  by (simp add: intmask_reg_def regfile_def)

lemma irq_reg_addrs:
  "io_p2v INTMASK = 0xfc000808" "io_p2v SRCPEND = 0xfc000800" "io_p2v INTMOD = 0xfc000804"
  "io_p2v IPRIORITY = 0xfc00080c" "io_p2v INTPEND = 0xfc000810" "io_p2v TSTATUS = 0xfc000a16"
  "io_p2v TINTEN = 0xfc000a18" "io_p2v INTSTATREG = 0xfc001280"
  by (simp_all add: io_p2v_def INTMASK_def SRCPEND_def INTMOD_def IPRIORITY_def INTPEND_def
      TSTATUS_def TINTEN_def INTSTATREG_def)

lemma main_mask_view:
  assumes "intmask_reg io view"
  shows "view (mmsp2_main_mask_irq io irq h) = view h OR push_bit irq 1"
    and "view (mmsp2_main_unmask_irq io irq h) = view h AND NOT (push_bit irq 1)"
    and "view (mmsp2_main_ack_irq io irq h) = view h"
  using assms
  by (simp_all add: intmask_reg_def mmsp2_main_mask_irq_def mmsp2_main_unmask_irq_def
      mmsp2_main_ack_irq_def io_defs irq_reg_addrs Let_def)

section \<open>Initialisation\<close>

definition installed :: "chip_ptr \<Rightarrow> irq_desc \<Rightarrow> irq_desc" where
  "installed p d = status_update (\<lambda>x. x AND NOT (IRQ_NOREQUEST OR IRQ_NOPROBE OR IRQ_NOAUTOEN))
     (d\<lparr>chip := p, handle_irq := Some Handle_level_irq\<rparr>)"

lemma status_upd_twice: "status_upd irq f (status_upd irq g s) = status_upd irq (\<lambda>x. f (g x)) s"
  by (simp add: desc_upd_def comp_def)

lemma set_irq_flags_valid:
  assumes "irq < NR_IRQS"
  shows "set_irq_flags irq (IRQF_VALID OR IRQF_PROBE) s
    = status_upd irq (\<lambda>x. x AND NOT (IRQ_NOREQUEST OR IRQ_NOPROBE OR IRQ_NOAUTOEN)) s"
proof -
  have fl: "bit (IRQF_VALID OR IRQF_PROBE) 0" "bit (IRQF_VALID OR IRQF_PROBE) 1"
      "\<not> bit (IRQF_VALID OR IRQF_PROBE) 2"
    by (simp_all add: IRQF_VALID_def IRQF_PROBE_def)
  have "set_irq_flags irq (IRQF_VALID OR IRQF_PROBE) s = status_upd irq
      (\<lambda>x. (((x OR (IRQ_NOREQUEST OR IRQ_NOPROBE OR IRQ_NOAUTOEN)) AND NOT IRQ_NOREQUEST)
        AND NOT IRQ_NOPROBE) AND NOT IRQ_NOAUTOEN) s"
    using assms fl by (simp add: set_irq_flags_def status_upd_twice)
  moreover have "(\<lambda>x. (((x OR (IRQ_NOREQUEST OR IRQ_NOPROBE OR IRQ_NOAUTOEN)) AND NOT IRQ_NOREQUEST)
        AND NOT IRQ_NOPROBE) AND NOT IRQ_NOAUTOEN)
      = (\<lambda>x. x AND NOT (IRQ_NOREQUEST OR IRQ_NOPROBE OR IRQ_NOAUTOEN))"
    by (rule ext) (auto simp: word_eq_bits desc_ok_simps)
  ultimately show ?thesis by (simp only:)
qed

lemma install_line_eq:
  assumes "irq < NR_IRQS" "p \<noteq> No_irq_chip"
  shows "install_line p irq s = Some (desc_upd irq (installed p) (set_defaults_at p s))"
proof -
  let ?t = "desc_upd irq (handle_irq_update (\<lambda>_. Some Handle_level_irq))
      (desc_upd irq (chip_update (\<lambda>_. p)) (set_defaults_at p s))"
  have "install_line p irq s = Some (set_irq_flags irq (IRQF_VALID OR IRQF_PROBE) ?t)"
    using assms by (simp add: install_line_def set_irq_chip_def set_irq_handler_gen_def)
  also have "\<dots> = Some (desc_upd irq (installed p) (set_defaults_at p s))"
    by (simp only: set_irq_flags_valid [OF assms(1)] desc_upd_desc_upd installed_def [abs_def])
  finally show ?thesis .
qed

lemma install_lines_eq:
  assumes "distinct irqs" "\<forall>i \<in> set irqs. i < NR_IRQS" "p \<noteq> No_irq_chip"
  shows "\<exists>s'. install_lines p irqs s = Some s' \<and> hw s' = hw s
    \<and> irq_desc s' = (\<lambda>i. if i \<in> set irqs then installed p (irq_desc s i) else irq_desc s i)
    \<and> (\<forall>q. c_unmask (chips s' q) = c_unmask (chips s q))"
  using assms(1,2)
proof (induction irqs arbitrary: s)
  case (Cons x xs)
  let ?t = "desc_upd x (installed p) (set_defaults_at p s)"
  have t: "install_line p x s = Some ?t" using Cons.prems assms(3) by (simp add: install_line_eq)
  have u: "c_unmask (chips ?t q) = c_unmask (chips s q)" for q
    by (simp add: set_defaults_at_def irq_chip_set_defaults_def Let_def)
  from Cons.IH [of ?t] Cons.prems obtain s' where s': "install_lines p xs ?t = Some s'" "hw s' = hw ?t"
      "irq_desc s' = (\<lambda>i. if i \<in> set xs then installed p (irq_desc ?t i) else irq_desc ?t i)"
      "\<forall>q. c_unmask (chips s' q) = c_unmask (chips ?t q)" by auto
  have "irq_desc s' = (\<lambda>i. if i \<in> set (x # xs) then installed p (irq_desc s i) else irq_desc s i)"
    using s'(3) Cons.prems(1) by (auto simp: desc_upd_def)
  with t u s' show ?case by simp
qed simp

definition chained :: "nat \<Rightarrow> irq_desc \<Rightarrow> irq_desc" where
  "chained k d = d\<lparr>handle_irq := Some (Demux k),
     status := (status d AND NOT IRQ_DISABLED) OR (IRQ_NOREQUEST OR IRQ_NOPROBE), depth := 0\<rparr>"

lemma chain_eq:
  assumes "irq < NR_IRQS" "chip (irq_desc s irq) \<noteq> No_irq_chip"
    and "c_unmask (chips s (chip (irq_desc s irq))) = Some (Hw u)"
  shows "set_irq_handler_gen irq (Some (Demux k)) True s
    = Some ((desc_upd irq (chained k) s)\<lparr>hw := u irq (hw s)\<rparr>)"
  using assms
  by (simp add: set_irq_handler_gen_def chip_of_def desc_upd_desc_upd chained_def [abs_def])

lemma init_fold:
  "irq_desc (fold (\<lambda>irq. status_upd irq f) [0..<n] s)
     = (\<lambda>i. if i < n then status_update f (irq_desc s i) else irq_desc s i)
   \<and> chips (fold (\<lambda>irq. status_upd irq f) [0..<n] s) = chips s
   \<and> hw (fold (\<lambda>irq. status_upd irq f) [0..<n] s) = hw s"
proof (induction n)
  case (Suc n)
  then show ?case by (auto simp: desc_upd_def)
qed simp

lemma mmsp2_unmask:
  "c_unmask (mmsp2_chips io CHIP_MAIN) = Some (Hw (mmsp2_main_unmask_irq io))"
  by (simp add: mmsp2_chips_def mmsp2_main_chip_def simple_chip_def)

lemmas irq_numbers = NR_IRQS_def MMSP2_IRQS_def IRQ_TIMER_def IRQ_UART_def IRQ_TIMER_START_def
  IRQ_TIMER_END_def IRQ_UART_START_def IRQ_UART_END_def reserved_irqs_def IRQ_TIMER_0_def
  IRQ_UART_TXD0_def

text \<open>The descriptor of a line after the boot, from the static initialiser.\<close>

definition line_after_boot :: "nat \<Rightarrow> irq_desc" where
  "line_after_boot i = (
     let d = status_update (\<lambda>x. x OR (IRQ_NOREQUEST OR IRQ_NOPROBE)) irq_desc_init
     in if i \<ge> NR_IRQS then irq_desc_init
        else if i \<in> set reserved_irqs then d
        else if i = IRQ_TIMER then chained DEMUX_TIMER (installed CHIP_MAIN d)
        else if i = IRQ_UART then chained DEMUX_UART (installed CHIP_MAIN d)
        else if i < MMSP2_IRQS then installed CHIP_MAIN d
        else if i < IRQ_TIMER_END then installed CHIP_TIMER d
        else if i = IRQ_TIMER_END then installed CHIP_UART (installed CHIP_TIMER d)
        else installed CHIP_UART d)"

lemma main_lines:
  "distinct [irq \<leftarrow> [0..<MMSP2_IRQS]. irq \<notin> set reserved_irqs]"
  "\<forall>i \<in> set [irq \<leftarrow> [0..<MMSP2_IRQS]. irq \<notin> set reserved_irqs]. i < NR_IRQS"
  "CHIP_MAIN \<noteq> No_irq_chip"
  by (simp_all add: irq_numbers CHIP_MAIN_def)

lemma timer_lines:
  "distinct [IRQ_TIMER_START..<Suc IRQ_TIMER_END]"
  "\<forall>i \<in> set [IRQ_TIMER_START..<Suc IRQ_TIMER_END]. i < NR_IRQS"
  "CHIP_TIMER \<noteq> No_irq_chip"
  by (simp_all add: irq_numbers CHIP_TIMER_def)

lemma uart_lines:
  "distinct [IRQ_UART_START..<Suc IRQ_UART_END]"
  "\<forall>i \<in> set [IRQ_UART_START..<Suc IRQ_UART_END]. i < NR_IRQS"
  "CHIP_UART \<noteq> No_irq_chip"
  by (simp_all add: irq_numbers CHIP_UART_def)

lemma mmsp2_boot:
  "\<exists>s. init_IRQ (mmsp2_init_irq io) (boot_sys io h) = Some s
     \<and> irq_desc s = line_after_boot
     \<and> (\<exists>h'. hw s = mmsp2_main_unmask_irq io IRQ_UART (mmsp2_main_unmask_irq io IRQ_TIMER h')
         \<and> (intmask_reg io view \<longrightarrow> view h' = 0xffffffff))"
proof -
  let ?f = "\<lambda>x. x OR (IRQ_NOREQUEST OR IRQ_NOPROBE)"
  define s0 where "s0 = fold (\<lambda>irq. status_upd irq ?f) [0..<NR_IRQS] (boot_sys io h)"
  define h' where "h' = REG_wr io INTPEND 0xffffffff (REG_wr io SRCPEND 0xffffffff
      (REGW_wr io INTSTATREG 0xffff (REGW_wr io TSTATUS 0xffff (REG_wr io IPRIORITY 0
      (REG_wr io INTMOD 0 (REG_wr io INTMASK 0xffffffff (hw s0)))))))"
  let ?main = "[irq \<leftarrow> [0..<MMSP2_IRQS]. irq \<notin> set reserved_irqs]"
  have s0: "irq_desc s0 = (\<lambda>i. if i < NR_IRQS then status_update ?f irq_desc_init else irq_desc_init)"
      "chips s0 = mmsp2_chips io"
    using init_fold [of ?f NR_IRQS "boot_sys io h"] by (auto simp: s0_def boot_sys_def)
  obtain s1 where s1: "install_lines CHIP_MAIN ?main (s0\<lparr>hw := h'\<rparr>) = Some s1" "hw s1 = h'"
      "irq_desc s1 = (\<lambda>i. if i \<in> set ?main then installed CHIP_MAIN (irq_desc s0 i) else irq_desc s0 i)"
      "\<forall>q. c_unmask (chips s1 q) = c_unmask (mmsp2_chips io q)"
    using install_lines_eq [OF main_lines, where s = "s0\<lparr>hw := h'\<rparr>"] s0(2)
    by (elim exE) (simp cong: if_cong)
  let ?tim = "[IRQ_TIMER_START..<Suc IRQ_TIMER_END]"
  obtain s2 where s2: "install_lines CHIP_TIMER ?tim s1 = Some s2" "hw s2 = h'"
      "irq_desc s2 = (\<lambda>i. if i \<in> set ?tim then installed CHIP_TIMER (irq_desc s1 i) else irq_desc s1 i)"
      "\<forall>q. c_unmask (chips s2 q) = c_unmask (mmsp2_chips io q)"
    using install_lines_eq [OF timer_lines, where s = s1] s1(2,4) by (elim exE) simp
  define s3 where "s3 = (desc_upd IRQ_TIMER (chained DEMUX_TIMER) s2)
      \<lparr>hw := mmsp2_main_unmask_irq io IRQ_TIMER h'\<rparr>"
  have c5: "chip (irq_desc s2 IRQ_TIMER) = CHIP_MAIN"
    using s1(3) s2(3) by (simp add: irq_numbers installed_def)
  have s3: "set_irq_handler_gen IRQ_TIMER (Some (Demux DEMUX_TIMER)) True s2 = Some s3"
    unfolding s3_def s2(2) [symmetric]
    by (rule chain_eq) (simp_all add: c5 s2(4) mmsp2_unmask, simp_all add: irq_numbers CHIP_MAIN_def)
  let ?ua = "[IRQ_UART_START..<Suc IRQ_UART_END]"
  obtain s4 where s4: "install_lines CHIP_UART ?ua s3 = Some s4" "hw s4 = hw s3"
      "irq_desc s4 = (\<lambda>i. if i \<in> set ?ua then installed CHIP_UART (irq_desc s3 i) else irq_desc s3 i)"
      "\<forall>q. c_unmask (chips s4 q) = c_unmask (mmsp2_chips io q)"
    using install_lines_eq [OF uart_lines, where s = s3] s2(4) by (elim exE) (simp add: s3_def)
  define s5 where "s5 = (desc_upd IRQ_UART (chained DEMUX_UART) s4)
      \<lparr>hw := mmsp2_main_unmask_irq io IRQ_UART (hw s4)\<rparr>"
  have c10: "chip (irq_desc s4 IRQ_UART) = CHIP_MAIN"
    using s1(3) s2(3) s4(3) by (simp add: irq_numbers installed_def s3_def desc_upd_def)
  have s5: "set_irq_handler_gen IRQ_UART (Some (Demux DEMUX_UART)) True s4 = Some s5"
    unfolding s5_def
    by (rule chain_eq) (simp_all add: c10 s4(4) mmsp2_unmask, simp_all add: irq_numbers CHIP_MAIN_def)
  have run: "init_IRQ (mmsp2_init_irq io) (boot_sys io h) = Some s5"
    unfolding init_IRQ_def s0_def [symmetric] mmsp2_init_irq_def Let_def h'_def [symmetric]
    by (simp add: s1(1) s2(1) s3 s4(1) s5 del: upt_Suc)
  have "irq_desc s5 = line_after_boot"
    by (rule ext) (simp add: s5_def s4(3) s3_def s2(3) s1(3) s0(1) desc_upd_def line_after_boot_def
        irq_numbers Let_def del: upt_rec_numeral upt_Suc)
  moreover have "intmask_reg io view \<Longrightarrow> view h' = 0xffffffff"
    by (simp add: h'_def intmask_reg_def io_defs irq_reg_addrs)
  ultimately show ?thesis
    using run by (auto simp: s5_def s4(2) s3_def)
qed

lemma line_chip:
  "irq < NR_IRQS \<Longrightarrow> chip (line_after_boot irq) = (
     if irq \<in> set reserved_irqs then No_irq_chip else if irq < MMSP2_IRQS then CHIP_MAIN
     else if irq < IRQ_UART_START then CHIP_TIMER else CHIP_UART)"
  by (simp add: line_after_boot_def installed_def chained_def irq_desc_init_def irq_numbers
      Let_def)

lemma line_handler:
  "irq < NR_IRQS \<Longrightarrow> handle_irq (line_after_boot irq) = Some (
     if irq \<in> set reserved_irqs then Handle_bad_irq
     else if irq = IRQ_TIMER then Demux DEMUX_TIMER else if irq = IRQ_UART then Demux DEMUX_UART
     else Handle_level_irq)"
  by (simp add: line_after_boot_def installed_def chained_def irq_desc_init_def irq_numbers
      Let_def)

lemma line_flags:
  "bit (status (line_after_boot irq)) 9 \<longleftrightarrow> irq \<noteq> IRQ_TIMER \<and> irq \<noteq> IRQ_UART"
  "irq < NR_IRQS \<Longrightarrow> bit (status (line_after_boot irq)) 18 \<longleftrightarrow>
     irq \<in> set reserved_irqs \<or> irq = IRQ_TIMER \<or> irq = IRQ_UART"
  "\<not> bit (status (line_after_boot irq)) 19"
  "depth (line_after_boot irq) = (if irq = IRQ_TIMER \<or> irq = IRQ_UART then 0 else 1)"
  "action (line_after_boot irq) = []"
  by (simp_all add: line_after_boot_def installed_def chained_def irq_desc_init_def irq_numbers
      desc_ok_simps Let_def)

text \<open>
  C9. The boot of the interrupt system: every line of the controller that exists has the chip of
  its controller; the two cascade lines run the demultiplexers, are open, and cannot be
  requested; the reserved lines have no chip; every other line is disabled and free to
  request. In the mask register only the two cascade lines are open.
\<close>

theorem boot_lines:
  assumes "intmask_reg io view"
  shows "\<exists>s. init_IRQ (mmsp2_init_irq io) (boot_sys io h) = Some s
    \<and> (\<forall>irq. irq < NR_IRQS \<longrightarrow>
        chip (irq_desc s irq) = (
           if irq \<in> set reserved_irqs then No_irq_chip else if irq < MMSP2_IRQS then CHIP_MAIN
           else if irq < IRQ_UART_START then CHIP_TIMER else CHIP_UART)
      \<and> handle_irq (irq_desc s irq) = Some (
           if irq \<in> set reserved_irqs then Handle_bad_irq
           else if irq = IRQ_TIMER then Demux DEMUX_TIMER
           else if irq = IRQ_UART then Demux DEMUX_UART else Handle_level_irq)
      \<and> (can_request_irq irq flags s \<longleftrightarrow>
           irq \<notin> set reserved_irqs \<and> irq \<noteq> IRQ_TIMER \<and> irq \<noteq> IRQ_UART)
      \<and> (has (st irq s) IRQ_DISABLED \<longleftrightarrow> irq \<noteq> IRQ_TIMER \<and> irq \<noteq> IRQ_UART))
    \<and> (\<forall>i < MMSP2_IRQS. bit (view (hw s)) i \<longleftrightarrow> i \<noteq> IRQ_TIMER \<and> i \<noteq> IRQ_UART)"
proof -
  from mmsp2_boot [of io h view] assms obtain s h' where
    run: "init_IRQ (mmsp2_init_irq io) (boot_sys io h) = Some s" and d: "irq_desc s = line_after_boot"
    and hw: "hw s = mmsp2_main_unmask_irq io IRQ_UART (mmsp2_main_unmask_irq io IRQ_TIMER h')"
    and v: "view h' = 0xffffffff" by blast
  have all1: "bit (0xffffffff :: u32) i \<longleftrightarrow> i < 32" for i
  proof -
    have "(0xffffffff :: u32) = mask 32" by (simp add: mask_eq_exp_minus_1)
    then show ?thesis by (simp only: bit_mask_iff) simp
  qed
  have "bit (view (hw s)) i \<longleftrightarrow> i \<noteq> IRQ_TIMER \<and> i \<noteq> IRQ_UART" if "i < MMSP2_IRQS" for i
    using that unfolding hw main_mask_view [OF assms] v
    by (simp only: bit_and_iff bit_not_word bit_push_word bit_one_word all1 irq_numbers) auto
  moreover have "can_request_irq irq flags s \<longleftrightarrow>
      irq \<notin> set reserved_irqs \<and> irq \<noteq> IRQ_TIMER \<and> irq \<noteq> IRQ_UART" if "irq < NR_IRQS" for irq
    using that by (simp add: can_request_irq_def d line_flags)
  ultimately show ?thesis
    using run by (intro exI [of _ s]) (simp add: d line_chip line_handler line_flags)
qed

lemma boot_sys_ok: "init_IRQ (mmsp2_init_irq io) (boot_sys io h) = Some s \<Longrightarrow> sys_ok s"
  using mmsp2_boot [of io h "\<lambda>_. 0"] by (auto simp: sys_ok_def desc_ok_def line_flags)

section \<open>A main line is masked while its handlers run\<close>

text \<open>
  Handlers that work on their device only: they return, and leave the descriptors, the chips
  and the mask register alone.
\<close>

definition quiet_handlers :: "('h \<Rightarrow> u32) \<Rightarrow> 'h handlers \<Rightarrow> bool" where
  "quiet_handlers view env \<longleftrightarrow> (\<forall>h irq dev s. \<exists>r s'. env h irq dev s = Some (r, s')
     \<and> irq_desc s' = irq_desc s \<and> chips s' = chips s \<and> view (hw s') = view (hw s))"

text \<open>The handlers with a check in front: refuse to run while the line is open.\<close>

definition masked_only :: "('h \<Rightarrow> u32) \<Rightarrow> nat \<Rightarrow> 'h handlers \<Rightarrow> 'h handlers" where
  "masked_only view irq env h i dev s =
     (if bit (view (hw s)) irq then env h i dev s else None)"

lemma run_actions_quiet:
  assumes "quiet_handlers view env"
  shows "\<exists>r s'. run_actions env irq as ret s = Some (r, s') \<and> irq_desc s' = irq_desc s
    \<and> chips s' = chips s \<and> view (hw s') = view (hw s)"
proof (induction as arbitrary: ret s)
  case (Cons a as)
  from assms obtain r t where t: "env (ia_handler a) irq (ia_dev_id a) s = Some (r, t)"
      "irq_desc t = irq_desc s" "chips t = chips s" "view (hw t) = view (hw s)"
    unfolding quiet_handlers_def by blast
  from Cons.IH [of "ret OR r" t] t show ?case by auto
qed simp

lemma run_actions_masked:
  assumes "quiet_handlers view env" "bit (view (hw s)) irq"
  shows "run_actions (masked_only view irq env) irq as ret s = run_actions env irq as ret s"
  using assms(2)
proof (induction as arbitrary: ret s)
  case (Cons a as)
  from assms(1) obtain r t where t: "env (ia_handler a) irq (ia_dev_id a) s = Some (r, t)"
      "view (hw t) = view (hw s)"
    unfolding quiet_handlers_def by blast
  from Cons.IH [of t "ret OR r"] Cons.prems t show ?case by (simp add: masked_only_def)
qed simp

lemma note_interrupt_quiet:
  assumes "c_disable (chip_of irq s) = Some Default_disable"
  shows "\<exists>s'. note_interrupt irq ret s = Some s' \<and> hw s' = hw s \<and> chips s' = chips s
    \<and> chip (irq_desc s' irq) = chip (irq_desc s irq)"
proof -
  have c: "c_disable (chips s (chip (irq_desc s irq))) = Some Default_disable"
    using assms by (simp add: chip_of_def)
  show ?thesis
    by (simp add: note_interrupt_def Let_def chip_of_def c default_disable_def)
qed

lemma flow_body_quiet:
  assumes "quiet_handlers view env" "c_disable (chip_of irq s) = Some Default_disable"
    and "bit (view (hw s)) irq"
  shows "\<exists>b s'. flow_body env irq s = Some (b, s')
    \<and> flow_body (masked_only view irq env) irq s = Some (b, s')
    \<and> view (hw s') = view (hw s) \<and> chip_of irq s' = chip_of irq s
    \<and> (b \<longleftrightarrow> action (irq_desc s irq) \<noteq> [] \<and> \<not> has (st irq s) IRQ_DISABLED)
    \<and> (\<not> b \<longrightarrow> has (st irq s') IRQ_DISABLED = has (st irq s) IRQ_DISABLED)"
proof -
  define s1 where "s1 = kstat_inc irq (status_upd irq (\<lambda>x. x AND NOT (IRQ_REPLAY OR IRQ_WAITING)) s)"
  have s1: "action (irq_desc s1 irq) = action (irq_desc s irq)" "hw s1 = hw s" "chips s1 = chips s"
      "chip (irq_desc s1 irq) = chip (irq_desc s irq)"
      "has (st irq s1) IRQ_DISABLED = has (st irq s) IRQ_DISABLED"
    by (simp_all add: s1_def desc_ok_simps)
  note unf = flow_body_def Let_def s1_def [symmetric] handle_IRQ_event_def
  show ?thesis
  proof (cases "action (irq_desc s1 irq) = [] \<or> has (st irq s1) IRQ_DISABLED")
    case True
    then show ?thesis unfolding unf using s1 by (auto simp: chip_of_def)
  next
    case False
    let ?s2 = "status_upd irq (\<lambda>x. x OR IRQ_INPROGRESS) s1"
    obtain r s3 where s3: "run_actions env irq (action (irq_desc s1 irq)) IRQ_NONE ?s2 = Some (r, s3)"
        "irq_desc s3 = irq_desc ?s2" "chips s3 = chips ?s2" "view (hw s3) = view (hw ?s2)"
      using run_actions_quiet [OF assms(1)] by blast
    have m: "run_actions (masked_only view irq env) irq (action (irq_desc s1 irq)) IRQ_NONE ?s2
        = Some (r, s3)"
      using run_actions_masked [OF assms(1), of ?s2] assms(3) s1(2) s3(1) by simp
    have c3: "chip_of irq s3 = chip_of irq s" using s3 s1 by (simp add: chip_of_def)
    obtain s4 where s4: "(if noirqdebug s3 then Some s3 else note_interrupt irq r s3) = Some s4"
        "hw s4 = hw s3" "chip_of irq s4 = chip_of irq s3"
      using note_interrupt_quiet [of irq s3 r] assms(2) c3
      by (cases "noirqdebug s3") (auto simp: chip_of_def)
    have "chip_of irq (status_upd irq (\<lambda>x. x AND NOT IRQ_INPROGRESS) s4) = chip_of irq s4"
      by (rule chip_of_desc_upd) simp
    with False s1 s3 m s4 c3 show ?thesis unfolding unf by (intro exI [of _ True]) simp
  qed
qed

text \<open>
  C7. An interrupt on a main line: the line is masked before the first handler runs and stays
  masked until the last one is done, so that a check for it in front of every handler changes
  nothing; afterwards the line is open again unless it was in progress already, has no action,
  or is disabled; the mask bits of the other lines are as they were.
\<close>

theorem level_irq_masked:
  assumes "intmask_reg io view" "quiet_handlers view env" "irq < MMSP2_IRQS"
    and "chip_of irq s = irq_chip_set_defaults (mmsp2_main_chip io)"
  shows "handle_level_irq (masked_only view irq env) irq s = handle_level_irq env irq s
    \<and> (\<exists>s'. handle_level_irq env irq s = Some s'
      \<and> (bit (view (hw s')) irq \<longleftrightarrow> has (st irq s) IRQ_INPROGRESS
            \<or> action (irq_desc s irq) = [] \<or> has (st irq s) IRQ_DISABLED
            \<or> has (st irq s') IRQ_DISABLED)
      \<and> (\<forall>j < MMSP2_IRQS. j \<noteq> irq \<longrightarrow> bit (view (hw s')) j = bit (view (hw s)) j))"
proof -
  let ?x = "s\<lparr>hw := mmsp2_main_ack_irq io irq (mmsp2_main_mask_irq io irq (hw s))\<rparr>"
  have cb: "c_mask_ack (chip_of irq s) = None" "c_mask (chip_of irq s) = Some (Hw (mmsp2_main_mask_irq io))"
      "c_ack (chip_of irq s) = Some (Hw (mmsp2_main_ack_irq io))"
      "c_unmask (chip_of irq s) = Some (Hw (mmsp2_main_unmask_irq io))"
      "c_disable (chip_of irq s) = Some Default_disable"
    by (simp_all add: assms(4) irq_chip_set_defaults_def mmsp2_main_chip_def simple_chip_def Let_def)
  have cx: "chip_of irq (s\<lparr>hw := h\<rparr>) = chip_of irq s" for h by (simp add: chip_of_def)
  have x: "mask_ack_irq irq s = Some ?x" by (simp add: mask_ack_irq_def cb cx)
  have vx: "bit (view (hw ?x)) j \<longleftrightarrow> bit (view (hw s)) j \<or> j = irq" if "j < 32" for j
  proof -
    have "hw ?x = mmsp2_main_ack_irq io irq (mmsp2_main_mask_irq io irq (hw s))" by simp
    then show ?thesis using that assms(3)
      by (simp only: main_mask_view [OF assms(1)] bitwise) (auto simp: MMSP2_IRQS_def)
  qed
  show ?thesis
  proof (cases "has (st irq s) IRQ_INPROGRESS")
    case True
    with x vx assms(3) show ?thesis by (simp add: handle_level_irq_def MMSP2_IRQS_def)
  next
    case False
    obtain b y where y: "flow_body env irq ?x = Some (b, y)"
        "flow_body (masked_only view irq env) irq ?x = Some (b, y)"
        "view (hw y) = view (hw ?x)" "chip_of irq y = chip_of irq s"
        "b \<longleftrightarrow> action (irq_desc s irq) \<noteq> [] \<and> \<not> has (st irq s) IRQ_DISABLED"
        "\<not> b \<longrightarrow> has (st irq y) IRQ_DISABLED = has (st irq s) IRQ_DISABLED"
      using flow_body_quiet [OF assms(2), of irq ?x] cb(5) cx vx [of irq] assms(3)
      by (auto simp: MMSP2_IRQS_def)
    have un: "bit (view (mmsp2_main_unmask_irq io irq (hw y))) j \<longleftrightarrow> bit (view (hw y)) j \<and> j \<noteq> irq"
      if "j < 32" for j
      using that by (simp only: main_mask_view [OF assms(1)] bitwise) auto
    show ?thesis
      using x y vx un False assms(3) cb(4)
      by (cases "b \<and> \<not> has (st irq y) IRQ_DISABLED")
         (auto simp: handle_level_irq_def MMSP2_IRQS_def)
  qed
qed

section \<open>The registers behind the UART lines\<close>

lemma uart_line_cases:
  assumes "IRQ_UART_START \<le> irq" "irq < IRQ_UART_END"
  shows "\<exists>p < 4. \<exists>t < 4. irq = IRQ_UART_START + 4 * p + t"
proof -
  have "irq = IRQ_UART_START + 4 * ((irq - IRQ_UART_START) div 4) + (irq - IRQ_UART_START) mod 4"
    using assms by simp
  moreover have "(irq - IRQ_UART_START) div 4 < 4"
    using assms by (simp add: irq_numbers)
  ultimately show ?thesis by (metis mod_less_divisor zero_less_numeral)
qed

lemma less_4_cases: "(n :: nat) < 4 \<longleftrightarrow> n = 0 \<or> n = 1 \<or> n = 2 \<or> n = 3"
  by auto

lemma minus_one_u16: "ucast (- 1 :: u32) = (0xffff :: u16)"
  by code_simp

lemma uart_port_type:
  assumes "p < 4" "t < 4"
  shows "uart_line_port (IRQ_UART_START + 4 * p + t) = (if p < 3 then of_nat p else 0xffff)
    \<and> uart_type (IRQ_UART_START + 4 * p + t) = of_nat t"
  using assms unfolding less_4_cases
  by (elim disjE; simp add: uart_line_port_def uart_type_def irq_numbers minus_one_u16)

text \<open>The register and the bits a line of kind \<open>t\<close> of port \<open>p\<close> is enabled with.\<close>

definition uart_enable_reg :: "nat \<Rightarrow> nat \<Rightarrow> u32" where
  "uart_enable_reg p t = 0xfc001200 + 0x20 * of_nat p + (if t = 3 then 6 else 2)"

definition uart_enable_bit :: "nat \<Rightarrow> u16" where
  "uart_enable_bit t = [0x200, 0x100, 0x40, 8] ! t"

lemma uart_regs_at:
  "p < 3 \<Longrightarrow> io_p2v (UCONn (of_nat p)) = uart_enable_reg p 0"
  "p < 3 \<Longrightarrow> io_p2v (MCONn (of_nat p)) = uart_enable_reg p 3"
proof -
  assume "p < 3"
  then consider "p = 0" | "p = 1" | "p = 2" by linarith
  then show "io_p2v (UCONn (of_nat p)) = uart_enable_reg p 0"
      "io_p2v (MCONn (of_nat p)) = uart_enable_reg p 3"
    by (cases; simp add: io_p2v_def UCONn_def MCONn_def uart_enable_reg_def)+
qed

text \<open>
  C17. On ports 0 to 2, masking a UART line clears its enable bit in its port's register and
  nothing else; unmasking sets it (and, for a receive line, the time-out bit).
\<close>

theorem uart_line_registers:
  assumes "p < 3" "t < 4"
  shows "mmsp2_uart_mask_irq io (IRQ_UART_START + 4 * p + t) h =
      (let (v, h) = rd16 io (uart_enable_reg p t) h
       in wr16 io (uart_enable_reg p t) (v AND NOT (uart_enable_bit t)) h)
    \<and> mmsp2_uart_unmask_irq io (IRQ_UART_START + 4 * p + t) h =
      (let (v, h) = rd16 io (uart_enable_reg p t) h
       in wr16 io (uart_enable_reg p t)
            (v OR uart_enable_bit t OR (if t = 1 then 0x80 else 0)) h)"
proof -
  have reg: "uart_enable_reg p (Suc 0) = uart_enable_reg p 0" "uart_enable_reg p 2 = uart_enable_reg p 0"
    by (simp_all add: uart_enable_reg_def)
  define i where "i = IRQ_UART_START + 4 * p + t"
  have pt: "uart_line_port i = of_nat p" "uart_type i = of_nat t"
    using uart_port_type [of p t] assms by (simp_all add: i_def)
  consider "t = 0" | "t = 1" | "t = 2" | "t = 3" using assms(2) by linarith
  then show ?thesis unfolding i_def [symmetric]
    by cases (simp_all add: mmsp2_uart_mask_irq_def mmsp2_uart_unmask_irq_def pt io_defs
      uart_regs_at [OF assms(1)] reg uart_enable_bit_def UCON_TX_INT_def UCON_RX_INT_def
      UCON_RX_TIMEOUT_def MCON_MODEM_INT_def Let_def or.assoc)
qed


section \<open>The nesting invariant on the platform\<close>

lemma each_ok:
  assumes "\<And>i t t'. f i t = Some t' \<Longrightarrow> sys_ok t \<Longrightarrow> sys_ok t'"
  shows "each f xs s = Some s' \<Longrightarrow> sys_ok s \<Longrightarrow> sys_ok s'"
  by (induction xs arbitrary: s) (auto intro: assms split: bind_splits)

lemma timer_demux_ok:
  assumes "\<And>i t t'. sub i t = Some t' \<Longrightarrow> sys_ok t \<Longrightarrow> sys_ok t'"
    and "mmsp2_timer_demux_handler io sub s = Some s'" "sys_ok s"
  shows "sys_ok s'"
proof -
  obtain m h where m: "REGW_rd io TSTATUS (hw s) = (m, h)" by fastforce
  have "\<exists>t. each (\<lambda>i. sub (IRQ_TIMER_0 + i)) (set_bits16 m) (s\<lparr>hw := h\<rparr>) = Some t
      \<and> irq_desc s' = irq_desc t"
    using assms(2) unfolding timer_demux_eq [OF m] by (auto split: bind_splits)
  then obtain t where t: "each (\<lambda>i. sub (IRQ_TIMER_0 + i)) (set_bits16 m) (s\<lparr>hw := h\<rparr>) = Some t"
      "irq_desc s' = irq_desc t" by blast
  have "sys_ok t" by (rule each_ok [OF _ t(1)]) (use assms in auto)
  with t(2) show ?thesis by (simp add: sys_ok_def)
qed

lemma uart_demux_ok:
  assumes "\<And>i t t'. sub i t = Some t' \<Longrightarrow> sys_ok t \<Longrightarrow> sys_ok t'"
    and "mmsp2_uart_demux_handler io sub s = Some s'" "sys_ok s"
  shows "sys_ok s'"
proof -
  obtain m h where m: "REGW_rd io INTSTATREG (hw s) = (m, h)" by fastforce
  from assms show ?thesis
    unfolding uart_demux_eq [OF m] by (cases "set_bits16 m") (auto)
qed

lemma mmsp2_demux_ok:
  assumes "keeps_ok env"
  shows "demux_ok (mmsp2_demux n io env)"
proof (induction n)
  case (Suc n)
  have sub: "desc_handle_irq env (mmsp2_demux n io env) i t = Some t' \<Longrightarrow> sys_ok t \<Longrightarrow> sys_ok t'"
    for i t t' using desc_handle_irq_ok assms Suc by blast
  show ?case
    unfolding demux_ok_def
    by (auto simp: Let_def split: if_splits intro: timer_demux_ok uart_demux_ok sub)
qed (simp add: demux_ok_def)

text \<open>
  C1. Starting from the boot, no sequence of registrations, releases, enables, disables
  and interrupts, in any order and with any drivers that themselves only act through these
  operations, reaches a state in which a line with a positive disable depth is not
  marked disabled.
\<close>

theorem nesting_reachable:
  assumes "keeps_ok env" "init_IRQ (mmsp2_init_irq io) (boot_sys io h) = Some s0"
    and "(irq_step env (mmsp2_demux n io env))\<^sup>*\<^sup>* s0 s"
  shows "depth (irq_desc s irq) \<noteq> 0 \<longrightarrow> has (st irq s) IRQ_DISABLED"
  using irq_steps_ok [OF assms(3,1) mmsp2_demux_ok [OF assms(1)] boot_sys_ok [OF assms(2)]]
  by (simp add: sys_ok_def desc_ok_def)

section \<open>Instances on the register file\<close>

theorem get_irqnr_lowest_witness:
  "fst (get_irqnr_and_base regfile
     ((\<lambda>_. 0) (io_p2v INTMASK := 0x20, io_p2v INTPEND := 0x420))) = Some 10"
proof -
  define h :: "u32 \<Rightarrow> u32" where "h = (\<lambda>_. 0) (io_p2v INTMASK := 0x20, io_p2v INTPEND := 0x420)"
  have r: "rd32 regfile (io_p2v INTMASK) h = (0x20, h)" "rd32 regfile (io_p2v INTPEND) h = (0x420, h)"
    by (simp_all add: regfile_def h_def irq_reg_addrs)
  have e: "(0x420 :: u32) = 2 ^ 10 OR 2 ^ 5" "(0x20 :: u32) = 2 ^ 5" by simp_all
  have b1: "bit (0x420 :: u32) i \<longleftrightarrow> i = 10 \<or> i = 5" for i
    unfolding e(1) bit_or_iff bit_exp_word by auto
  have b2: "bit (0x20 :: u32) i \<longleftrightarrow> i = 5" for i
    unfolding e(2) bit_exp_word by auto
  obtain x h' where x: "get_irqnr_and_base regfile h = (x, h')" by fastforce
  have "x = Some 10"
  proof (cases x)
    case None
    with get_irqnr_lowest [OF r] x have "\<forall>i < 32. bit (0x420 :: u32) i \<longrightarrow> bit (0x20 :: u32) i" by simp
    then have "bit (0x420 :: u32) 10 \<longrightarrow> bit (0x20 :: u32) 10" by (rule allE [of _ 10]) simp
    then show ?thesis by (simp only: b1 b2) simp
  next
    case (Some n)
    with get_irqnr_lowest [OF r] x have "bit (0x420 :: u32) n \<and> \<not> bit (0x20 :: u32) n" by simp
    with Some show ?thesis by (simp only: b1 b2) auto
  qed
  with x show ?thesis by (simp add: h_def)
qed

theorem timer_demux_all_witness:
  "mmsp2_timer_demux_handler regfile (\<lambda>i s. Some (s\<lparr>kstat_irqs := (kstat_irqs s)(i := kstat_irqs s i + 1)\<rparr>))
     (boot_sys regfile ((\<lambda>_. 0) (io_p2v TSTATUS := 6))) \<noteq> None"
proof -
  have r: "REGW_rd regfile TSTATUS (hw (boot_sys regfile ((\<lambda>_. 0) (io_p2v TSTATUS := 6))))
      = (6, (\<lambda>_. 0) (io_p2v TSTATUS := 6))"
    by (simp add: REGW_rd_def regfile_def boot_sys_def)
  have e: "each (\<lambda>i s. Some (f i s)) xs s \<noteq> None" for f xs and s :: "(u32 \<Rightarrow> u32) irq_sys"
    by (induction xs arbitrary: s) auto
  show ?thesis unfolding timer_demux_all [OF r] using e by (auto split: bind_splits)
qed

theorem uart_demux_lowest_witness:
  "map_option (\<lambda>s. kstat_irqs s (IRQ_UART_TXD0 + 4)) (mmsp2_uart_demux_handler regfile
     (\<lambda>i s. Some (s\<lparr>kstat_irqs := (kstat_irqs s)(i := kstat_irqs s i + 1)\<rparr>))
     (boot_sys regfile ((\<lambda>_. 0) (io_p2v INTSTATREG := 0x30)))) = Some 1"
proof -
  have r: "REGW_rd regfile INTSTATREG (hw (boot_sys regfile ((\<lambda>_. 0) (io_p2v INTSTATREG := 0x30))))
      = (0x30, (\<lambda>_. 0) (io_p2v INTSTATREG := 0x30))"
    by (simp add: REGW_rd_def regfile_def boot_sys_def)
  have "set_bits16 0x30 = [4, 5]" by code_simp
  then show ?thesis unfolding uart_demux_lowest [OF r] by (simp add: boot_sys_def)
qed

theorem boot_lines_witness:
  "\<exists>s. init_IRQ (mmsp2_init_irq regfile) (boot_sys regfile (\<lambda>_. 0)) = Some s
     \<and> chip (irq_desc s 14) = CHIP_MAIN \<and> can_request_irq 14 0 s
     \<and> \<not> can_request_irq 5 0 s \<and> \<not> bit (hw s (io_p2v INTMASK)) 5"
proof -
  have "(14 :: nat) < NR_IRQS" "(5 :: nat) < NR_IRQS" "(5 :: nat) < MMSP2_IRQS"
    by (simp_all add: irq_numbers)
  moreover obtain s where s: "init_IRQ (mmsp2_init_irq regfile) (boot_sys regfile (\<lambda>_. 0)) = Some s"
    and c: "\<And>irq. irq < NR_IRQS \<Longrightarrow> chip (irq_desc s irq) = (
           if irq \<in> set reserved_irqs then No_irq_chip else if irq < MMSP2_IRQS then CHIP_MAIN
           else if irq < IRQ_UART_START then CHIP_TIMER else CHIP_UART)"
    and r: "\<And>irq. irq < NR_IRQS \<Longrightarrow> can_request_irq irq 0 s \<longleftrightarrow>
           irq \<notin> set reserved_irqs \<and> irq \<noteq> IRQ_TIMER \<and> irq \<noteq> IRQ_UART"
    and m: "\<And>i. i < MMSP2_IRQS \<Longrightarrow> bit (hw s (io_p2v INTMASK)) i \<longleftrightarrow> i \<noteq> IRQ_TIMER \<and> i \<noteq> IRQ_UART"
    using boot_lines [OF regfile_intmask, of "\<lambda>_. 0" 0]
    by (elim exE conjE) (rule that, assumption, (drule spec, drule mp, assumption, elim conjE, assumption)+, blast)
  ultimately show ?thesis
    using c [of 14] r [of 14] r [of 5] m [of 5] by (intro exI [of _ s]) (simp add: irq_numbers)
qed

theorem nesting_reachable_witness:
  "\<exists>s0 s. init_IRQ (mmsp2_init_irq regfile) (boot_sys regfile (\<lambda>_. 0)) = Some s0
     \<and> disable_irq 14 s0 = Some s \<and> depth (irq_desc s 14) = 2 \<and> has (st 14 s) IRQ_DISABLED"
proof -
  have env: "keeps_ok answering" by (simp add: keeps_ok_def answering_def)
  from mmsp2_boot [of regfile "\<lambda>_. 0" "\<lambda>_. 0"] obtain s0 where
    s0: "init_IRQ (mmsp2_init_irq regfile) (boot_sys regfile (\<lambda>_. 0)) = Some s0"
    and d: "irq_desc s0 = line_after_boot" by blast
  have dep: "depth (irq_desc s0 14) = 1" using d line_flags(4) [of 14] by (simp add: irq_numbers)
  obtain s where s: "disable_irq 14 s0 = Some s" "depth (irq_desc s 14) = 2"
    using disable_irq_again [of 14 s0] dep by (simp add: NR_IRQS_def)
  have "(irq_step answering (mmsp2_demux 1 regfile answering))\<^sup>*\<^sup>* s0 s"
    using step_disable [OF s(1)] by blast
  from nesting_reachable [OF env s0 this, of 14] s(2) have "has (st 14 s) IRQ_DISABLED" by simp
  with s0 s show ?thesis by blast
qed

theorem uart_line_registers_witness:
  "mmsp2_uart_mask_irq regfile (IRQ_UART_START + 4 * 1 + 0) (\<lambda>_. 0xffff) 0xfc001222 = 0xfdff"
  using uart_line_registers [of 1 0 regfile "\<lambda>_. 0xffff"]
  by (simp add: regfile_def uart_enable_reg_def uart_enable_bit_def)


definition main_sys :: "(u32 \<Rightarrow> u32) irq_sys" where
  "main_sys = (boot_sys regfile (\<lambda>_. 0))\<lparr>
     irq_desc := (\<lambda>_. \<lparr>handle_irq = Some Handle_level_irq, chip = CHIP_MAIN, action = [act 0 1],
       status = 0, depth = 0, irq_count = 0, irqs_unhandled = 0, last_unhandled = 0\<rparr>),
     chips := (\<lambda>_. irq_chip_set_defaults (mmsp2_main_chip regfile))\<rparr>"

theorem level_irq_masked_witness:
  "handle_level_irq (masked_only (\<lambda>h. h (io_p2v INTMASK)) 14 answering) 14 main_sys
     = handle_level_irq answering 14 main_sys
   \<and> (\<exists>s'. handle_level_irq answering 14 main_sys = Some s'
        \<and> bit (hw s' (io_p2v INTMASK)) 14 = has (st 14 s') IRQ_DISABLED)"
proof -
  have q: "quiet_handlers (\<lambda>h. h (io_p2v INTMASK)) answering"
    by (simp add: quiet_handlers_def answering_def)
  have c: "chip_of 14 main_sys = irq_chip_set_defaults (mmsp2_main_chip regfile)"
    by (simp add: chip_of_def main_sys_def)
  have "(14 :: nat) < MMSP2_IRQS" by (simp add: MMSP2_IRQS_def)
  from level_irq_masked [OF regfile_intmask q this c] show ?thesis
    by (auto simp: main_sys_def)
qed

end
