(* ===== verification/Clocksource.thy ===== *)
theory Clocksource
  imports Prelude
begin

text \<open>
  The registry of clock sources (\<^verbatim>\<open>kernel/time/clocksource.c\<close>) and the scaled arithmetic of
  clock sources and clock event devices (\<^verbatim>\<open>include/linux/clocksource.h\<close>,
  \<^verbatim>\<open>include/linux/clockchips.h\<close>). The structures
  are objects at addresses; the registry holds a list of addresses. The division macro
  \<^verbatim>\<open>do_div\<close> is the 64 by 32 bit division its comment specifies, \<open>None\<close> for a zero divisor.
\<close>

section \<open>Scaled arithmetic\<close>

definition do_div :: "u64 \<Rightarrow> u32 \<Rightarrow> u64 option" where
  "do_div n b = (if b = 0 then None else Some (n div ucast b))"

definition div_sc :: "u32 \<Rightarrow> u32 \<Rightarrow> nat \<Rightarrow> u32 option" where
  "div_sc ticks nsec shift = (
     let tmp = push_bit shift (ucast ticks :: u64)
     in map_option ucast (do_div tmp nsec))"

definition clocksource_khz2mult :: "u32 \<Rightarrow> nat \<Rightarrow> u32 option" where
  "clocksource_khz2mult khz shift_constant = (
     let tmp = push_bit shift_constant (1000000 :: u64);
         tmp = tmp + ucast (khz div 2)
     in map_option ucast (do_div tmp khz))"

definition clocksource_hz2mult :: "u32 \<Rightarrow> nat \<Rightarrow> u32 option" where
  "clocksource_hz2mult hz shift_constant = (
     let tmp = push_bit shift_constant (1000000000 :: u64);
         tmp = tmp + ucast (hz div 2)
     in map_option ucast (do_div tmp hz))"

section \<open>The registry\<close>

record clocksource =
  cs_name :: string
  cs_rating :: int
  cs_mask :: u64
  cs_mult :: u32
  cs_shift :: nat
  cs_flags :: u32

definition CLOCK_SOURCE_IS_CONTINUOUS :: u32 where "CLOCK_SOURCE_IS_CONTINUOUS = 1"
definition CLOCK_SOURCE_VALID_FOR_HRES :: u32 where "CLOCK_SOURCE_VALID_FOR_HRES = 0x20"

definition cyc2ns :: "clocksource \<Rightarrow> u64 \<Rightarrow> u64" where
  "cyc2ns cs cycles = drop_bit (cs_shift cs) (cycles * ucast (cs_mult cs))"

record cs_reg =
  cs_at :: "nat \<Rightarrow> clocksource"
  clocksource_list :: "nat list"
  curr_clocksource :: "nat option"
  next_clocksource :: "nat option"
  clocksource_override :: "nat option"
  override_name :: string
  finished_booting :: bool

definition clocksource_get_next :: "cs_reg \<Rightarrow> nat option \<times> cs_reg" where
  "clocksource_get_next r = (
     let r = (if next_clocksource r \<noteq> None \<and> finished_booting r
              then r\<lparr>curr_clocksource := next_clocksource r, next_clocksource := None\<rparr> else r)
     in (curr_clocksource r, r))"

definition select_clocksource :: "cs_reg \<Rightarrow> nat option" where
  "select_clocksource r = (
     case clocksource_list r of
       [] \<Rightarrow> None
     | first # _ \<Rightarrow>
         let next = (case clocksource_override r of Some o' \<Rightarrow> o' | None \<Rightarrow> first)
         in if Some next = curr_clocksource r then None else Some next)"

text \<open>
  The loop of \<^verbatim>\<open>clocksource_enqueue\<close>: \<open>None\<close> when \<open>c\<close> is met, else how many entries stand
  before the place to insert.
\<close>

fun enqueue_place :: "(nat \<Rightarrow> clocksource) \<Rightarrow> nat \<Rightarrow> nat list \<Rightarrow> nat \<Rightarrow> nat \<Rightarrow> nat option" where
  "enqueue_place m c [] i entry = Some entry"
| "enqueue_place m c (tmp # rest) i entry =
     (if tmp = c then None
      else enqueue_place m c rest (i + 1)
             (if cs_rating (m tmp) \<ge> cs_rating (m c) then i + 1 else entry))"

definition clocksource_enqueue :: "nat \<Rightarrow> cs_reg \<Rightarrow> (errno + unit) \<times> cs_reg" where
  "clocksource_enqueue c r = (
     case enqueue_place (cs_at r) c (clocksource_list r) 0 0 of
       None \<Rightarrow> (Inl EBUSY, r)
     | Some e \<Rightarrow>
         let r = r\<lparr>clocksource_list :=
                     take e (clocksource_list r) @ [c] @ drop e (clocksource_list r)\<rparr>
         in (Inr (), if length (cs_name (cs_at r c)) = length (override_name r)
                        \<and> cs_name (cs_at r c) = override_name r
                     then r\<lparr>clocksource_override := Some c\<rparr> else r))"

definition clocksource_check_watchdog :: "nat \<Rightarrow> cs_reg \<Rightarrow> cs_reg" where
  "clocksource_check_watchdog c r = (
     if cs_flags (cs_at r c) AND CLOCK_SOURCE_IS_CONTINUOUS \<noteq> 0
     then r\<lparr>cs_at := (cs_at r)(c := (cs_at r c)\<lparr>cs_flags :=
              cs_flags (cs_at r c) OR CLOCK_SOURCE_VALID_FOR_HRES\<rparr>)\<rparr>
     else r)"

definition clocksource_register :: "nat \<Rightarrow> cs_reg \<Rightarrow> (errno + unit) \<times> cs_reg" where
  "clocksource_register c r = (
     case clocksource_enqueue c r of
       (Inl e, r) \<Rightarrow> (Inl e, r)
     | (Inr _, r) \<Rightarrow>
         (Inr (), clocksource_check_watchdog c (r\<lparr>next_clocksource := select_clocksource r\<rparr>)))"

definition clocksource_change_rating :: "nat \<Rightarrow> int \<Rightarrow> cs_reg \<Rightarrow> cs_reg" where
  "clocksource_change_rating c rating r = (
     let r = r\<lparr>clocksource_list := remove1 c (clocksource_list r)\<rparr>;
         r = r\<lparr>cs_at := (cs_at r)(c := (cs_at r c)\<lparr>cs_rating := rating\<rparr>)\<rparr>;
         (_, r) = clocksource_enqueue c r
     in r\<lparr>next_clocksource := select_clocksource r\<rparr>)"

section \<open>The list is ordered by rating\<close>

definition by_rating :: "(nat \<Rightarrow> clocksource) \<Rightarrow> nat list \<Rightarrow> bool" where
  "by_rating m xs \<longleftrightarrow> sorted_wrt (\<lambda>a b. cs_rating (m a) \<ge> cs_rating (m b)) xs \<and> distinct xs"

lemma by_rating_Cons:
  "by_rating m (x # xs) \<longleftrightarrow>
     (\<forall>y \<in> set xs. cs_rating (m y) \<le> cs_rating (m x)) \<and> x \<notin> set xs \<and> by_rating m xs"
  by (auto simp: by_rating_def)

lemma enqueue_place_member: "c \<in> set xs \<Longrightarrow> enqueue_place m c xs i e = None"
  by (induction xs arbitrary: i e) auto

lemma enqueue_place_none:
  "c \<notin> set xs \<Longrightarrow> \<forall>x \<in> set xs. cs_rating (m x) < cs_rating (m c) \<Longrightarrow>
     enqueue_place m c xs i e = Some e"
  by (induction xs arbitrary: i e) auto

lemma enqueue_place_sorted:
  assumes "by_rating m xs" "c \<notin> set xs"
  shows "\<exists>us vs. xs = us @ vs \<and> (\<forall>u \<in> set us. cs_rating (m u) \<ge> cs_rating (m c))
    \<and> (\<forall>v \<in> set vs. cs_rating (m v) < cs_rating (m c))
    \<and> enqueue_place m c xs i e = Some (if us = [] then e else i + length us)"
  using assms
proof (induction xs arbitrary: i e)
  case (Cons x xs)
  show ?case
  proof (cases "cs_rating (m x) \<ge> cs_rating (m c)")
    case True
    have pre: "by_rating m xs" "c \<notin> set xs" using Cons.prems by (simp_all add: by_rating_Cons)
    from Cons.IH [OF pre, of "i + 1" "i + 1"] obtain us vs where
      uv: "xs = us @ vs" "\<forall>u \<in> set us. cs_rating (m u) \<ge> cs_rating (m c)"
        "\<forall>v \<in> set vs. cs_rating (m v) < cs_rating (m c)"
        "enqueue_place m c xs (i + 1) (i + 1) = Some (if us = [] then i + 1 else i + 1 + length us)"
      by blast
    then have "x # xs = (x # us) @ vs \<and> (\<forall>u \<in> set (x # us). cs_rating (m u) \<ge> cs_rating (m c))
        \<and> enqueue_place m c (x # xs) i e = Some (if x # us = [] then e else i + length (x # us))"
      using True Cons.prems(2) by (cases us) simp_all
    with uv(3) show ?thesis by blast
  next
    case False
    then have "\<forall>v \<in> set (x # xs). cs_rating (m v) < cs_rating (m c)"
      using Cons.prems(1) by (auto simp: by_rating_Cons)
    with enqueue_place_none [OF Cons.prems(2) this, of i e]
    have "x # xs = [] @ x # xs \<and> (\<forall>u \<in> set []. cs_rating (m u) \<ge> cs_rating (m c))
        \<and> (\<forall>v \<in> set (x # xs). cs_rating (m v) < cs_rating (m c))
        \<and> enqueue_place m c (x # xs) i e = Some (if [] = [] then e else i + length [])" by simp
    then show ?thesis by blast
  qed
qed simp

lemma clocksource_enqueue_list:
  assumes "by_rating (cs_at r) (clocksource_list r)" "c \<notin> set (clocksource_list r)"
  shows "\<exists>us vs r'. clocksource_enqueue c r = (Inr (), r') \<and> clocksource_list r = us @ vs
    \<and> clocksource_list r' = us @ c # vs
    \<and> (\<forall>u \<in> set us. cs_rating (cs_at r u) \<ge> cs_rating (cs_at r c))
    \<and> (\<forall>v \<in> set vs. cs_rating (cs_at r v) < cs_rating (cs_at r c)) \<and> cs_at r' = cs_at r"
proof -
  from enqueue_place_sorted [OF assms, of 0 0] obtain us vs where
    "clocksource_list r = us @ vs" "\<forall>u \<in> set us. cs_rating (cs_at r u) \<ge> cs_rating (cs_at r c)"
    "\<forall>v \<in> set vs. cs_rating (cs_at r v) < cs_rating (cs_at r c)"
    "enqueue_place (cs_at r) c (clocksource_list r) 0 0 = Some (if us = [] then 0 else 0 + length us)"
    by blast
  moreover have "(if us = [] then 0 else 0 + length us) = length us" by simp
  ultimately show ?thesis by (auto simp: clocksource_enqueue_def Let_def)
qed

lemma by_rating_insert:
  assumes "by_rating m (us @ vs)" "c \<notin> set (us @ vs)"
    and "\<forall>u \<in> set us. cs_rating (m u) \<ge> cs_rating (m c)"
    and "\<forall>v \<in> set vs. cs_rating (m v) < cs_rating (m c)"
  shows "by_rating m (us @ c # vs)"
  using assms by (auto simp: by_rating_def sorted_wrt_append)

lemma by_rating_remove: "by_rating m xs \<Longrightarrow> by_rating m (remove1 c xs)"
proof (induction xs)
  case (Cons x xs)
  then show ?case
    using set_remove1_subset [of c xs] by (auto simp: by_rating_Cons)
qed simp

lemma by_rating_cong:
  "(\<And>x. x \<in> set xs \<Longrightarrow> cs_rating (m x) = cs_rating (m' x)) \<Longrightarrow> by_rating m xs = by_rating m' xs"
  unfolding by_rating_def by (metis (mono_tags, lifting) sorted_wrt_mono_rel)

text \<open>
  C28. Registering a clock source, or changing the rating of one, keeps the list ordered by
  falling rating; a new source goes behind those rated as high as it, and registering one twice
  is refused with nothing changed.
\<close>

theorem clocksource_list_ordered:
  assumes "by_rating (cs_at r) (clocksource_list r)"
  shows "(case clocksource_register c r of
      (Inr _, r') \<Rightarrow> c \<notin> set (clocksource_list r) \<and> by_rating (cs_at r') (clocksource_list r')
         \<and> set (clocksource_list r') = insert c (set (clocksource_list r))
    | (Inl e, r') \<Rightarrow> e = EBUSY \<and> c \<in> set (clocksource_list r) \<and> r' = r)
    \<and> (let r' = clocksource_change_rating c rating r
       in by_rating (cs_at r') (clocksource_list r') \<and> cs_rating (cs_at r' c) = rating)"
proof
  show "case clocksource_register c r of
      (Inr _, r') \<Rightarrow> c \<notin> set (clocksource_list r) \<and> by_rating (cs_at r') (clocksource_list r')
         \<and> set (clocksource_list r') = insert c (set (clocksource_list r))
    | (Inl e, r') \<Rightarrow> e = EBUSY \<and> c \<in> set (clocksource_list r) \<and> r' = r"
  proof (cases "c \<in> set (clocksource_list r)")
    case True
    then show ?thesis
      by (simp add: clocksource_register_def clocksource_enqueue_def enqueue_place_member)
  next
    case False
    from clocksource_enqueue_list [OF assms False] obtain us vs r1 where
      r1: "clocksource_enqueue c r = (Inr (), r1)" "clocksource_list r = us @ vs"
        "clocksource_list r1 = us @ c # vs"
        "\<forall>u \<in> set us. cs_rating (cs_at r u) \<ge> cs_rating (cs_at r c)"
        "\<forall>v \<in> set vs. cs_rating (cs_at r v) < cs_rating (cs_at r c)" "cs_at r1 = cs_at r" by blast
    have "by_rating (cs_at r) (us @ c # vs)"
      using by_rating_insert [of "cs_at r" us vs c] assms False r1 by simp
    moreover define r2 where "r2 = clocksource_check_watchdog c
        (r1\<lparr>next_clocksource := select_clocksource r1\<rparr>)"
    moreover have "clocksource_list r2 = us @ c # vs" "cs_rating (cs_at r2 x) = cs_rating (cs_at r x)" for x
      by (simp_all add: r2_def clocksource_check_watchdog_def r1)
    ultimately have "by_rating (cs_at r2) (clocksource_list r2)"
      using by_rating_cong [of "us @ c # vs" "cs_at r2" "cs_at r"] by simp
    then show ?thesis
      using r1 False by (simp add: clocksource_register_def r2_def [symmetric] \<open>clocksource_list r2 = us @ c # vs\<close>)
  qed
next
  define r0 where "r0 = r\<lparr>clocksource_list := remove1 c (clocksource_list r),
      cs_at := (cs_at r)(c := (cs_at r c)\<lparr>cs_rating := rating\<rparr>)\<rparr>"
  have c: "c \<notin> set (clocksource_list r0)" using assms by (simp add: r0_def by_rating_def)
  have "by_rating (cs_at r) (remove1 c (clocksource_list r))" by (rule by_rating_remove [OF assms])
  then have "by_rating (cs_at r0) (clocksource_list r0)"
    using c by (subst by_rating_cong [where m' = "cs_at r"]) (auto simp: r0_def)
  from clocksource_enqueue_list [OF this c] by_rating_insert [of "cs_at r0" _ _ c] this c
  have "by_rating (cs_at (snd (clocksource_enqueue c r0))) (clocksource_list (snd (clocksource_enqueue c r0)))
      \<and> cs_at (snd (clocksource_enqueue c r0)) = cs_at r0" by auto
  moreover have "clocksource_change_rating c rating r = (snd (clocksource_enqueue c r0))
      \<lparr>next_clocksource := select_clocksource (snd (clocksource_enqueue c r0))\<rparr>"
    by (simp add: clocksource_change_rating_def Let_def case_prod_beta r0_def)
  moreover have "cs_rating (cs_at r0 c) = rating" by (simp add: r0_def)
  ultimately show "let r' = clocksource_change_rating c rating r
       in by_rating (cs_at r') (clocksource_list r') \<and> cs_rating (cs_at r' c) = rating"
    by (elim conjE) simp
qed

text \<open>
  C29. With no override by name, the source the core switches to is the one rated best, unless that
  one is in use already.
\<close>

theorem select_clocksource_best:
  assumes "by_rating (cs_at r) (clocksource_list r)" "clocksource_override r = None"
    and "clocksource_list r \<noteq> []"
  shows "\<exists>c \<in> set (clocksource_list r).
      (\<forall>d \<in> set (clocksource_list r). cs_rating (cs_at r d) \<le> cs_rating (cs_at r c))
      \<and> select_clocksource r = (if curr_clocksource r = Some c then None else Some c)"
  using assms by (cases "clocksource_list r") (auto simp: select_clocksource_def by_rating_Cons)

definition two_sources :: cs_reg where
  "two_sources = \<lparr>cs_at = (\<lambda>i. \<lparr>cs_name = ''c'', cs_rating = [200, 1, 300] ! i, cs_mask = 0,
       cs_mult = 0, cs_shift = 0, cs_flags = 1\<rparr>), clocksource_list = [0, 1],
     curr_clocksource = Some 1, next_clocksource = None, clocksource_override = None,
     override_name = [], finished_booting = False\<rparr>"

theorem clocksource_list_ordered_witness:
  "by_rating (cs_at two_sources) (clocksource_list two_sources)
   \<and> clocksource_list (snd (clocksource_register 2 two_sources)) = [2, 0, 1]
   \<and> fst (clocksource_register 1 two_sources) = Inl EBUSY
   \<and> cs_rating (cs_at (clocksource_change_rating 1 250 two_sources) 1) = 250"
proof -
  have pre: "by_rating (cs_at two_sources) (clocksource_list two_sources)"
    by (simp add: by_rating_def two_sources_def)
  show ?thesis
    using pre clocksource_list_ordered [OF pre, of 1 250]
    by (simp add: clocksource_register_def clocksource_enqueue_def two_sources_def
        clocksource_check_watchdog_def Let_def)
qed

theorem select_clocksource_best_witness:
  "select_clocksource two_sources = Some 0"
proof -
  have pre: "by_rating (cs_at two_sources) (clocksource_list two_sources)"
    by (simp add: by_rating_def two_sources_def)
  show ?thesis
    using select_clocksource_best [OF pre] by (simp add: two_sources_def)
qed

end
