(* ===== verification/Mmsp2_Timer.thy ===== *)
theory Mmsp2_Timer
  imports Mmsp2_Irq Clocksource
begin

text \<open>
  The system timer of the MP2520F (\<^verbatim>\<open>arch/arm/mach-mp2520f/timecs.c\<close>) as a clock event device
  and a clock source, and the clock event layer that programs it
  (\<^verbatim>\<open>kernel/time/clockevents.c\<close>). Callbacks of the device are arguments of the layer's
  functions; the tick layer that a new device is announced to is the argument \<open>register\<close>.
\<close>

section \<open>The clock event layer\<close>

datatype clock_event_mode = CLOCK_EVT_MODE_UNUSED | CLOCK_EVT_MODE_SHUTDOWN
  | CLOCK_EVT_MODE_PERIODIC | CLOCK_EVT_MODE_ONESHOT | CLOCK_EVT_MODE_RESUME

record clock_event_device =
  ce_max_delta_ns :: u32
  ce_min_delta_ns :: u32
  ce_mult :: u32
  ce_shift :: nat
  ce_mode :: clock_event_mode
  ce_next_event :: u64

definition LONG_MAX :: u32 where "LONG_MAX = 0x7fffffff"
definition NSEC_PER_SEC :: u32 where "NSEC_PER_SEC = 1000000000"

definition clockevent_delta2ns :: "u32 \<Rightarrow> clock_event_device \<Rightarrow> u32 option" where
  "clockevent_delta2ns latch evt = (
     case do_div (push_bit (ce_shift evt) (ucast latch)) (ce_mult evt) of
       None \<Rightarrow> None
     | Some clc \<Rightarrow>
         let clc = (if clc < 1000 then 1000 else clc);
             clc = (if clc > ucast LONG_MAX then ucast LONG_MAX else clc)
         in Some (ucast clc))"

definition clockevents_set_mode ::
  "(clock_event_mode \<Rightarrow> 's \<Rightarrow> 's option) \<Rightarrow> clock_event_mode \<Rightarrow> clock_event_device \<Rightarrow> 's \<Rightarrow>
     (clock_event_device \<times> 's) option" where
  "clockevents_set_mode set_mode mode dev s = (
     if ce_mode dev \<noteq> mode then do { s \<leftarrow> set_mode mode s; Some (dev\<lparr>ce_mode := mode\<rparr>, s) }
     else Some (dev, s))"

text \<open>The ticks for a wait of \<open>delta\<close> nanoseconds, clamped to what the device can do.\<close>

definition event_ticks :: "clock_event_device \<Rightarrow> u64 \<Rightarrow> u32" where
  "event_ticks dev delta = (
     let delta = (if sint delta > uint (ce_max_delta_ns dev) then ucast (ce_max_delta_ns dev)
                  else delta);
         delta = (if sint delta < uint (ce_min_delta_ns dev) then ucast (ce_min_delta_ns dev)
                  else delta);
         clc = delta * ucast (ce_mult dev);
         clc = drop_bit (ce_shift dev) clc
     in ucast clc)"

definition clockevents_program_event ::
  "(u32 \<Rightarrow> 's \<Rightarrow> (errno + unit) \<times> 's) \<Rightarrow> clock_event_device \<Rightarrow> u64 \<Rightarrow> u64 \<Rightarrow> 's \<Rightarrow>
     (errno + unit) \<times> clock_event_device \<times> 's" where
  "clockevents_program_event set_next_event dev expires now s = (
     if sint expires < 0 then (Inl ETIME, dev, s)
     else let delta = expires - now in
       if sint delta \<le> 0 then (Inl ETIME, dev, s)
       else let dev = dev\<lparr>ce_next_event := expires\<rparr> in
         if ce_mode dev = CLOCK_EVT_MODE_SHUTDOWN then (Inr (), dev, s)
         else let (r, s) = set_next_event (event_ticks dev delta) s in (r, dev, s))"

section \<open>The timer\<close>

definition TCOUNT :: u32 where "TCOUNT = 0xc0000a00"
definition TMATCH0 :: u32 where "TMATCH0 = 0xc0000a04"
definition TCONTROL :: u32 where "TCONTROL = 0xc0000a14"
definition TIMER_EN :: u16 where "TIMER_EN = 1"

text \<open>The comparison at the end is one of signed 32-bit values.\<close>

definition mp2520f_set_next_event :: "'h mmio \<Rightarrow> u32 \<Rightarrow> 'h \<Rightarrow> (errno + unit) \<times> 'h" where
  "mp2520f_set_next_event io evt h = (
     let (c, h) = REG_rd io TCOUNT h;
         h = REG_wr io TMATCH0 (c + evt) h;
         (m, h) = REG_rd io TMATCH0 h;
         (c, h) = REG_rd io TCOUNT h
     in (if sint (m - c) < 0 then Inl ETIME else Inr (), h))"

text \<open>
  The table of mode names that the debug print reads has four entries; the fifth mode is
  outside it.
\<close>

fun clock_event_mode_label :: "clock_event_mode \<Rightarrow> string option" where
  "clock_event_mode_label CLOCK_EVT_MODE_PERIODIC = Some ''CLOCK_EVT_MODE_PERIODIC''"
| "clock_event_mode_label CLOCK_EVT_MODE_ONESHOT = Some ''CLOCK_EVT_MODE_ONESHOT''"
| "clock_event_mode_label CLOCK_EVT_MODE_SHUTDOWN = Some ''CLOCK_EVT_MODE_SHUTDOWN''"
| "clock_event_mode_label CLOCK_EVT_MODE_UNUSED = Some ''CLOCK_EVT_MODE_UNUSED''"
| "clock_event_mode_label CLOCK_EVT_MODE_RESUME = None"

record 'h timer_sys =
  t_irq :: "'h irq_sys"
  t_cs :: cs_reg
  t_evt :: clock_event_device
  clockevent_mode :: clock_event_mode

definition t_hw :: "('h \<Rightarrow> 'h) \<Rightarrow> 'h timer_sys \<Rightarrow> 'h timer_sys" where
  "t_hw f s = s\<lparr>t_irq := (t_irq s)\<lparr>hw := f (hw (t_irq s))\<rparr>\<rparr>"

definition mp2520f_set_mode ::
  "'h mmio \<Rightarrow> clock_event_mode \<Rightarrow> 'h timer_sys \<Rightarrow> 'h timer_sys option" where
  "mp2520f_set_mode io mode s = (
     let s = t_hw (REGW_upd io TINTEN (\<lambda>v. v AND NOT 1)) s;
         s = (if mode \<noteq> clockevent_mode s then
                t_hw (\<lambda>h. let (c, h) = REG_rd io TCOUNT h;
                              h = REG_wr io TMATCH0 (c - 3) h
                          in REGW_upd io TSTATUS (\<lambda>v. v AND 1) h) s
              else s)
     in case (clock_event_mode_label (clockevent_mode s), clock_event_mode_label mode) of
       (Some _, Some _) \<Rightarrow>
         (let s = s\<lparr>clockevent_mode := mode\<rparr>
          in Some (case mode of
            CLOCK_EVT_MODE_ONESHOT \<Rightarrow>
              t_hw (\<lambda>h. REGW_upd io TCONTROL (\<lambda>v. v OR TIMER_EN)
                          (REGW_upd io TINTEN (\<lambda>v. v OR 1) h)) s
          | _ \<Rightarrow> s))
     | _ \<Rightarrow> None)"

definition clockevent_mp2520f :: clock_event_device where
  "clockevent_mp2520f = \<lparr>ce_max_delta_ns = 0, ce_min_delta_ns = 0, ce_mult = 0, ce_shift = 32,
     ce_mode = CLOCK_EVT_MODE_UNUSED, ce_next_event = 0\<rparr>"

text \<open>The fields \<^verbatim>\<open>mp2520f_clockevent_init\<close> fills in, from the peripheral clock.\<close>

definition clockevent_fill :: "u32 \<Rightarrow> clock_event_device \<Rightarrow> clock_event_device option" where
  "clockevent_fill pclk dev = do {
     m \<leftarrow> div_sc pclk NSEC_PER_SEC (ce_shift dev);
     dev \<leftarrow> Some (dev\<lparr>ce_mult := m\<rparr>);
     x \<leftarrow> clockevent_delta2ns 0xfffffffe dev;
     dev \<leftarrow> Some (dev\<lparr>ce_max_delta_ns := x\<rparr>);
     n \<leftarrow> clockevent_delta2ns 0xf dev;
     Some (dev\<lparr>ce_min_delta_ns := n\<rparr>)
   }"

definition mp2520f_clockevent_init ::
  "'h mmio \<Rightarrow> ('h timer_sys \<Rightarrow> 'h timer_sys option) \<Rightarrow> 'h timer_sys \<Rightarrow> 'h timer_sys option" where
  "mp2520f_clockevent_init io register s = do {
     (pclk, h) \<leftarrow> mmsp2_get_pclk io (hw (t_irq s));
     dev \<leftarrow> clockevent_fill pclk (t_evt s);
     register (t_hw (\<lambda>_. h) (s\<lparr>t_evt := dev\<rparr>))
   }"

definition mp2520f_get_cycles :: "'h mmio \<Rightarrow> 'h \<Rightarrow> u64 \<times> 'h" where
  "mp2520f_get_cycles io h = (let (c, h) = REG_rd io TCOUNT h in (ucast c, h))"

definition clocksource_mp2520f :: clocksource where
  "clocksource_mp2520f = \<lparr>cs_name = ''mp2520f_timer1'', cs_rating = 200, cs_mask = 0xffffffff,
     cs_mult = 0, cs_shift = 20, cs_flags = CLOCK_SOURCE_IS_CONTINUOUS\<rparr>"

text \<open>\<open>a\<close> is the address of the static structure.\<close>

definition mp2520f_clocksource_init ::
  "'h mmio \<Rightarrow> nat \<Rightarrow> 'h timer_sys \<Rightarrow> 'h timer_sys option" where
  "mp2520f_clocksource_init io a s = do {
     (pclk, h) \<leftarrow> mmsp2_get_pclk io (hw (t_irq s));
     m \<leftarrow> clocksource_hz2mult pclk (cs_shift (cs_at (t_cs s) a));
     cs \<leftarrow> Some ((t_cs s)\<lparr>cs_at := (cs_at (t_cs s))(a := (cs_at (t_cs s) a)\<lparr>cs_mult := m\<rparr>)\<rparr>);
     Some (t_hw (\<lambda>_. h) (s\<lparr>t_cs := snd (clocksource_register a cs)\<rparr>))
   }"

definition mp2520f_timer_hardware_init :: "'h mmio \<Rightarrow> 'h timer_sys \<Rightarrow> 'h timer_sys" where
  "mp2520f_timer_hardware_init io s =
     t_hw (\<lambda>h. REGW_upd io TCONTROL (\<lambda>v. v AND NOT TIMER_EN) (REGW_wr io TSTATUS 0xffff h)) s"

definition IRQF_DISABLED :: u32 where "IRQF_DISABLED = 0x20"
definition IRQF_TIMER :: u32 where "IRQF_TIMER = 0x200"
definition IRQF_IRQPOLL :: u32 where "IRQF_IRQPOLL = 0x1000"

text \<open>\<open>TIMER_HANDLER\<close> is the number of \<^verbatim>\<open>mp2520f_timer_interrupt\<close> among the handlers.\<close>

definition TIMER_HANDLER :: nat where "TIMER_HANDLER = 1"

definition mp2520f_timer_irq :: irqaction where
  "mp2520f_timer_irq = \<lparr>ia_handler = TIMER_HANDLER,
     ia_flags = IRQF_DISABLED OR IRQF_TIMER OR IRQF_IRQPOLL,
     ia_name = ''MP2520F Timer 1'', ia_dev_id = 0\<rparr>"

definition mp2520f_timer_interrupt ::
  "('h irq_sys \<Rightarrow> 'h irq_sys option) \<Rightarrow> 'h irq_sys \<Rightarrow> (u32 \<times> 'h irq_sys) option" where
  "mp2520f_timer_interrupt event_handler s = do {
     s \<leftarrow> event_handler s;
     Some (IRQ_HANDLED, s)
   }"

definition mp2520f_timer_init ::
  "'h mmio \<Rightarrow> nat \<Rightarrow> ('h timer_sys \<Rightarrow> 'h timer_sys option) \<Rightarrow> 'h timer_sys \<Rightarrow> 'h timer_sys option" where
  "mp2520f_timer_init io a register s = do {
     s \<leftarrow> Some (mp2520f_timer_hardware_init io s);
     s \<leftarrow> mp2520f_clocksource_init io a s;
     s \<leftarrow> mp2520f_clockevent_init io register s;
     (_, q) \<leftarrow> setup_irq IRQ_TIMER_0 mp2520f_timer_irq (t_irq s);
     Some (s\<lparr>t_irq := q\<rparr>)
   }"

section \<open>The event device of the machine\<close>

lemma pclk_bounds:
  "28356 \<le> unat (calc_clk v div 4)" "unat (calc_clk v div 4) \<le> 242380800"
proof -
  let ?m = "unat v div 256 + 8" and ?d = "(unat v div 4 mod 64 + 2) * 2 ^ (unat v mod 4)"
  have m: "8 \<le> ?m" "?m \<le> 263" using unat_lt2p [of v] by auto
  have p: "unat v div 4 mod 64 + 2 \<le> 65" by simp
  have s: "2 ^ (unat v mod 4) \<le> (8 :: nat)"
    using power_increasing [of "unat v mod 4" 3 "2 :: nat"] by simp
  have p2: "2 \<le> unat v div 4 mod 64 + 2" and s1: "1 \<le> (2 :: nat) ^ (unat v mod 4)" by simp_all
  have d: "2 \<le> ?d" "?d \<le> 520"
    using mult_le_mono [OF p s] mult_le_mono [OF p2 s1] by linarith+
  have "8 * 7372800 div 520 \<le> ?m * 7372800 div 520" using m by (intro div_le_mono) simp
  also have "\<dots> \<le> ?m * 7372800 div ?d" using d by (intro div_le_mono2) auto
  finally have lo: "8 * 7372800 div 520 \<le> ?m * 7372800 div ?d" .
  have "?m * 7372800 div ?d \<le> 263 * 7372800 div ?d" using m by (intro div_le_mono) simp
  also have "\<dots> \<le> 263 * 7372800 div 2" using d by (intro div_le_mono2) auto
  finally have hi: "?m * 7372800 div ?d \<le> 263 * 7372800 div 2" .
  have x: "113427 \<le> unat (calc_clk v)" "unat (calc_clk v) \<le> 969523200"
    using lo hi unfolding calc_clk_formula by simp_all
  show "28356 \<le> unat (calc_clk v div 4)" "unat (calc_clk v div 4) \<le> 242380800"
    using x by (simp_all add: unat_div)
qed


lemma unat_do_div:
  assumes "do_div n b = Some q"
  shows "unat b > 0" "unat q = unat n div unat b"
  using assms by (auto simp: do_div_def unat_div unat_ucast_up unat_gt_0 split: if_splits)

lemma div_sc_mult:
  assumes "unat p \<le> 242380800"
  shows "\<exists>m. div_sc p NSEC_PER_SEC 32 = Some m \<and> unat m = unat p * 2 ^ 32 div 1000000000"
proof -
  have tmp: "unat (push_bit 32 (ucast p :: u64)) = unat p * 2 ^ 32"
    using assms by (subst unat_push_bit_nowrap) (simp_all add: unat_ucast_up)
  obtain q where q: "do_div (push_bit 32 (ucast p)) NSEC_PER_SEC = Some q"
    by (auto simp: do_div_def NSEC_PER_SEC_def)
  have u: "unat q = unat p * 2 ^ 32 div 1000000000"
    using unat_do_div(2) [OF q] tmp by (simp add: NSEC_PER_SEC_def)
  have "unat q < 2 ^ 32" unfolding u using assms by simp
  then show ?thesis using q u by (simp add: div_sc_def unat_ucast_small)
qed

lemma delta2ns_value:
  assumes "ce_shift dev = 32" "ce_mult dev \<noteq> 0"
  shows "\<exists>r. clockevent_delta2ns latch dev = Some r
    \<and> unat r = min 2147483647 (max 1000 (unat latch * 2 ^ 32 div unat (ce_mult dev)))"
proof -
  have tmp: "unat (push_bit 32 (ucast latch :: u64)) = unat latch * 2 ^ 32"
    using unat_lt2p [of latch] by (subst unat_push_bit_nowrap) (simp_all add: unat_ucast_up)
  obtain q where q: "do_div (push_bit 32 (ucast latch)) (ce_mult dev) = Some q"
    using assms(2) by (simp add: do_div_def)
  define x where "x = (if q < 1000 then 1000 else q)"
  define y where "y = (if x > ucast LONG_MAX then ucast LONG_MAX else x)"
  have L: "unat (ucast LONG_MAX :: u64) = 2147483647" by (simp add: LONG_MAX_def)
  have x: "unat x = max 1000 (unat q)" by (simp add: x_def word_less_nat_alt max_def)
  have y: "unat y = min 2147483647 (unat x)"
    by (simp add: y_def word_less_nat_alt L min_def)
  have "unat (ucast y :: u32) = unat y" using y by (intro unat_ucast_small) simp
  then show ?thesis
    using q x y unat_do_div(2) [OF q] tmp assms(1)
    by (simp add: clockevent_delta2ns_def Let_def x_def [symmetric] y_def [symmetric])
qed

lemma clockevent_fill_value:
  assumes "28356 \<le> unat p" "unat p \<le> 242380800"
  shows "\<exists>dev. clockevent_fill p clockevent_mp2520f = Some dev \<and> ce_shift dev = 32
    \<and> unat (ce_mult dev) = unat p * 2 ^ 32 div 1000000000
    \<and> unat (ce_max_delta_ns dev) = 2147483647 \<and> unat (ce_min_delta_ns dev) \<le> 2147483647
    \<and> ce_mode dev = CLOCK_EVT_MODE_UNUSED"
proof -
  obtain m where m: "div_sc p NSEC_PER_SEC 32 = Some m" "unat m = unat p * 2 ^ 32 div 1000000000"
    using div_sc_mult [OF assms(2)] by blast
  have "28356 * 2 ^ 32 div 1000000000 \<le> unat m"
    unfolding m(2) using assms(1) by (intro div_le_mono mult_le_mono1)
  then have m0: "m \<noteq> 0" by auto
  have "unat m \<le> 242380800 * 2 ^ 32 div 1000000000"
    unfolding m(2) using assms(2) by (intro div_le_mono mult_le_mono1)
  then have mhi: "unat m \<le> 2 ^ 31" by simp
  let ?d1 = "clockevent_mp2520f\<lparr>ce_mult := m\<rparr>"
  obtain x where x: "clockevent_delta2ns 0xfffffffe ?d1 = Some x"
      "unat x = min 2147483647 (max 1000 (unat (0xfffffffe :: u32) * 2 ^ 32 div unat m))"
    using delta2ns_value [of ?d1 "0xfffffffe"] m0 by (auto simp: clockevent_mp2520f_def)
  have "unat (0xfffffffe :: u32) * 2 ^ 32 div 2 ^ 31 \<le> unat (0xfffffffe :: u32) * 2 ^ 32 div unat m"
    using mhi m0 by (intro div_le_mono2) (simp_all add: unat_gt_0)
  then have xv: "unat x = 2147483647" unfolding x(2) by simp
  let ?d2 = "?d1\<lparr>ce_max_delta_ns := x\<rparr>"
  obtain n where n: "clockevent_delta2ns 0xf ?d2 = Some n" "unat n \<le> 2147483647"
    using delta2ns_value [of ?d2 "0xf"] m0 by (auto simp: clockevent_mp2520f_def)
  from m x n xv show ?thesis by (simp add: clockevent_fill_def clockevent_mp2520f_def)
qed

lemma event_ticks_value:
  assumes "ce_shift dev = 32" "unat (ce_max_delta_ns dev) = 2147483647"
    and "unat (ce_min_delta_ns dev) \<le> 2147483647" "0 < sint delta"
  shows "unat (event_ticks dev delta) =
    max (unat (ce_min_delta_ns dev)) (min 2147483647 (unat delta)) * unat (ce_mult dev) div 2 ^ 32"
proof -
  have pos: "sint delta = int (unat delta)" by (rule sint_nonneg) (use assms(4) in simp)
  define d1 where "d1 = (if sint delta > uint (ce_max_delta_ns dev)
      then ucast (ce_max_delta_ns dev) else delta)"
  define d2 where "d2 = (if sint d1 < uint (ce_min_delta_ns dev)
      then ucast (ce_min_delta_ns dev) else d1)"
  have u: "uint (ce_max_delta_ns dev) = int (unat (ce_max_delta_ns dev))"
    "uint (ce_min_delta_ns dev) = int (unat (ce_min_delta_ns dev))" by simp_all
  have d1: "unat d1 = min 2147483647 (unat delta)"
    unfolding d1_def pos u(1) assms(2) of_nat_less_iff by (simp add: unat_ucast_up assms(2) min_def)
  then have s1: "sint d1 = int (unat d1)" by (intro sint_small) simp
  have d2: "unat d2 = max (unat (ce_min_delta_ns dev)) (unat d1)"
    unfolding d2_def s1 u(2) of_nat_less_iff by (simp add: unat_ucast_up max_def)
  have le: "unat d2 \<le> 2147483647" using d2 d1 assms(3) by simp
  have m: "unat (ce_mult dev) < 2 ^ 32" using unat_lt2p [of "ce_mult dev"] by simp
  have prod: "unat d2 * unat (ce_mult dev) \<le> 2147483647 * 2 ^ 32"
    using le m by (intro mult_le_mono) simp_all
  have clc: "unat (d2 * ucast (ce_mult dev)) = unat d2 * unat (ce_mult dev)"
    by (subst unat_mult_nowrap) (use prod in \<open>simp_all add: unat_ucast_up\<close>)
  have t: "unat (drop_bit 32 (d2 * ucast (ce_mult dev))) = unat d2 * unat (ce_mult dev) div 2 ^ 32"
    by (simp only: unat_drop_bit clc)
  have "unat d2 * unat (ce_mult dev) div 2 ^ 32 < 2 ^ 32"
    using div_le_mono [OF prod, of "2 ^ 32"] by simp
  then have "unat (event_ticks dev delta) = unat d2 * unat (ce_mult dev) div 2 ^ 32"
    unfolding event_ticks_def Let_def d1_def [symmetric] d2_def [symmetric] assms(1)
    by (subst unat_ucast_small) (simp_all only: t, simp_all)
  then show ?thesis by (simp add: d1 d2)
qed

lemma scaled_bounds:
  fixes d p M e :: nat
  assumes "M = p * 2 ^ 32 div 1000000000" "e = d * M div 2 ^ 32" "d < 2 ^ 32"
  shows "e * 1000000000 \<le> d * p" "d * p < (e + 2) * 1000000000"
proof -
  have M1: "M * 1000000000 \<le> p * 2 ^ 32" unfolding assms(1) by (rule div_times_less_eq_dividend)
  have M2: "p * 2 ^ 32 < (M + 1) * 1000000000"
    unfolding assms(1) using dividend_less_div_times [of 1000000000 "p * 2 ^ 32"] by simp
  have e1: "e * 2 ^ 32 \<le> d * M" unfolding assms(2) by (rule div_times_less_eq_dividend)
  have e2: "d * M < (e + 1) * 2 ^ 32"
    unfolding assms(2) using dividend_less_div_times [of "2 ^ 32" "d * M"] by simp
  have "e * 2 ^ 32 * 1000000000 \<le> d * M * 1000000000" using e1 by (rule mult_le_mono1)
  also have "\<dots> \<le> d * (p * 2 ^ 32)" using mult_le_mono2 [OF M1, of d] by (simp only: mult.assoc)
  finally have "(e * 1000000000) * 2 ^ 32 \<le> (d * p) * 2 ^ 32" by (simp only: ac_simps)
  then show "e * 1000000000 \<le> d * p" by simp
  have "d * (p * 2 ^ 32) \<le> d * ((M + 1) * 1000000000)" using M2 by (intro mult_le_mono2) simp
  also have "\<dots> = (d * M + d) * 1000000000" by (simp add: algebra_simps)
  also have "\<dots> < ((e + 1) * 2 ^ 32 + 2 ^ 32) * 1000000000"
    using e2 assms(3) by (intro mult_strict_right_mono add_strict_mono) simp_all
  finally have "(d * p) * 2 ^ 32 < ((e + 2) * 1000000000) * 2 ^ 32" by (simp add: algebra_simps)
  then show "d * p < (e + 2) * 1000000000" by simp
qed



section \<open>Programming the match register\<close>

lemma timer_reg_addrs:
  "io_p2v TCOUNT = 0xfc000a00" "io_p2v TMATCH0 = 0xfc000a04" "io_p2v TCONTROL = 0xfc000a14"
  by (simp_all add: io_p2v_def TCOUNT_def TMATCH0_def TCONTROL_def)

text \<open>
  C26. A counter that has advanced by \<open>e\<close> between the two reads, and a match register that reads
  back what was stored: for waits and delays below 2^31 ticks the driver reports a missed event
  exactly when the counter has passed the match value.
\<close>

theorem set_next_event_missed:
  assumes "rd32 io (io_p2v TCOUNT) h = (c, h1)"
    and "rd32 io (io_p2v TMATCH0) (wr32 io (io_p2v TMATCH0) (c + evt) h1) = (c + evt, h2)"
    and "rd32 io (io_p2v TCOUNT) h2 = (c + e, h3)"
    and "unat evt < 2 ^ 31" "unat e < 2 ^ 31"
  shows "mp2520f_set_next_event io evt h = (if unat e > unat evt then Inl ETIME else Inr (), h3)"
proof -
  have "sint (evt - e) < 0 \<longleftrightarrow> unat e > unat evt"
    using assms(4,5) unat_lt2p [of e] unat_lt2p [of evt]
    by (simp add: sint_neg_iff unat_sub_if') linarith
  moreover have "c + evt - (c + e) = evt - e" by simp
  ultimately show ?thesis
    using assms(1-3) by (simp add: mp2520f_set_next_event_def io_defs)
qed

theorem set_next_event_missed_witness:
  "mp2520f_set_next_event regfile 5 (\<lambda>_. 7) =
     (Inr (), (\<lambda>_. 7) (io_p2v TMATCH0 := 12))"
  using set_next_event_missed [of regfile "\<lambda>_. 7" 7 "\<lambda>_. 7" 5 "(\<lambda>_. 7) (io_p2v TMATCH0 := 12)" 0
      "(\<lambda>_. 7) (io_p2v TMATCH0 := 12)"]
  by (simp add: regfile_def timer_reg_addrs)

section \<open>Modes\<close>

definition timer_regs :: "u32 set" where
  "timer_regs = {io_p2v TINTEN, io_p2v TSTATUS, io_p2v TCONTROL}"

lemma REGW_upd_plain:
  assumes "plain16 io view A" "io_p2v a \<in> A" "b \<in> A"
  shows "view (REGW_upd io a f h) b = (if b = io_p2v a then f (view h b) else view h b)"
  using plain16_rd [OF assms(1,2)] plain16_wr [OF assms(1,2,3)]
  by (simp add: io_defs)


definition timer_example :: "(u32 \<Rightarrow> u32) timer_sys" where
  "timer_example = \<lparr>t_irq = boot_sys regfile (\<lambda>_. 0), t_cs = two_sources,
     t_evt = clockevent_mp2520f, clockevent_mode = CLOCK_EVT_MODE_UNUSED\<rparr>"


end
