(* ===== verification/Ring.thy ===== *)
theory Ring
  imports Prelude "HOL-Library.Monad_Syntax"
begin

text \<open>
  Ring buffers. \<open>ring off n buf\<close> is the content of a cyclic buffer: \<open>n\<close> elements
  from index \<open>off\<close> on, wrapping at the end. The memory copies of the C library are
  partial: a copy that leaves the buffer is \<open>None\<close>.

  The locale \<open>fifo\<close> is the contract of a byte queue as its clients use it: a
  write accepts as much as there is room for, a read gives the oldest bytes, and neither leaves
  its memory. What follows for a client is proved once: the bytes read are the bytes accepted,
  in order, whatever the interleaving of reads and writes. The kernel's FIFO and the transmit
  buffer of the serial core are its instances.
\<close>

section \<open>Memory copies and cyclic content\<close>

definition memcpy_to :: "nat \<Rightarrow> 'a list \<Rightarrow> 'a list \<Rightarrow> 'a list option" where
  "memcpy_to off xs buf =
     (if off + length xs \<le> length buf
      then Some (take off buf @ xs @ drop (off + length xs) buf) else None)"

definition memcpy_from :: "nat \<Rightarrow> nat \<Rightarrow> 'a list \<Rightarrow> 'a list option" where
  "memcpy_from off n buf = (if off + n \<le> length buf then Some (take n (drop off buf)) else None)"

definition ring :: "nat \<Rightarrow> nat \<Rightarrow> 'a list \<Rightarrow> 'a list" where
  "ring off n buf = map (\<lambda>i. buf ! ((off + i) mod length buf)) [0..<n]"

lemma length_ring [simp]: "length (ring off n buf) = n"
  by (simp add: ring_def)

lemma ring_nth [simp]: "i < n \<Longrightarrow> ring off n buf ! i = buf ! ((off + i) mod length buf)"
  by (simp add: ring_def)

lemma ring_none [simp]: "ring off 0 buf = []"
  by (simp add: ring_def)

lemma ring_mod: "ring (off mod length buf) n buf = ring off n buf"
  by (simp add: ring_def mod_add_left_eq)

lemma take_ring: "take k (ring off n buf) = ring off (min k n) buf"
  by (rule nth_equalityI) simp_all

lemma drop_ring: "drop k (ring off n buf) = ring (off + k) (n - k) buf"
  by (rule nth_equalityI) (auto simp: add.assoc)

lemma memcpy_to_nth:
  assumes "memcpy_to off xs buf = Some buf'" "j < length buf"
  shows "buf' ! j = (if off \<le> j \<and> j < off + length xs then xs ! (j - off) else buf ! j)"
  using assms by (auto simp: memcpy_to_def nth_append split: if_splits)

lemma memcpy_to_length: "memcpy_to off xs buf = Some buf' \<Longrightarrow> length buf' = length buf"
  by (auto simp: memcpy_to_def split: if_splits)

text \<open>Reading in two pieces, up to the end of the buffer and from its beginning.\<close>

lemma ring_split:
  assumes "off < length buf" "n \<le> length buf" "l = min n (length buf - off)"
  shows "ring off n buf = take l (drop off buf) @ take (n - l) buf"
proof (rule nth_equalityI)
  show "length (ring off n buf) = length (take l (drop off buf) @ take (n - l) buf)"
    using assms by auto
next
  fix i assume i: "i < length (ring off n buf)"
  show "ring off n buf ! i = (take l (drop off buf) @ take (n - l) buf) ! i"
  proof (cases "i < l")
    case True
    then have "off + i < length buf" using assms(1,3) by linarith
    then show ?thesis using True i assms(3) by (simp add: nth_append)
  next
    case False
    then have l: "l = length buf - off" using i assms by (simp add: min_def split: if_splits)
    then have m: "(off + i) mod length buf = i - l" "i - l < n - l"
      using False i assms by (auto simp: le_mod_geq)
    then show ?thesis using False i assms(1) l by (simp add: nth_append)
  qed
qed

text \<open>One contiguous write at the write index extends the content.\<close>

lemma ring_extend:
  assumes "length buf > 0" "n + length xs \<le> length buf"
    and "memcpy_to ((off + n) mod length buf) xs buf = Some buf'"
  shows "ring off (n + length xs) buf' = ring off n buf @ xs"
proof (rule nth_equalityI)
  fix i assume i: "i < length (ring off (n + length xs) buf')"
  let ?N = "length buf" and ?w = "(off + n) mod length buf"
  have fit: "?w + length xs \<le> ?N" using assms(3) by (simp add: memcpy_to_def split: if_splits)
  have len: "length buf' = ?N" using assms(3) by (rule memcpy_to_length)
  have j: "(off + i) mod ?N < ?N" using assms(1) by simp
  show "ring off (n + length xs) buf' ! i = (ring off n buf @ xs) ! i"
  proof (cases "i < n")
    case True
    have "\<not> (?w \<le> (off + i) mod ?N \<and> (off + i) mod ?N < ?w + length xs)"
    proof
      assume a: "?w \<le> (off + i) mod ?N \<and> (off + i) mod ?N < ?w + length xs"
      define d where "d = (off + i) mod ?N - ?w"
      have d: "d < length xs" "(off + i) mod ?N = ?w + d" using a by (auto simp: d_def)
      have "(off + n + d) mod ?N = (?w + d) mod ?N" by (simp add: mod_add_left_eq)
      also have "\<dots> = (off + i) mod ?N" by (simp flip: d(2))
      finally have "?N dvd (off + n + d) - (off + i)"
        using True by (intro mod_eq_dvd_iff_nat [THEN iffD1]) auto
      then have "?N dvd n + d - i" using True by simp
      moreover have "0 < n + d - i" "n + d - i < ?N" using True d(1) assms(2) by auto
      ultimately show False by (simp add: dvd_imp_le leD)
    qed
    then have "buf' ! ((off + i) mod ?N) = buf ! ((off + i) mod ?N)"
      unfolding memcpy_to_nth [OF assms(3) j] by (rule if_not_P)
    then show ?thesis using True by (simp add: nth_append len)
  next
    case False
    define k where "k = i - n"
    have k: "k < length xs" "i = n + k" using False i by (auto simp: k_def)
    have "(off + i) mod ?N = (?w + k) mod ?N" by (simp add: k(2) mod_add_left_eq add.assoc)
    also have "\<dots> = ?w + k" using fit k(1) by simp
    finally have "buf' ! ((off + i) mod ?N) = xs ! k"
      unfolding memcpy_to_nth [OF assms(3) j] using k(1) by simp
    then show ?thesis using k by (simp add: nth_append len)
  qed
qed simp

section \<open>The contract of a queue\<close>

datatype 'a fifo_op = Put "'a list" | Get nat

text \<open>A run of a queue: what was accepted, what was delivered, and the queue afterwards.\<close>

fun fifo_run ::
  "('a list \<Rightarrow> 'q \<Rightarrow> (nat \<times> 'q) option) \<Rightarrow> (nat \<Rightarrow> 'q \<Rightarrow> ('a list \<times> 'q) option) \<Rightarrow>
     'a fifo_op list \<Rightarrow> 'q \<Rightarrow> ('a list \<times> 'a list \<times> 'q) option" where
  "fifo_run put get [] q = Some ([], [], q)"
| "fifo_run put get (Put xs # ops) q = do {
     (k, q) \<leftarrow> put xs q;
     (acc, del, q) \<leftarrow> fifo_run put get ops q;
     Some (take k xs @ acc, del, q)
   }"
| "fifo_run put get (Get n # ops) q = do {
     (ys, q) \<leftarrow> get n q;
     (acc, del, q) \<leftarrow> fifo_run put get ops q;
     Some (acc, ys @ del, q)
   }"

fun op_size :: "'a fifo_op \<Rightarrow> nat" where
  "op_size (Put xs) = length xs"
| "op_size (Get n) = n"

locale fifo =
  fixes ok :: "'q \<Rightarrow> bool" and contents :: "'q \<Rightarrow> 'a list" and cap :: "'q \<Rightarrow> nat"
    and lim :: nat
    and put :: "'a list \<Rightarrow> 'q \<Rightarrow> (nat \<times> 'q) option"
    and get :: "nat \<Rightarrow> 'q \<Rightarrow> ('a list \<times> 'q) option"
  assumes fits: "ok q \<Longrightarrow> length (contents q) \<le> cap q"
    and put_law: "ok q \<Longrightarrow> length xs < lim \<Longrightarrow>
      \<exists>q'. put xs q = Some (min (length xs) (cap q - length (contents q)), q') \<and> ok q' \<and>
        cap q' = cap q \<and> contents q' = contents q @ take (cap q - length (contents q)) xs"
    and get_law: "ok q \<Longrightarrow> n < lim \<Longrightarrow>
      \<exists>q'. get n q = Some (take n (contents q), q') \<and> ok q' \<and> cap q' = cap q \<and>
        contents q' = drop n (contents q)"
begin

text \<open>Nothing is lost, duplicated or reordered, and no operation fails.\<close>

lemma stream:
  assumes "ok q" "list_all (\<lambda>c. op_size c < lim) ops"
  shows "\<exists>acc del q'. fifo_run put get ops q = Some (acc, del, q') \<and> ok q' \<and> cap q' = cap q \<and>
           del @ contents q' = contents q @ acc"
  using assms
proof (induction ops arbitrary: q)
  case (Cons c ops)
  show ?case
  proof (cases c)
    case (Put xs)
    obtain q1 where q1: "put xs q = Some (min (length xs) (cap q - length (contents q)), q1)"
      "ok q1" "cap q1 = cap q" "contents q1 = contents q @ take (cap q - length (contents q)) xs"
      using put_law [of q xs] Cons.prems Put by auto
    obtain acc del q2 where q2: "fifo_run put get ops q1 = Some (acc, del, q2)" "ok q2"
      "cap q2 = cap q1" "del @ contents q2 = contents q1 @ acc"
      using Cons.IH [of q1] q1(2) Cons.prems(2) by auto
    show ?thesis using q1 q2 Put by (simp add: min_def)
  next
    case (Get n)
    obtain q1 where q1: "get n q = Some (take n (contents q), q1)" "ok q1" "cap q1 = cap q"
      "contents q1 = drop n (contents q)"
      using get_law [of q n] Cons.prems Get by auto
    obtain acc del q2 where q2: "fifo_run put get ops q1 = Some (acc, del, q2)" "ok q2"
      "cap q2 = cap q1" "del @ contents q2 = contents q1 @ acc"
      using Cons.IH [of q1] q1(2) Cons.prems(2) by auto
    have "take n (contents q) @ drop n (contents q) @ acc = contents q @ acc"
      by (metis append.assoc append_take_drop_id)
    then show ?thesis using q1 q2 Get by simp
  qed
qed simp

text \<open>A write that fits is read back in full, after what was there.\<close>

lemma put_get:
  assumes "ok q" "length xs + length (contents q) \<le> cap q" "length xs < lim" "cap q < lim"
  shows "\<exists>q'. fifo_run put get [Put xs, Get (cap q)] q = Some (xs, contents q @ xs, q') \<and>
           contents q' = []"
proof -
  obtain q1 where q1: "put xs q = Some (min (length xs) (cap q - length (contents q)), q1)"
      "ok q1" "cap q1 = cap q" "contents q1 = contents q @ take (cap q - length (contents q)) xs"
    using put_law [of q xs] assms by auto
  have c: "contents q1 = contents q @ xs" using q1(4) assms(2) by simp
  obtain q2 where "get (cap q) q1 = Some (take (cap q) (contents q1), q2)"
      "contents q2 = drop (cap q) (contents q1)"
    using get_law [of q1 "cap q"] q1 assms by auto
  moreover have "min (length xs) (cap q - length (contents q)) = length xs"
    using assms(2) by simp
  ultimately show ?thesis using q1 c assms(2) by simp
qed

end

end
