(* ===== verification/Bitops.thy ===== *)
theory Bitops
  imports Prelude
begin

text \<open>
  Bit searches of \<^verbatim>\<open>include/asm-generic/bitops\<close>, which the machine's processor (no
  count-leading-zeros instruction) uses, the powers of two of \<^verbatim>\<open>include/linux/log2.h\<close>, and
  the bit counts of \<^verbatim>\<open>lib/hweight.c\<close>.
\<close>

unbundle bit_operations_syntax

section \<open>Definitions\<close>

text \<open>One halving step of \<^verbatim>\<open>fls\<close>, \<^verbatim>\<open>ffs\<close> and \<^verbatim>\<open>__ffs\<close>; the state is the remaining
  word and the result so far. The right shift of the signed \<^verbatim>\<open>x\<close> of \<^verbatim>\<open>ffs\<close> fills with the
  sign; the bits it fills in lie above those tested later.\<close>

definition fls_step :: "nat \<Rightarrow> u32 \<Rightarrow> u32 \<times> nat \<Rightarrow> u32 \<times> nat" where
  "fls_step k msk p = (if fst p AND msk = 0 then (push_bit k (fst p), snd p - k) else p)"

definition fls :: "u32 \<Rightarrow> nat" where
  "fls x = (if x = 0 then 0
     else snd (fls_step 1 0x80000000 (fls_step 2 0xc0000000 (fls_step 4 0xf0000000
           (fls_step 8 0xff000000 (fls_step 16 0xffff0000 (x, 32)))))))"

definition sar :: "nat \<Rightarrow> u32 \<Rightarrow> u32" where
  "sar k x = signed_drop_bit k x"

definition ffs_step :: "nat \<Rightarrow> u32 \<Rightarrow> u32 \<times> nat \<Rightarrow> u32 \<times> nat" where
  "ffs_step k msk p = (if fst p AND msk = 0 then (sar k (fst p), snd p + k) else p)"

definition ffs :: "u32 \<Rightarrow> nat" where
  "ffs x = (if x = 0 then 0
     else snd (ffs_step 1 1 (ffs_step 2 3 (ffs_step 4 0xf (ffs_step 8 0xff
           (ffs_step 16 0xffff (x, 1)))))))"

definition ffs0_step :: "nat \<Rightarrow> u32 \<Rightarrow> u32 \<times> nat \<Rightarrow> u32 \<times> nat" where
  "ffs0_step k msk p = (if fst p AND msk = 0 then (drop_bit k (fst p), snd p + k) else p)"

definition ffs0 :: "u32 \<Rightarrow> nat" where
  "ffs0 word = (
     let (word, num) = ffs0_step 2 3 (ffs0_step 4 0xf (ffs0_step 8 0xff
           (ffs0_step 16 0xffff (word, 0))))
     in if word AND 1 = 0 then num + 1 else num)"

definition ffz :: "u32 \<Rightarrow> nat" where "ffz x = ffs0 (NOT x)"

definition fls64 :: "u64 \<Rightarrow> nat" where
  "fls64 x = (let h = ucast (drop_bit 32 x) in if h \<noteq> 0 then fls h + 32 else fls (ucast x))"

definition fls_long :: "u32 \<Rightarrow> nat" where "fls_long l = fls l"

definition is_power_of_2 :: "u32 \<Rightarrow> bool" where
  "is_power_of_2 n \<longleftrightarrow> n \<noteq> 0 \<and> n AND (n - 1) = 0"

text \<open>A shift by the width of the word is undefined in C: \<open>None\<close>.\<close>

definition roundup_pow_of_two :: "u32 \<Rightarrow> u32 option" where
  "roundup_pow_of_two n = (let k = fls_long (n - 1) in if k < 32 then Some (push_bit k 1) else None)"

definition rounddown_pow_of_two :: "u32 \<Rightarrow> u32 option" where
  "rounddown_pow_of_two n =
     (let k = fls_long n in if k = 0 then None else Some (push_bit (k - 1) 1))"

definition hweight32 :: "u32 \<Rightarrow> u32" where
  "hweight32 w = (
     let res = w - (drop_bit 1 w AND 0x55555555);
         res = (res AND 0x33333333) + (drop_bit 2 res AND 0x33333333);
         res = (res + drop_bit 4 res) AND 0x0F0F0F0F;
         res = res + drop_bit 8 res
     in (res + drop_bit 16 res) AND 0x000000FF)"

definition hweight16 :: "u32 \<Rightarrow> u32" where
  "hweight16 w = (
     let res = w - (drop_bit 1 w AND 0x5555);
         res = (res AND 0x3333) + (drop_bit 2 res AND 0x3333);
         res = (res + drop_bit 4 res) AND 0x0F0F
     in (res + drop_bit 8 res) AND 0x00FF)"

definition hweight8 :: "u32 \<Rightarrow> u32" where
  "hweight8 w = (
     let res = w - (drop_bit 1 w AND 0x55);
         res = (res AND 0x33) + (drop_bit 2 res AND 0x33)
     in (res + drop_bit 4 res) AND 0x0F)"

section \<open>Searches\<close>

lemma and_high_zero: "(x :: u32) AND NOT (mask k) = 0 \<longleftrightarrow> unat x < 2 ^ k"
proof -
  have "x AND NOT (mask k) = 0 \<longleftrightarrow> take_bit k x = x"
    by (auto simp: bit_eq_iff bit_and_iff bit_not_iff bit_mask_iff bit_take_bit_iff)
  also have "\<dots> \<longleftrightarrow> take_bit k (unat x) = unat x"
    by (simp add: word_unat_eq_iff unsigned_take_bit_eq)
  finally show ?thesis by (simp add: take_bit_nat_eq_self_iff)
qed

lemma high_masks:
  "(0xffff0000 :: u32) = NOT (mask 16)" "(0xff000000 :: u32) = NOT (mask 24)"
  "(0xf0000000 :: u32) = NOT (mask 28)" "(0xc0000000 :: u32) = NOT (mask 30)"
  "(0x80000000 :: u32) = NOT (mask 31)"
  by (simp_all add: mask_eq_exp_minus_1)

text \<open>Each step keeps the product of the remaining word and its weight and doubles the
  lower bound on it.\<close>

definition fls_inv :: "nat \<Rightarrow> u32 \<Rightarrow> u32 \<times> nat \<Rightarrow> bool" where
  "fls_inv m x p \<longleftrightarrow> snd p \<le> 32 \<and> 32 - m \<le> snd p \<and> unat (fst p) = unat x * 2 ^ (32 - snd p) \<and>
     2 ^ m \<le> unat (fst p)"

lemma fls_step_inv:
  assumes "fls_inv m x p" "k + k' = 32" "m + k = k'" "m < 32"
  shows "fls_inv k' x (fls_step k (NOT (mask k')) p)"
proof (cases "unat (fst p) < 2 ^ k'")
  case True
  have "unat (fst p) * 2 ^ k < 2 ^ k' * 2 ^ k" using True by simp
  also have "\<dots> = 2 ^ 32" using assms(2) by (metis add.commute power_add)
  finally have u: "unat (push_bit k (fst p)) = unat (fst p) * 2 ^ k"
    using unat_push_bit_nowrap [of "fst p" k] by simp
  have b: "snd p \<le> 32" "32 - m \<le> snd p" "unat (fst p) = unat x * 2 ^ (32 - snd p)"
    "2 ^ m \<le> unat (fst p)" using assms(1) by (auto simp: fls_inv_def)
  have k: "k \<le> snd p" using b(2) assms(2,3) by arith
  have "unat (push_bit k (fst p)) = unat x * 2 ^ (32 - (snd p - k))"
    using k b(1) by (simp add: u b(3) flip: power_add)
  moreover have "2 ^ k' \<le> unat (push_bit k (fst p))"
    using mult_le_mono1 [OF b(4), of "2 ^ k"] by (simp add: u flip: assms(3) power_add)
  moreover have "snd p - k \<le> 32" "32 - k' \<le> snd p - k" using b(1,2) assms(2,3) by arith+
  ultimately show ?thesis
    using True by (simp add: fls_inv_def fls_step_def and_high_zero)
next
  case False
  have "32 - k' \<le> snd p" using assms by (auto simp: fls_inv_def)
  then show ?thesis using False assms(1) by (simp add: fls_inv_def fls_step_def and_high_zero)
qed


lemma fls_bounds: "x \<noteq> 0 \<Longrightarrow> fls x \<le> 32 \<and> 2 ^ (fls x - 1) \<le> unat x \<and> unat x < 2 ^ fls x \<and> fls x \<noteq> 0"
proof -
  assume x: "x \<noteq> 0"
  have i0: "fls_inv 0 x (x, 32)" using x by (simp add: fls_inv_def unat_gt_0 Suc_leI)
  define p where "p = fls_step 1 (NOT (mask 31)) (fls_step 2 (NOT (mask 30))
      (fls_step 4 (NOT (mask 28)) (fls_step 8 (NOT (mask 24)) (fls_step 16 (NOT (mask 16)) (x, 32)))))"
  define r where "r = snd p"
  have "fls_inv 31 x p" unfolding p_def
    by (rule fls_step_inv [where m = 30], rule fls_step_inv [where m = 28],
        rule fls_step_inv [where m = 24], rule fls_step_inv [where m = 16],
        rule fls_step_inv [where m = 0], rule i0) simp_all
  then have r: "fls x = r" "r \<le> 32" "1 \<le> r" "unat (fst p) = unat x * 2 ^ (32 - r)"
    "2 ^ 31 \<le> unat (fst p)"
    using x by (auto simp: fls_def high_masks fls_inv_def r_def p_def simp del: One_nat_def)
  have "2 ^ (r - 1) * 2 ^ (32 - r) \<le> unat x * 2 ^ (32 - r)"
    using r(2-5) by (simp flip: power_add)
  moreover have "unat x * 2 ^ (32 - r) < 2 ^ r * 2 ^ (32 - r)"
    using r(2,4) unat_lt2p [of "fst p"] by (simp flip: power_add)
  ultimately show ?thesis using r(1-3) by simp
qed


lemma and_low_zero: "k \<le> 32 \<Longrightarrow> (x :: u32) AND mask k = 0 \<longleftrightarrow> (\<forall>i < k. \<not> bit x i)"
  by (auto simp: bit_eq_iff bit_and_iff bit_mask_iff) (meson less_le_trans)

text \<open>The lower searches: the bits passed over are clear, and the low half that is left holds a
  set bit.\<close>

definition ffs_inv :: "nat \<Rightarrow> nat \<Rightarrow> u32 \<Rightarrow> u32 \<times> nat \<Rightarrow> bool" where
  "ffs_inv r0 m x p \<longleftrightarrow> r0 \<le> snd p \<and> (\<forall>i < m. bit (fst p) i = bit x (snd p - r0 + i)) \<and>
     (\<forall>i < snd p - r0. \<not> bit x i) \<and> (\<exists>i < m. bit (fst p) i)"

lemma ffs_inv_shift:
  assumes "ffs_inv r0 (2 * k) x p" "2 * k \<le> 32" "fst p AND mask k = 0"
    "\<And>i. i < k \<Longrightarrow> bit y i = bit (fst p) (k + i)"
  shows "ffs_inv r0 k x (y, snd p + k)"
proof -
  have z: "\<not> bit (fst p) i" if "i < k" for i using that assms(2,3) by (simp add: and_low_zero)
  have b: "bit (fst p) i = bit x (snd p - r0 + i)" if "i < 2 * k" for i
    using that assms(1) by (simp add: ffs_inv_def)
  have r: "r0 \<le> snd p" "\<forall>i < snd p - r0. \<not> bit x i" using assms(1) by (auto simp: ffs_inv_def)
  obtain i where i: "i < 2 * k" "bit (fst p) i" using assms(1) by (auto simp: ffs_inv_def)
  have "k \<le> i" using z i(2) by (meson not_le)
  then have "\<exists>j < k. bit y j"
    using i assms(4) [of "i - k"] by (intro exI [of _ "i - k"]) auto
  moreover have "\<not> bit x j" if "j < snd p + k - r0" for j
  proof (cases "j < snd p - r0")
    case False
    then show ?thesis using that z [of "j - (snd p - r0)"] b [of "j - (snd p - r0)"] r(1) by auto
  qed (use r in auto)
  ultimately show ?thesis
    using r(1) assms(4) b by (simp add: ffs_inv_def add.assoc)
qed

lemma ffs_inv_stay:
  assumes "ffs_inv r0 (2 * k) x p" "2 * k \<le> 32" "fst p AND mask k \<noteq> 0"
  shows "ffs_inv r0 k x p"
  using assms by (auto simp: ffs_inv_def and_low_zero)

lemma bit_sar: "i + k < 32 \<Longrightarrow> bit (sar k x) i = bit x (k + i)"
  by (cases "32 - k \<le> i") (auto simp: sar_def bit_signed_drop_bit_iff)

lemma ffs_step_inv:
  "ffs_inv r0 m x p \<Longrightarrow> m = 2 * k \<Longrightarrow> m \<le> 32 \<Longrightarrow> ffs_inv r0 k x (ffs_step k (mask k) p)"
  by (auto simp: ffs_step_def bit_sar intro: ffs_inv_shift ffs_inv_stay)

lemma ffs0_step_inv:
  "ffs_inv r0 m x p \<Longrightarrow> m = 2 * k \<Longrightarrow> m \<le> 32 \<Longrightarrow> ffs_inv r0 k x (ffs0_step k (mask k) p)"
  by (auto simp: ffs0_step_def bit_drop_bit_eq intro: ffs_inv_shift ffs_inv_stay)

lemma low_masks:
  "(0xffff :: u32) = mask 16" "(0xff :: u32) = mask 8" "(0xf :: u32) = mask 4"
  "(3 :: u32) = mask 2" "(1 :: u32) = mask 1"
  by (simp_all add: mask_eq_exp_minus_1)

lemma ffs_inv_start: "x \<noteq> 0 \<Longrightarrow> ffs_inv r0 32 x (x, r0)"
  by (auto simp: ffs_inv_def bit_eq_iff)

lemma ffs_inv_final:
  "ffs_inv r0 1 x p \<Longrightarrow> bit x (snd p - r0) \<and> (\<forall>i < snd p - r0. \<not> bit x i) \<and> r0 \<le> snd p"
  by (auto simp: ffs_inv_def)

lemma ffs_lowest: "x \<noteq> 0 \<Longrightarrow> ffs x \<noteq> 0 \<and> bit x (ffs x - 1) \<and> (\<forall>i < ffs x - 1. \<not> bit x i)"
proof -
  assume x: "x \<noteq> 0"
  define p where "p = ffs_step 1 (mask 1) (ffs_step 2 (mask 2) (ffs_step 4 (mask 4)
      (ffs_step 8 (mask 8) (ffs_step 16 (mask 16) (x, 1)))))"
  have "ffs_inv 1 1 x p" unfolding p_def
    by (rule ffs_step_inv [where m = 2], rule ffs_step_inv [where m = 4],
        rule ffs_step_inv [where m = 8], rule ffs_step_inv [where m = 16],
        rule ffs_step_inv [where m = 32], rule ffs_inv_start [OF x]) simp_all
  moreover have "ffs x = snd p" unfolding ffs_def low_masks if_not_P [OF x] p_def ..
  ultimately show ?thesis using ffs_inv_final [of 1 x p] by simp
qed

lemma ffs0_lowest: "x \<noteq> 0 \<Longrightarrow> bit x (ffs0 x) \<and> (\<forall>i < ffs0 x. \<not> bit x i)"
proof -
  assume x: "x \<noteq> 0"
  define p where "p = ffs0_step 2 (mask 2) (ffs0_step 4 (mask 4)
      (ffs0_step 8 (mask 8) (ffs0_step 16 (mask 16) (x, 0))))"
  have "ffs_inv 0 1 x (ffs0_step 1 (mask 1) p)" unfolding p_def
    by (rule ffs0_step_inv [where m = 2], rule ffs0_step_inv [where m = 4],
        rule ffs0_step_inv [where m = 8], rule ffs0_step_inv [where m = 16],
        rule ffs0_step_inv [where m = 32], rule ffs_inv_start [OF x]) simp_all
  moreover have "ffs0 x = snd (ffs0_step 1 (mask 1) p)"
    unfolding ffs0_def low_masks p_def [symmetric] by (cases p) (simp add: ffs0_step_def)
  ultimately show ?thesis using ffs_inv_final by fastforce
qed

lemma top_bit:
  assumes "2 ^ i \<le> unat (x :: u32)" "unat x < 2 ^ Suc i"
  shows "bit x i"
proof -
  have "unat x div 2 ^ i = 1" using assms by (intro div_nat_eqI) simp_all
  then have "bit (unat x) i" by (simp add: bit_iff_odd)
  then show ?thesis by (simp add: bit_unsigned_iff)
qed

lemma unat_exp: "k < 32 \<Longrightarrow> unat (2 ^ k :: u32) = 2 ^ k"
  using unat_push_bit_nowrap [of "1 :: u32" k] power_strict_increasing [of k 32 "2 :: nat"]
  by (simp add: push_bit_eq_mult)

lemma is_power_of_2_iff: "is_power_of_2 n \<longleftrightarrow> (\<exists>k < 32. n = 2 ^ k)"
proof
  assume "is_power_of_2 n"
  then have n: "n \<noteq> 0" "n AND (n - 1) = 0" by (auto simp: is_power_of_2_def)
  define k where "k = fls n - 1"
  have k: "k < 32" "2 ^ k \<le> unat n" "unat n < 2 ^ Suc k"
    using fls_bounds [OF n(1)] by (auto simp: k_def simp del: power_Suc)
  have "unat n = 2 ^ k"
  proof (rule ccontr)
    assume "unat n \<noteq> 2 ^ k"
    moreover have "unat (n - 1) = unat n - 1" using n(1) by (simp add: unat_minus_one)
    ultimately have "bit (n - 1) k" "bit n k" using k(2,3) by (auto intro!: top_bit)
    then have "bit (n AND (n - 1)) k" by (simp add: bit_and_iff)
    then show False by (simp add: n(2))
  qed
  then have "n = 2 ^ k" using k(1) by (simp add: word_unat_eq_iff unat_exp)
  then show "\<exists>k < 32. n = 2 ^ k" using k(1) by blast
next
  assume "\<exists>k < 32. n = 2 ^ k"
  then obtain k where k: "k < 32" "n = 2 ^ k" by blast
  have "n AND (n - 1) = 0" unfolding k(2) mask_eq_exp_minus_1 [symmetric]
    by (rule bit_eqI) (auto simp: bit_and_iff bit_exp_iff bit_mask_iff)
  moreover have "n \<noteq> 0" using k by simp
  ultimately show "is_power_of_2 n" by (simp add: is_power_of_2_def)
qed

text \<open>The least power of two that is not below the argument.\<close>

lemma roundup_value:
  assumes "n \<noteq> 0" "unat n \<le> 2 ^ 31"
  shows "\<exists>k < 32. roundup_pow_of_two n = Some (2 ^ k) \<and> unat n \<le> 2 ^ k \<and> 2 ^ k < 2 * unat n"
proof (cases "n = 1")
  case True
  then show ?thesis by (auto simp: roundup_pow_of_two_def fls_long_def fls_def intro: exI [of _ 0])
next
  case False
  have u: "unat (n - 1) = unat n - 1" "unat n \<noteq> 0" using assms(1) by (simp_all add: unat_minus_one unat_eq_zero)
  have z: "n - 1 \<noteq> 0" using False by simp
  obtain f where f: "fls (n - 1) = Suc f" using fls_bounds [OF z] by (cases "fls (n - 1)") auto
  have b: "2 ^ f \<le> unat n - 1" "unat n - 1 < 2 ^ Suc f" using fls_bounds [OF z] f u by auto
  have "(2 :: nat) ^ f < 2 ^ 31" using b(1) assms(2) u(2) by linarith
  then have "f < 31" by (rule power_less_imp_less_exp [rotated]) simp
  then show ?thesis using b u(2) f
    by (intro exI [of _ "Suc f"]) (auto simp: roundup_pow_of_two_def fls_long_def push_bit_eq_mult)
qed

end
