(* ===== verification/Kfifo.thy ===== *)
theory Kfifo
  imports Ring Bitops
begin

text \<open>
  The kernel's byte FIFO (\<^verbatim>\<open>kernel/kfifo.c\<close>, \<^verbatim>\<open>include/linux/kfifo.h\<close>). The two indices are
  32-bit counters that run free and wrap; the positions in the buffer are their low bits. The
  spin lock and the memory barriers have no effect on one processor. \<open>kmalloc\<close> is an argument:
  the fresh block of the given length, or nothing.
\<close>

section \<open>Definitions\<close>

record kfifo =
  kf_buffer :: "u8 list"
  kf_size :: u32
  kf_in :: u32
  kf_out :: u32

text \<open>\<open>mem\<close> is the outcome of allocating the \<^verbatim>\<open>struct kfifo\<close>. \<^verbatim>\<open>BUG_ON\<close> is \<open>None\<close>.\<close>

definition kfifo_init :: "bool \<Rightarrow> u8 list \<Rightarrow> u32 \<Rightarrow> (errno + kfifo) option" where
  "kfifo_init mem buffer sz = (
     if \<not> is_power_of_2 sz then None
     else if \<not> mem then Some (Inl ENOMEM)
     else Some (Inr \<lparr>kf_buffer = buffer, kf_size = sz, kf_in = 0, kf_out = 0\<rparr>))"

definition kfifo_alloc :: "(nat \<Rightarrow> u8 list option) \<Rightarrow> bool \<Rightarrow> u32 \<Rightarrow> (errno + kfifo) option" where
  "kfifo_alloc kmalloc mem sz = do {
     sz \<leftarrow> (if sz AND (sz - 1) \<noteq> 0 then
               (if sz > 0x80000000 then None else roundup_pow_of_two sz)
             else Some sz);
     case kmalloc (unat sz) of
       None \<Rightarrow> Some (Inl ENOMEM)
     | Some buffer \<Rightarrow> kfifo_init mem buffer sz
   }"

definition raw_kfifo_put :: "kfifo \<Rightarrow> u8 list \<Rightarrow> u32 \<Rightarrow> (u32 \<times> kfifo) option" where
  "raw_kfifo_put f buffer len0 = (
     let len = min len0 (kf_size f - kf_in f + kf_out f);
         off = kf_in f AND (kf_size f - 1);
         l = min len (kf_size f - off)
     in do {
       xs \<leftarrow> memcpy_from 0 (unat l) buffer;
       b \<leftarrow> memcpy_to (unat off) xs (kf_buffer f);
       ys \<leftarrow> memcpy_from (unat l) (unat (len - l)) buffer;
       b \<leftarrow> memcpy_to 0 ys b;
       Some (len, f\<lparr>kf_buffer := b, kf_in := kf_in f + len\<rparr>)
     })"

definition raw_kfifo_get :: "kfifo \<Rightarrow> u32 \<Rightarrow> (u32 \<times> u8 list \<times> kfifo) option" where
  "raw_kfifo_get f len0 = (
     let len = min len0 (kf_in f - kf_out f);
         off = kf_out f AND (kf_size f - 1);
         l = min len (kf_size f - off)
     in do {
       xs \<leftarrow> memcpy_from (unat off) (unat l) (kf_buffer f);
       ys \<leftarrow> memcpy_from 0 (unat (len - l)) (kf_buffer f);
       Some (len, xs @ ys, f\<lparr>kf_out := kf_out f + len\<rparr>)
     })"

definition raw_kfifo_reset :: "kfifo \<Rightarrow> kfifo" where
  "raw_kfifo_reset f = f\<lparr>kf_in := 0, kf_out := 0\<rparr>"

definition kfifo_reset :: "kfifo \<Rightarrow> kfifo" where
  "kfifo_reset f = raw_kfifo_reset f"

definition kfifo_put :: "kfifo \<Rightarrow> u8 list \<Rightarrow> u32 \<Rightarrow> (u32 \<times> kfifo) option" where
  "kfifo_put f buffer len = raw_kfifo_put f buffer len"

definition kfifo_get :: "kfifo \<Rightarrow> u32 \<Rightarrow> (u32 \<times> u8 list \<times> kfifo) option" where
  "kfifo_get f len = do {
     (ret, xs, f) \<leftarrow> raw_kfifo_get f len;
     Some (ret, xs, if kf_in f = kf_out f then f\<lparr>kf_in := 0, kf_out := 0\<rparr> else f)
   }"

definition raw_kfifo_len :: "kfifo \<Rightarrow> u32" where
  "raw_kfifo_len f = kf_in f - kf_out f"

definition kfifo_len :: "kfifo \<Rightarrow> u32" where
  "kfifo_len f = raw_kfifo_len f"

section \<open>The abstract queue\<close>

definition kf_ok :: "kfifo \<Rightarrow> bool" where
  "kf_ok f \<longleftrightarrow> is_power_of_2 (kf_size f) \<and> length (kf_buffer f) = unat (kf_size f) \<and>
     unat (kf_in f - kf_out f) \<le> unat (kf_size f)"

definition kf_contents :: "kfifo \<Rightarrow> u8 list" where
  "kf_contents f = ring (unat (kf_out f)) (unat (kf_in f - kf_out f)) (kf_buffer f)"

definition kf_cap :: "kfifo \<Rightarrow> nat" where
  "kf_cap f = unat (kf_size f)"

text \<open>The operations in the shape of the queue contract.\<close>

definition kf_put :: "u8 list \<Rightarrow> kfifo \<Rightarrow> (nat \<times> kfifo) option" where
  "kf_put xs f = map_option (map_prod unat id) (kfifo_put f xs (of_nat (length xs)))"

definition kf_get :: "nat \<Rightarrow> kfifo \<Rightarrow> (u8 list \<times> kfifo) option" where
  "kf_get n f = map_option snd (kfifo_get f (of_nat n))"

lemma size_mask_index:
  assumes "is_power_of_2 n"
  shows "unat ((x :: u32) AND (n - 1)) = unat x mod unat n"
proof -
  obtain k where k: "k < 32" "n = 2 ^ k" using assms by (auto simp: is_power_of_2_iff)
  have "x AND (n - 1) = take_bit k x"
    by (simp add: k(2) take_bit_eq_mask mask_eq_exp_minus_1)
  moreover have "unat (take_bit k x) = unat x mod 2 ^ k"
    by (simp add: unsigned_take_bit_eq take_bit_eq_mod [of k "unat x"] del: take_bit_eq_mod)
  ultimately show ?thesis using k by (simp only: unat_exp)
qed

lemma index_advance:
  assumes "is_power_of_2 n"
  shows "unat ((x :: u32) + y) mod unat n = (unat x + unat y) mod unat n"
proof -
  obtain k where k: "k < 32" "n = 2 ^ k" using assms by (auto simp: is_power_of_2_iff)
  have "(2 :: nat) ^ k dvd 2 ^ 32" using k(1) by (intro le_imp_power_dvd) simp
  then show ?thesis using k by (simp add: unat_word_ariths mod_mod_cancel unat_exp)
qed

lemma unat_min: "unat (min x y :: u32) = min (unat x) (unat y)"
  by (simp add: min_def word_le_nat_alt)

lemma power_of_2_pos: "is_power_of_2 n \<Longrightarrow> 0 < unat n"
  by (simp add: is_power_of_2_def unat_gt_0)

text \<open>A write in two pieces, at the write index and then at the beginning.\<close>

lemma ring_write_two:
  assumes "0 < length buf" "n + k \<le> length buf" "k \<le> length xs"
    and "l = min k (length buf - (off + n) mod length buf)"
  shows "\<exists>b1 b2. memcpy_to ((off + n) mod length buf) (take l xs) buf = Some b1 \<and>
     memcpy_to 0 (take (k - l) (drop l xs)) b1 = Some b2 \<and> length b2 = length buf \<and>
     ring off (n + k) b2 = ring off n buf @ take k xs"
proof -
  let ?N = "length buf" and ?w = "(off + n) mod length buf"
  have w: "?w < ?N" using assms(1) by simp
  have l: "l \<le> k" "?w + l \<le> ?N" using assms(4) w by auto
  obtain b1 where b1: "memcpy_to ?w (take l xs) buf = Some b1"
    using l assms(3) by (simp add: memcpy_to_def)
  have len1: "length b1 = ?N" using b1 by (rule memcpy_to_length)
  have r1: "ring off (n + l) b1 = ring off n buf @ take l xs"
    using ring_extend [OF assms(1) _ b1] l assms(2,3) by simp
  obtain b2 where b2: "memcpy_to 0 (take (k - l) (drop l xs)) b1 = Some b2"
    using assms(2,3) len1 by (fastforce simp: memcpy_to_def)
  have "ring off (n + k) b2 = ring off (n + l) b1 @ take (k - l) (drop l xs)"
  proof (cases "k = l")
    case True
    then show ?thesis using b2 by (simp add: memcpy_to_def)
  next
    case False
    then have "l = ?N - ?w" using assms(4) by (simp add: min_def split: if_splits)
    then have "(off + (n + l)) mod ?N = (?w + (?N - ?w)) mod ?N"
      by (simp add: mod_add_left_eq flip: add.assoc)
    then have z: "(off + (n + l)) mod length b1 = 0" using w len1 by simp
    have "n + l + length (take (k - l) (drop l xs)) = n + k" using l(1) assms(3) by simp
    then show ?thesis
      using ring_extend [of b1 "n + l" "take (k - l) (drop l xs)" off b2] b2 len1 assms(1,2)
      by (metis z)
  qed
  moreover have "take l xs @ take (k - l) (drop l xs) = take k xs"
    using l(1) by (metis take_add le_add_diff_inverse)
  ultimately show ?thesis using b1 b2 r1 len1 memcpy_to_length [OF b2] by (metis append.assoc)
qed

lemma raw_kfifo_put_law:
  assumes ok: "kf_ok f" and len: "unat len \<le> length buffer"
  defines "k \<equiv> min (unat len) (kf_cap f - length (kf_contents f))"
  shows "\<exists>f' r. raw_kfifo_put f buffer len = Some (r, f') \<and> unat r = k \<and> kf_ok f' \<and> kf_cap f' = kf_cap f \<and>
           kf_contents f' = kf_contents f @ take k buffer"
proof -
  let ?b = "kf_buffer f" and ?n = "unat (kf_in f - kf_out f)" and ?o = "unat (kf_out f)"
  have N: "is_power_of_2 (kf_size f)" "length ?b = unat (kf_size f)" "?n \<le> unat (kf_size f)"
    using ok by (auto simp: kf_ok_def)
  define r where "r = min len (kf_size f - kf_in f + kf_out f)"
  have r: "unat r = k"
  proof -
    have "unat (kf_size f - (kf_in f - kf_out f)) = unat (kf_size f) - ?n"
      using N(3) by (rule unat_sub_nowrap)
    moreover have "kf_size f - (kf_in f - kf_out f) = kf_size f - kf_in f + kf_out f" by simp
    ultimately show ?thesis by (simp only: r_def k_def unat_min kf_cap_def kf_contents_def length_ring)
  qed
  define off where "off = kf_in f AND (kf_size f - 1)"
  have off: "unat off = (?o + ?n) mod length ?b"
    using index_advance [OF N(1), of "kf_out f" "kf_in f - kf_out f"]
    by (simp add: off_def size_mask_index [OF N(1)] N(2))
  have lt: "unat off < length ?b" using off power_of_2_pos [OF N(1)] N(2) by simp
  define l where "l = min r (kf_size f - off)"
  have l: "unat l = min k (length ?b - unat off)"
    using lt N(2) r by (simp add: l_def unat_min unat_sub_nowrap)
  have rl: "unat (r - l) = k - unat l" using l r by (simp add: unat_sub_nowrap)
  have k: "?n + k \<le> length ?b" "k \<le> length buffer"
    using N len by (auto simp: k_def kf_cap_def kf_contents_def)
  obtain b1 b2 where b: "memcpy_to (unat off) (take (unat l) buffer) ?b = Some b1"
    "memcpy_to 0 (take (k - unat l) (drop (unat l) buffer)) b1 = Some b2" "length b2 = length ?b"
    "ring ?o (?n + k) b2 = ring ?o ?n ?b @ take k buffer"
    using ring_write_two [OF _ k, of "unat l" ?o] l lt unfolding off by fastforce
  have "raw_kfifo_put f buffer len = Some (r, f\<lparr>kf_buffer := b2, kf_in := kf_in f + r\<rparr>)"
    using b(1,2) l k(2) by (simp add: raw_kfifo_put_def memcpy_from_def rl Let_def
        flip: r_def off_def l_def)
  moreover have "unat (kf_in f + r - kf_out f) = ?n + k"
  proof -
    have "kf_in f + r - kf_out f = (kf_in f - kf_out f) + r" by simp
    moreover have "unat ((kf_in f - kf_out f) + r) = ?n + unat r"
      using k(1) N(2) r unat_lt2p [of "kf_size f"] by (intro unat_add_nowrap) simp
    ultimately show ?thesis by (simp only: r)
  qed
  ultimately show ?thesis using N b(3,4) k(1) r
    by (simp add: kf_ok_def kf_cap_def kf_contents_def)
qed


lemma raw_kfifo_get_law:
  assumes ok: "kf_ok f"
  shows "\<exists>f' r. raw_kfifo_get f len = Some (r, take (unat len) (kf_contents f), f') \<and>
           unat r = min (unat len) (length (kf_contents f)) \<and> kf_ok f' \<and> kf_cap f' = kf_cap f \<and>
           kf_contents f' = drop (unat len) (kf_contents f)"
proof -
  let ?b = "kf_buffer f" and ?n = "unat (kf_in f - kf_out f)" and ?o = "unat (kf_out f)"
  have N: "is_power_of_2 (kf_size f)" "length ?b = unat (kf_size f)" "?n \<le> unat (kf_size f)"
    using ok by (auto simp: kf_ok_def)
  define r where "r = min len (kf_in f - kf_out f)"
  have r: "unat r = min (unat len) ?n" by (simp add: r_def unat_min)
  define off where "off = kf_out f AND (kf_size f - 1)"
  have off: "unat off = ?o mod length ?b" by (simp add: off_def size_mask_index [OF N(1)] N(2))
  have lt: "unat off < length ?b" using off power_of_2_pos [OF N(1)] N(2) by simp
  define l where "l = min r (kf_size f - off)"
  have l: "unat l = min (unat r) (length ?b - unat off)"
    using lt N(2) by (simp add: l_def unat_min unat_sub_nowrap)
  have rl: "unat (r - l) = unat r - unat l" using l by (simp add: unat_sub_nowrap)
  have fit: "unat r \<le> length ?b" using r N by simp
  have inb: "unat off + unat l \<le> length ?b" "unat r - unat l \<le> length ?b" using l lt fit by auto
  have "take (unat l) (drop (unat off) ?b) @ take (unat r - unat l) ?b = ring (unat off) (unat r) ?b"
    using ring_split [OF lt fit l] by simp
  also have "\<dots> = take (unat len) (kf_contents f)"
    by (simp add: off ring_mod take_ring kf_contents_def r)
  finally have "raw_kfifo_get f len =
      Some (r, take (unat len) (kf_contents f), f\<lparr>kf_out := kf_out f + r\<rparr>)"
    using inb by (simp add: raw_kfifo_get_def memcpy_from_def rl Let_def
        flip: r_def off_def l_def)
  moreover have d: "unat (kf_in f - (kf_out f + r)) = ?n - unat r"
    using unat_sub_nowrap [of r "kf_in f - kf_out f"] r by (simp add: diff_diff_eq)
  moreover have "ring (unat (kf_out f + r)) (?n - unat r) ?b = ring (?o + unat r) (?n - unat r) ?b"
    using index_advance [OF N(1), of "kf_out f" r] by (metis N(2) ring_mod)
  moreover have "drop (unat len) (kf_contents f) = ring (?o + unat r) (?n - unat r) ?b"
    by (cases "unat len \<le> ?n") (simp_all add: kf_contents_def drop_ring r min_def)
  moreover have "?n - unat r \<le> unat (kf_size f)" using N(3) by simp
  moreover have "unat r = min (unat len) (length (kf_contents f))" by (simp add: r kf_contents_def)
  ultimately show ?thesis using N(1,2) by (simp add: kf_ok_def kf_cap_def kf_contents_def)
qed


text \<open>Setting both indices of an empty FIFO to zero changes nothing that a client sees.\<close>

lemma kf_rewind:
  assumes "kf_ok f" "kf_in f = kf_out f"
  shows "kf_ok (f\<lparr>kf_in := 0, kf_out := 0\<rparr>) \<and> kf_contents (f\<lparr>kf_in := 0, kf_out := 0\<rparr>) = kf_contents f"
  using assms by (simp add: kf_ok_def kf_contents_def ring_def)

interpretation kf: fifo kf_ok kf_contents kf_cap "2 ^ 32" kf_put kf_get
proof
  show "length (kf_contents f) \<le> kf_cap f" if "kf_ok f" for f
    using that by (simp add: kf_ok_def kf_contents_def kf_cap_def)
next
  fix f :: kfifo and xs :: "u8 list"
  assume "kf_ok f" "length xs < 2 ^ 32"
  moreover from this have "unat (of_nat (length xs) :: u32) = length xs" by (intro unat_of_nat_lt) simp
  ultimately obtain f' r where "raw_kfifo_put f xs (of_nat (length xs)) = Some (r, f')"
    "unat r = min (length xs) (kf_cap f - length (kf_contents f))" "kf_ok f'" "kf_cap f' = kf_cap f"
    "kf_contents f' = kf_contents f @ take (min (length xs) (kf_cap f - length (kf_contents f))) xs"
    using raw_kfifo_put_law [of f "of_nat (length xs)" xs] by auto
  then show "\<exists>f'. kf_put xs f = Some (min (length xs) (kf_cap f - length (kf_contents f)), f') \<and>
      kf_ok f' \<and> kf_cap f' = kf_cap f \<and>
      kf_contents f' = kf_contents f @ take (kf_cap f - length (kf_contents f)) xs"
    by (simp add: kf_put_def kfifo_put_def min_def)
next
  fix f :: kfifo and n :: nat
  assume ok: "kf_ok f" and n: "n < 2 ^ 32"
  obtain f' r where f': "raw_kfifo_get f (of_nat n) = Some (r, take n (kf_contents f), f')"
    "kf_ok f'" "kf_cap f' = kf_cap f" "kf_contents f' = drop n (kf_contents f)"
    using raw_kfifo_get_law [OF ok, of "of_nat n"] unat_of_nat_lt [of n, where 'a = 32] n by auto
  show "\<exists>f'. kf_get n f = Some (take n (kf_contents f), f') \<and> kf_ok f' \<and> kf_cap f' = kf_cap f \<and>
      kf_contents f' = drop n (kf_contents f)"
    using f' kf_rewind [OF f'(2)] by (cases "kf_in f' = kf_out f'")
      (simp_all add: kf_get_def kfifo_get_def kf_cap_def)
qed

text \<open>
  C4. Whatever the order of reads and writes, also across the wrap of the 32-bit indices: no
  call touches memory outside the buffer, the bytes read are the bytes accepted in the order
  in which they were accepted, and what is not read yet is still there.
\<close>

theorem kfifo_stream:
  assumes "kf_ok f" "list_all (\<lambda>c. op_size c < 2 ^ 32) ops"
  shows "\<exists>acc del f'. fifo_run kf_put kf_get ops f = Some (acc, del, f') \<and> kf_ok f' \<and>
           kf_cap f' = kf_cap f \<and> del @ kf_contents f' = kf_contents f @ acc"
  using assms by (rule kf.stream)

text \<open>A FIFO of four bytes whose indices are about to wrap.\<close>

definition kfifo_example :: kfifo where
  "kfifo_example = \<lparr>kf_buffer = [1, 2, 3, 4], kf_size = 4, kf_in = 0, kf_out = 0xfffffffe\<rparr>"

theorem kfifo_stream_witness:
  "kf_ok kfifo_example \<and> kf_contents kfifo_example = [3, 4] \<and>
   (\<exists>acc del f'. fifo_run kf_put kf_get [Put [7, 8, 9], Get 3, Put [10]] kfifo_example =
      Some (acc, del, f') \<and> kf_ok f' \<and> kf_cap f' = kf_cap kfifo_example \<and>
      del @ kf_contents f' = kf_contents kfifo_example @ acc)"
proof -
  have ok: "kf_ok kfifo_example"
    by (simp add: kf_ok_def kfifo_example_def is_power_of_2_def)
  have "kf_contents kfifo_example = [3, 4]"
    by (simp add: kf_contents_def kfifo_example_def ring_def upt_conv_Cons)
  with ok show ?thesis
    using kfifo_stream [OF ok, of "[Put [7, 8, 9], Get 3, Put [10]]"] by simp
qed



end
