(* ===== verification/Xmit_Buf.thy ===== *)
theory Xmit_Buf
  imports Ring
begin

text \<open>
  The transmit buffer of a serial port: the circular-buffer macros of
  \<^verbatim>\<open>include/linux/circ_buf.h\<close>, their instances for one page in
  \<^verbatim>\<open>include/linux/serial_core.h\<close>, and the loops that fill it (\<^verbatim>\<open>uart_write\<close>,
  \<^verbatim>\<open>__uart_put_char\<close> of \<^verbatim>\<open>drivers/serial/serial_core.c\<close>). One byte of the page is always left
  free, so that head and tail differ when the buffer is full.
\<close>

unbundle bit_operations_syntax

section \<open>Definitions\<close>

record circ_buf =
  cb_buf :: "u8 list option"
  cb_head :: int
  cb_tail :: int

definition CIRC_CNT :: "int \<Rightarrow> int \<Rightarrow> int \<Rightarrow> int" where
  "CIRC_CNT head tail sz = (head - tail) AND (sz - 1)"

definition CIRC_SPACE :: "int \<Rightarrow> int \<Rightarrow> int \<Rightarrow> int" where
  "CIRC_SPACE head tail sz = CIRC_CNT tail (head + 1) sz"

definition CIRC_CNT_TO_END :: "int \<Rightarrow> int \<Rightarrow> int \<Rightarrow> int" where
  "CIRC_CNT_TO_END head tail sz = (
     let e = sz - tail; n = (head + e) AND (sz - 1) in if n < e then n else e)"

definition CIRC_SPACE_TO_END :: "int \<Rightarrow> int \<Rightarrow> int \<Rightarrow> int" where
  "CIRC_SPACE_TO_END head tail sz = (
     let e = sz - 1 - head; n = (e + tail) AND (sz - 1) in if n \<le> e then n else e + 1)"

definition UART_XMIT_SIZE :: int where "UART_XMIT_SIZE = 4096"

definition uart_circ_empty :: "circ_buf \<Rightarrow> bool" where
  "uart_circ_empty c \<longleftrightarrow> cb_head c = cb_tail c"

definition uart_circ_clear :: "circ_buf \<Rightarrow> circ_buf" where
  "uart_circ_clear c = c\<lparr>cb_head := 0, cb_tail := 0\<rparr>"

definition uart_circ_chars_pending :: "circ_buf \<Rightarrow> int" where
  "uart_circ_chars_pending c = CIRC_CNT (cb_head c) (cb_tail c) UART_XMIT_SIZE"

definition uart_circ_chars_free :: "circ_buf \<Rightarrow> int" where
  "uart_circ_chars_free c = CIRC_SPACE (cb_head c) (cb_tail c) UART_XMIT_SIZE"

text \<open>The body of \<^verbatim>\<open>__uart_put_char\<close>; an index outside the page is \<open>None\<close>.\<close>

definition circ_put_char :: "u8 \<Rightarrow> circ_buf \<Rightarrow> circ_buf option" where
  "circ_put_char ch c = (
     case cb_buf c of
       None \<Rightarrow> Some c
     | Some b \<Rightarrow>
         if uart_circ_chars_free c \<noteq> 0 then do {
           b \<leftarrow> memcpy_to (nat (cb_head c)) [ch] b;
           Some (c\<lparr>cb_buf := Some b, cb_head := (cb_head c + 1) AND (UART_XMIT_SIZE - 1)\<rparr>)
         } else Some c)"

text \<open>The copying loop of \<^verbatim>\<open>uart_write\<close>; the result is the number of bytes copied.\<close>

function uart_write_loop :: "u8 list \<Rightarrow> int \<Rightarrow> circ_buf \<Rightarrow> (int \<times> circ_buf) option" where
  "uart_write_loop buf count circ = (
     let c = CIRC_SPACE_TO_END (cb_head circ) (cb_tail circ) UART_XMIT_SIZE;
         c = (if count < c then count else c)
     in if c \<le> 0 then Some (0, circ)
     else case cb_buf circ of None \<Rightarrow> None | Some b \<Rightarrow>
       (case memcpy_from 0 (nat c) buf of None \<Rightarrow> None | Some xs \<Rightarrow>
       (case memcpy_to (nat (cb_head circ)) xs b of None \<Rightarrow> None | Some b \<Rightarrow>
         map_option (map_prod (\<lambda>ret. c + ret) id)
           (uart_write_loop (drop (nat c) buf) (count - c)
              (circ\<lparr>cb_buf := Some b,
                 cb_head := (cb_head circ + c) AND (UART_XMIT_SIZE - 1)\<rparr>)))))"
  by pat_completeness auto
termination
  by (relation "measure (\<lambda>(buf, count, circ). nat count)") (auto simp: Let_def split: if_splits)

text \<open>One step of the consumer: the byte at the tail, and the tail advanced.\<close>

definition circ_next :: "circ_buf \<Rightarrow> (u8 \<times> circ_buf) option" where
  "circ_next c = do {
     b \<leftarrow> cb_buf c;
     xs \<leftarrow> memcpy_from (nat (cb_tail c)) 1 b;
     Some (hd xs, c\<lparr>cb_tail := (cb_tail c + 1) AND (UART_XMIT_SIZE - 1)\<rparr>)
   }"

fun circ_take :: "nat \<Rightarrow> circ_buf \<Rightarrow> (u8 list \<times> circ_buf) option" where
  "circ_take 0 c = Some ([], c)"
| "circ_take (Suc n) c = (
     if uart_circ_empty c then Some ([], c)
     else do {
       (x, c) \<leftarrow> circ_next c;
       (xs, c) \<leftarrow> circ_take n c;
       Some (x # xs, c)
     })"

declare uart_write_loop.simps [simp del]

section \<open>The abstract queue\<close>

definition xmit_ok :: "circ_buf \<Rightarrow> bool" where
  "xmit_ok c \<longleftrightarrow> (\<exists>b. cb_buf c = Some b \<and> length b = 4096) \<and>
     0 \<le> cb_head c \<and> cb_head c < 4096 \<and> 0 \<le> cb_tail c \<and> cb_tail c < 4096"

definition xmit_contents :: "circ_buf \<Rightarrow> u8 list" where
  "xmit_contents c = (
     case cb_buf c of None \<Rightarrow> []
     | Some b \<Rightarrow> ring (nat (cb_tail c)) (nat ((cb_head c - cb_tail c) mod 4096)) b)"

definition xmit_put :: "u8 list \<Rightarrow> circ_buf \<Rightarrow> (nat \<times> circ_buf) option" where
  "xmit_put xs c = map_option (map_prod nat id) (uart_write_loop xs (int (length xs)) c)"

lemma and_4095: "(x :: int) AND (UART_XMIT_SIZE - 1) = x mod 4096"
proof -
  have "x AND mask 12 = x mod 2 ^ 12" by (metis take_bit_eq_mask take_bit_eq_mod)
  then show ?thesis by (simp add: UART_XMIT_SIZE_def mask_eq_exp_minus_1)
qed

lemmas circ_defs = CIRC_CNT_def CIRC_SPACE_def CIRC_CNT_TO_END_def CIRC_SPACE_TO_END_def
  uart_circ_chars_pending_def uart_circ_chars_free_def and_4095

lemma length_xmit:
  "xmit_ok c \<Longrightarrow> length (xmit_contents c) = nat ((cb_head c - cb_tail c) mod 4096)"
  by (auto simp: xmit_ok_def xmit_contents_def)

lemma chars_pending: "xmit_ok c \<Longrightarrow> uart_circ_chars_pending c = int (length (xmit_contents c))"
  by (simp add: circ_defs length_xmit)

lemma mod_4096: "-4096 \<le> x \<Longrightarrow> x < 4096 \<Longrightarrow> x mod 4096 = (if x < 0 then x + 4096 else (x :: int))"
  using mod_pos_pos_trivial [of "x + 4096" 4096] by simp

lemma chars_free: "xmit_ok c \<Longrightarrow> uart_circ_chars_free c = 4095 - int (length (xmit_contents c))"
  by (simp add: length_xmit) (simp add: circ_defs mod_4096 xmit_ok_def)

lemma circ_empty: "xmit_ok c \<Longrightarrow> uart_circ_empty c \<longleftrightarrow> xmit_contents c = []"
  by (simp add: length_xmit uart_circ_empty_def mod_4096 xmit_ok_def flip: length_0_conv)

lemma space_to_end:
  "xmit_ok c \<Longrightarrow> CIRC_SPACE_TO_END (cb_head c) (cb_tail c) UART_XMIT_SIZE =
     min (4095 - int (length (xmit_contents c))) (4096 - cb_head c)"
proof -
  assume ok: "xmit_ok c"
  let ?h = "cb_head c" and ?t = "cb_tail c"
  have r: "0 \<le> ?h" "?h < 4096" "0 \<le> ?t" "?t < 4096" using ok by (auto simp: xmit_ok_def)
  have "(UART_XMIT_SIZE - 1 - ?h + ?t) mod 4096 = (?t - ?h - 1 + 4096) mod 4096"
    by (simp add: UART_XMIT_SIZE_def algebra_simps)
  also have "\<dots> = (?t - ?h - 1) mod 4096" by (rule mod_add_self2)
  finally have "(UART_XMIT_SIZE - 1 - ?h + ?t) AND (UART_XMIT_SIZE - 1) = (?t - ?h - 1) mod 4096"
    by (simp only: and_4095)
  then show ?thesis using r
    by (simp add: CIRC_SPACE_TO_END_def length_xmit [OF ok] mod_4096)
      (simp add: UART_XMIT_SIZE_def min_def)
qed

text \<open>One contiguous piece written at the head.\<close>

lemma xmit_extend:
  assumes ok: "xmit_ok c" and b: "cb_buf c = Some b"
    and len: "length (xmit_contents c) + length xs \<le> 4095" "nat (cb_head c) + length xs \<le> 4096"
  shows "\<exists>b'. memcpy_to (nat (cb_head c)) xs b = Some b' \<and>
    (let c' = c\<lparr>cb_buf := Some b', cb_head := (cb_head c + int (length xs)) AND (UART_XMIT_SIZE - 1)\<rparr>
     in xmit_ok c' \<and> xmit_contents c' = xmit_contents c @ xs)"
proof -
  let ?h = "cb_head c" and ?t = "cb_tail c"
  have r: "0 \<le> ?h" "?h < 4096" "0 \<le> ?t" "?t < 4096" "length b = 4096"
    using ok b by (auto simp: xmit_ok_def)
  define n where "n = nat ((?h - ?t) mod 4096)"
  have n: "length (xmit_contents c) = n" "xmit_contents c = ring (nat ?t) n b"
    using length_xmit [OF ok] b by (simp_all add: n_def xmit_contents_def)
  have w: "(nat ?t + n) mod length b = nat ?h"
  proof -
    have "int ((nat ?t + n) mod 4096) = (?t + (?h - ?t) mod 4096) mod 4096"
      using r by (simp add: n_def zmod_int)
    also have "\<dots> = ?h" using r by (simp add: mod_simps)
    finally show ?thesis using r by simp
  qed
  obtain b' where b': "memcpy_to (nat ?h) xs b = Some b'" using len(2) r(5) by (simp add: memcpy_to_def)
  have "ring (nat ?t) (n + length xs) b' = ring (nat ?t) n b @ xs"
    using ring_extend [of b n xs "nat ?t" b'] b' len(1) n(1) r(5) w by simp
  moreover have "nat (((?h + int (length xs)) mod 4096 - ?t) mod 4096) = n + length xs"
  proof -
    have "((?h + int (length xs)) mod 4096 - ?t) mod 4096 = ((?h - ?t) mod 4096 + int (length xs)) mod 4096"
      by (simp add: mod_simps algebra_simps)
    also have "\<dots> = (?h - ?t) mod 4096 + int (length xs)"
      using len(1) n(1) by (intro mod_pos_pos_trivial) (auto simp: n_def)
    finally show ?thesis by (simp add: n_def nat_add_distrib)
  qed
  ultimately show ?thesis
    using b' r memcpy_to_length [OF b'] n(2) by (simp add: xmit_ok_def xmit_contents_def and_4095)
qed


lemma uart_write_loop_law:
  assumes "xmit_ok c" "count = int (length buf)"
  shows "\<exists>c'. uart_write_loop buf count c =
      Some (int (min (length buf) (4095 - length (xmit_contents c))), c') \<and> xmit_ok c' \<and>
    xmit_contents c' = xmit_contents c @ take (4095 - length (xmit_contents c)) buf"
  using assms
proof (induction buf count c rule: uart_write_loop.induct)
  case (1 buf count c)
  let ?n = "length (xmit_contents c)"
  define m where "m = CIRC_SPACE_TO_END (cb_head c) (cb_tail c) UART_XMIT_SIZE"
  define k where "k = (if count < m then count else m)"
  have r: "0 \<le> cb_head c" "cb_head c < 4096" "?n \<le> 4095"
    using "1.prems"(1) length_xmit [OF "1.prems"(1)] by (auto simp: xmit_ok_def nat_le_iff)
  have k: "k = min count (min (4095 - int ?n) (4096 - cb_head c))"
    unfolding k_def m_def space_to_end [OF "1.prems"(1)] by auto
  show ?case
  proof (cases "k \<le> 0")
    case True
    then have "length buf = 0 \<or> ?n = 4095" using k r "1.prems"(2) by linarith
    moreover have "uart_write_loop buf count c = Some (0, c)"
      using uart_write_loop.simps [of buf count c] unfolding m_def [symmetric] Let_def
        k_def [symmetric] by (simp only: True if_True)
    ultimately show ?thesis using "1.prems"(1) by auto
  next
    case False
    obtain b where b: "cb_buf c = Some b" using "1.prems"(1) by (auto simp: xmit_ok_def)
    have len: "length (take (nat k) buf) = nat k" using k "1.prems"(2) by auto
    have fit: "?n + nat k \<le> 4095" "nat (cb_head c) + nat k \<le> 4096" using k r False by linarith+
    obtain b' where b': "memcpy_to (nat (cb_head c)) (take (nat k) buf) b = Some b'"
      and c': "xmit_ok (c\<lparr>cb_buf := Some b', cb_head := (cb_head c + k) AND (UART_XMIT_SIZE - 1)\<rparr>)"
        "xmit_contents (c\<lparr>cb_buf := Some b', cb_head := (cb_head c + k) AND (UART_XMIT_SIZE - 1)\<rparr>)
          = xmit_contents c @ take (nat k) buf"
      using xmit_extend [OF "1.prems"(1) b, of "take (nat k) buf"] fit False unfolding len Let_def by auto
    have f: "memcpy_from 0 (nat k) buf = Some (take (nat k) buf)"
      using k "1.prems"(2) by (simp add: memcpy_from_def)
    define c1 where "c1 = c\<lparr>cb_buf := Some b', cb_head := (cb_head c + k) AND (UART_XMIT_SIZE - 1)\<rparr>"
    have ih: "\<exists>c'. uart_write_loop (drop (nat k) buf) (count - k) c1 =
          Some (int (min (length (drop (nat k) buf)) (4095 - length (xmit_contents c1))), c') \<and>
        xmit_ok c' \<and> xmit_contents c' =
          xmit_contents c1 @ take (4095 - length (xmit_contents c1)) (drop (nat k) buf)"
      unfolding c1_def
      by (rule "1.IH" [OF m_def k_def False b f b' c'(1)]) (use k "1.prems"(2) False in auto)
    have c1: "xmit_contents c1 = xmit_contents c @ take (nat k) buf" using c'(2) by (simp add: c1_def)
    have l1: "length (xmit_contents c1) = ?n + nat k" using len by (simp add: c1)
    have "uart_write_loop buf count c =
        map_option (map_prod (\<lambda>ret. k + ret) id) (uart_write_loop (drop (nat k) buf) (count - k) c1)"
      using uart_write_loop.simps [of buf count c] unfolding m_def [symmetric] Let_def
        k_def [symmetric] c1_def by (simp only: False b f b' if_False option.case)
    moreover have "k + int (min (length buf - nat k) (4095 - (?n + nat k))) = int (min (length buf) (4095 - ?n))"
    proof -
      have "nat k \<le> length buf" using k "1.prems"(2) by simp
      then have "nat k + min (length buf - nat k) (4095 - (?n + nat k)) = min (length buf) (4095 - ?n)"
        using fit(1) by linarith
      then show ?thesis using False by (metis int_nat_eq of_nat_add linorder_le_cases)
    qed
    moreover have "take (nat k) buf @ take (4095 - (?n + nat k)) (drop (nat k) buf) = take (4095 - ?n) buf"
      using fit(1) take_add [of "nat k" "4095 - (?n + nat k)" buf] by simp
    ultimately show ?thesis using ih unfolding l1 by (auto simp: c1)
  qed
qed


lemma circ_next_law:
  assumes ok: "xmit_ok c" and ne: "xmit_contents c \<noteq> []"
  shows "\<exists>c'. circ_next c = Some (hd (xmit_contents c), c') \<and> xmit_ok c' \<and>
    xmit_contents c' = tl (xmit_contents c) \<and> cb_head c' = cb_head c"
proof -
  let ?h = "cb_head c" and ?t = "cb_tail c"
  obtain b where b: "cb_buf c = Some b" "length b = 4096" using ok by (auto simp: xmit_ok_def)
  have r: "0 \<le> ?h" "?h < 4096" "0 \<le> ?t" "?t < 4096" using ok by (auto simp: xmit_ok_def)
  define n where "n = nat ((?h - ?t) mod 4096)"
  have c: "xmit_contents c = ring (nat ?t) n b" using b by (simp add: n_def xmit_contents_def)
  have n: "0 < n" using ne c by (cases n) auto
  have hd: "hd (xmit_contents c) = b ! nat ?t"
    using n r b(2) by (simp add: c hd_conv_nth flip: length_greater_0_conv)
  have "memcpy_from (nat ?t) 1 b = Some [b ! nat ?t]"
    using r b(2) by (simp add: memcpy_from_def take_Suc_conv_app_nth Suc_leI)
  then have "circ_next c = Some (hd (xmit_contents c), c\<lparr>cb_tail := (?t + 1) mod 4096\<rparr>)"
    using b(1) by (simp add: circ_next_def hd and_4095)
  moreover have "xmit_contents (c\<lparr>cb_tail := (?t + 1) mod 4096\<rparr>) = tl (xmit_contents c)"
  proof -
    have "(?h - (?t + 1) mod 4096) mod 4096 = ((?h - ?t) mod 4096 - 1) mod 4096"
      by (simp add: mod_simps algebra_simps)
    also have "\<dots> = (?h - ?t) mod 4096 - 1" 
      using n by (intro mod_pos_pos_trivial) (auto simp: n_def intro: order_less_trans [OF _ pos_mod_bound])
    finally have "nat ((?h - (?t + 1) mod 4096) mod 4096) = n - 1" using n by (simp add: n_def)
    moreover have "nat ((?t + 1) mod 4096) = (nat ?t + 1) mod length b"
      using r b(2) by (simp add: nat_mod_distrib nat_add_distrib)
    moreover have "tl (xmit_contents c) = ring (nat ?t + 1) (n - 1) b"
      using drop_ring [of 1 "nat ?t" n b] by (simp add: c drop_Suc)
    ultimately show ?thesis
      using b(1) by (simp add: xmit_contents_def [of "c\<lparr>cb_tail := _\<rparr>"] ring_mod)
  qed
  ultimately show ?thesis using ok by (auto simp: xmit_ok_def)
qed


lemma circ_take_law:
  "xmit_ok c \<Longrightarrow> \<exists>c'. circ_take n c = Some (take n (xmit_contents c), c') \<and> xmit_ok c' \<and>
     xmit_contents c' = drop n (xmit_contents c)"
proof (induction n arbitrary: c)
  case (Suc n)
  show ?case
  proof (cases "xmit_contents c = []")
    case True
    then show ?thesis using Suc.prems by (simp add: circ_empty)
  next
    case False
    obtain c1 where c1: "circ_next c = Some (hd (xmit_contents c), c1)" "xmit_ok c1"
      "xmit_contents c1 = tl (xmit_contents c)"
      using circ_next_law [OF Suc.prems False] by blast
    obtain c2 where "circ_take n c1 = Some (take n (xmit_contents c1), c2)" "xmit_ok c2"
      "xmit_contents c2 = drop n (xmit_contents c1)"
      using Suc.IH [OF c1(2)] by blast
    then show ?thesis using c1 False Suc.prems
      by (cases "xmit_contents c") (simp_all add: circ_empty)
  qed
qed simp

lemma circ_put_char_law:
  assumes "xmit_ok c"
  shows "\<exists>c'. circ_put_char ch c = Some c' \<and> xmit_ok c' \<and>
    xmit_contents c' = (if length (xmit_contents c) < 4095 then xmit_contents c @ [ch] else xmit_contents c)"
proof -
  obtain b where b: "cb_buf c = Some b" using assms by (auto simp: xmit_ok_def)
  have l: "length (xmit_contents c) \<le> 4095"
    using length_xmit [OF assms] by (simp add: nat_le_iff)
  have "nat (cb_head c) + length [ch] \<le> 4096" using assms by (auto simp: xmit_ok_def)
  then show ?thesis
    using xmit_extend [OF assms b, of "[ch]"] l b assms
    by (auto simp: circ_put_char_def chars_free Let_def)
qed

interpretation xb: fifo xmit_ok xmit_contents "\<lambda>_. 4095" "2 ^ 31" xmit_put circ_take
proof
  show "length (xmit_contents c) \<le> 4095" if "xmit_ok c" for c
    using length_xmit [OF that] by (simp add: nat_le_iff)
next
  fix c :: circ_buf and xs :: "u8 list"
  assume "xmit_ok c"
  then show "\<exists>c'. xmit_put xs c = Some (min (length xs) (4095 - length (xmit_contents c)), c') \<and>
      xmit_ok c' \<and> 4095 = 4095 \<and>
      xmit_contents c' = xmit_contents c @ take (4095 - length (xmit_contents c)) xs"
    using uart_write_loop_law [of c "int (length xs)" xs] by (auto simp: xmit_put_def)
next
  fix c :: circ_buf and n :: nat
  assume "xmit_ok c"
  then show "\<exists>c'. circ_take n c = Some (take n (xmit_contents c), c') \<and> xmit_ok c' \<and> 4095 = 4095 \<and>
      xmit_contents c' = drop n (xmit_contents c)"
    using circ_take_law [of c n] by auto
qed

end
