(* ===== verification/Serial_Core.thy ===== *)
theory Serial_Core
  imports Irq_Core Xmit_Buf
begin

text \<open>
  The serial core (\<^verbatim>\<open>drivers/serial/serial_core.c\<close>, \<^verbatim>\<open>include/linux/serial_core.h\<close>): the
  operations a terminal calls on a port, on top of the operations of a driver. The state of the
  ports lives in the hardware component of the interrupt system's state, beside the registers,
  because interrupt handlers change it. \<^verbatim>\<open>state->info\<close> and \<^verbatim>\<open>port->info\<close> are one pointer and
  kept once. Spin locks and mutexes have no effect on one processor; what happens while a call
  sleeps is an argument. A dereferenced null pointer is \<open>None\<close>.

  The tty layer's buffer of received characters is a list of characters with their flags and
  the number of characters it still has memory for.
\<close>

section \<open>Data\<close>

record uart_icount =
  ic_rx :: u32
  ic_tx :: u32
  ic_frame :: u32
  ic_overrun :: u32
  ic_brk :: u32

record ktermios =
  c_iflag :: u32
  c_cflag :: u32
  c_start :: u8
  c_stop :: u8
  c_ispeed :: u32
  c_ospeed :: u32

record tty_struct =
  tty_stopped :: bool
  tty_hw_stopped :: bool
  tty_io_error :: bool
  tty_throttled :: bool
  tty_closing :: bool
  tty_termios :: ktermios
  tty_flip :: "(u8 \<times> u8) list"
  tty_room :: nat
  tty_pushed :: bool
  tty_wakeups :: nat
  tty_saks :: nat

record uart_info =
  ui_tty :: "tty_struct option"
  ui_xmit :: circ_buf
  ui_flags :: u32
  ui_tasklet :: bool

record uart_port =
  up_mapbase :: u32
  up_irq :: int
  up_uartclk :: u32
  up_fifosize :: u32
  up_x_char :: u8
  up_read_status_mask :: u32
  up_ignore_status_mask :: u32
  up_icount :: uart_icount
  up_flags :: u32
  up_mctrl :: u32
  up_type :: u32
  up_line :: u32
  up_is_console :: bool
  up_info :: "uart_info option"

record uart_state =
  us_count :: int
  us_pm_state :: int
  us_closing_wait :: u32

record mp25xxf_uart_port =
  mp_port :: uart_port
  mp_txirq :: int
  mp_rxirq :: int
  mp_rx_claimed :: bool
  mp_tx_claimed :: bool

record 'h uart_hw =
  regs :: 'h
  mports :: "nat \<Rightarrow> mp25xxf_uart_port"
  ustates :: "nat \<Rightarrow> uart_state"
  uartok :: int

type_synonym 'h usys = "'h uart_hw irq_sys"

record 'h uart_ops =
  op_tx_empty :: "nat \<Rightarrow> 'h usys \<Rightarrow> u32 \<times> 'h usys"
  op_set_mctrl :: "nat \<Rightarrow> u32 \<Rightarrow> 'h usys \<Rightarrow> 'h usys"
  op_get_mctrl :: "nat \<Rightarrow> 'h usys \<Rightarrow> u32 \<times> 'h usys"
  op_stop_tx :: "nat \<Rightarrow> 'h usys \<Rightarrow> 'h usys option"
  op_start_tx :: "nat \<Rightarrow> 'h usys \<Rightarrow> 'h usys option"
  op_send_xchar :: "(nat \<Rightarrow> u8 \<Rightarrow> 'h usys \<Rightarrow> 'h usys option) option"
  op_stop_rx :: "nat \<Rightarrow> 'h usys \<Rightarrow> 'h usys option"
  op_break_ctl :: "nat \<Rightarrow> int \<Rightarrow> 'h usys \<Rightarrow> 'h usys"
  op_startup :: "nat \<Rightarrow> 'h usys \<Rightarrow> ((errno + unit) \<times> 'h usys) option"
  op_shutdown :: "nat \<Rightarrow> 'h usys \<Rightarrow> 'h usys option"
  op_set_termios :: "nat \<Rightarrow> ktermios \<Rightarrow> 'h usys \<Rightarrow> 'h usys"
  op_pm :: "(nat \<Rightarrow> int \<Rightarrow> int \<Rightarrow> 'h usys \<Rightarrow> 'h usys) option"

definition UIF_CHECK_CD :: u32 where "UIF_CHECK_CD = 0x2000000"
definition UIF_CTS_FLOW :: u32 where "UIF_CTS_FLOW = 0x4000000"
definition UIF_NORMAL_ACTIVE :: u32 where "UIF_NORMAL_ACTIVE = 0x20000000"
definition UIF_INITIALIZED :: u32 where "UIF_INITIALIZED = 0x80000000"

definition UPF_SAK :: u32 where "UPF_SAK = 4"
definition UPF_BOOT_AUTOCONF :: u32 where "UPF_BOOT_AUTOCONF = 0x10000000"

definition PORT_UNKNOWN :: u32 where "PORT_UNKNOWN = 0"

definition IGNBRK :: u32 where "IGNBRK = 1"
definition BRKINT :: u32 where "BRKINT = 2"
definition IGNPAR :: u32 where "IGNPAR = 4"
definition PARMRK :: u32 where "PARMRK = 8"
definition INPCK :: u32 where "INPCK = 0x10"
definition IXOFF :: u32 where "IXOFF = 0x1000"
definition CBAUD :: u32 where "CBAUD = 0x100f"
definition CREAD :: u32 where "CREAD = 0x80"
definition HUPCL :: u32 where "HUPCL = 0x400"
definition CLOCAL :: u32 where "CLOCAL = 0x800"
definition CRTSCTS :: u32 where "CRTSCTS = 0x80000000"

definition TIOCM_DTR :: u32 where "TIOCM_DTR = 2"
definition TIOCM_RTS :: u32 where "TIOCM_RTS = 4"
definition TIOCM_CTS :: u32 where "TIOCM_CTS = 0x20"
definition TIOCM_CAR :: u32 where "TIOCM_CAR = 0x40"
definition TIOCM_RI :: u32 where "TIOCM_RI = 0x80"
definition TIOCM_DSR :: u32 where "TIOCM_DSR = 0x100"

definition TTY_NORMAL :: u8 where "TTY_NORMAL = 0"
definition TTY_BREAK :: u8 where "TTY_BREAK = 1"
definition TTY_FRAME :: u8 where "TTY_FRAME = 2"
definition TTY_PARITY :: u8 where "TTY_PARITY = 3"
definition TTY_OVERRUN :: u8 where "TTY_OVERRUN = 4"

definition WAKEUP_CHARS :: int where "WAKEUP_CHARS = 256"
definition USF_CLOSING_WAIT_NONE :: u32 where "USF_CLOSING_WAIT_NONE = 0xffffffff"

section \<open>Access to the state\<close>

definition uport :: "nat \<Rightarrow> 'h usys \<Rightarrow> uart_port" where
  "uport n s = mp_port (mports (hw s) n)"

definition mport_upd ::
  "nat \<Rightarrow> (mp25xxf_uart_port \<Rightarrow> mp25xxf_uart_port) \<Rightarrow> 'h usys \<Rightarrow> 'h usys" where
  "mport_upd n f s =
     s\<lparr>hw := (hw s)\<lparr>mports := (mports (hw s))(n := f (mports (hw s) n))\<rparr>\<rparr>"

definition port_upd :: "nat \<Rightarrow> (uart_port \<Rightarrow> uart_port) \<Rightarrow> 'h usys \<Rightarrow> 'h usys" where
  "port_upd n f = mport_upd n (mp_port_update f)"

definition info_upd :: "nat \<Rightarrow> (uart_info \<Rightarrow> uart_info) \<Rightarrow> 'h usys \<Rightarrow> 'h usys" where
  "info_upd n f = port_upd n (up_info_update (map_option f))"

definition tty_upd :: "nat \<Rightarrow> (tty_struct \<Rightarrow> tty_struct) \<Rightarrow> 'h usys \<Rightarrow> 'h usys" where
  "tty_upd n f = info_upd n (ui_tty_update (map_option f))"

definition state_upd :: "nat \<Rightarrow> (uart_state \<Rightarrow> uart_state) \<Rightarrow> 'h usys \<Rightarrow> 'h usys" where
  "state_upd n f s =
     s\<lparr>hw := (hw s)\<lparr>ustates := (ustates (hw s))(n := f (ustates (hw s) n))\<rparr>\<rparr>"

definition regs_upd :: "('h \<Rightarrow> 'h) \<Rightarrow> 'h usys \<Rightarrow> 'h usys" where
  "regs_upd f s = s\<lparr>hw := (hw s)\<lparr>regs := f (regs (hw s))\<rparr>\<rparr>"

definition port_info :: "nat \<Rightarrow> 'h usys \<Rightarrow> uart_info option" where
  "port_info n s = up_info (uport n s)"

definition port_tty :: "nat \<Rightarrow> 'h usys \<Rightarrow> tty_struct option" where
  "port_tty n s = Option.bind (port_info n s) ui_tty"

section \<open>Transmission\<close>

definition uart_write_wakeup :: "nat \<Rightarrow> 'h usys \<Rightarrow> 'h usys option" where
  "uart_write_wakeup n s = do {
     _ \<leftarrow> port_info n s;
     Some (info_upd n (ui_tasklet_update (\<lambda>_. True)) s)
   }"

definition uart_tasklet_action :: "nat \<Rightarrow> 'h usys \<Rightarrow> 'h usys option" where
  "uart_tasklet_action n s = do {
     _ \<leftarrow> port_tty n s;
     Some (tty_upd n (tty_wakeups_update Suc) s)
   }"

definition uart_tx_stopped :: "nat \<Rightarrow> 'h usys \<Rightarrow> bool option" where
  "uart_tx_stopped n s = map_option (\<lambda>t. tty_stopped t \<or> tty_hw_stopped t) (port_tty n s)"

definition uart_stop :: "'h uart_ops \<Rightarrow> nat \<Rightarrow> 'h usys \<Rightarrow> 'h usys option" where
  "uart_stop ops n s = op_stop_tx ops n s"

definition raw_uart_start :: "'h uart_ops \<Rightarrow> nat \<Rightarrow> 'h usys \<Rightarrow> 'h usys option" where
  "raw_uart_start ops n s = do {
     i \<leftarrow> port_info n s;
     t \<leftarrow> ui_tty i;
     if \<not> uart_circ_empty (ui_xmit i) \<and> cb_buf (ui_xmit i) \<noteq> None \<and>
        \<not> tty_stopped t \<and> \<not> tty_hw_stopped t
     then op_start_tx ops n s else Some s
   }"

definition uart_start :: "'h uart_ops \<Rightarrow> nat \<Rightarrow> 'h usys \<Rightarrow> 'h usys option" where
  "uart_start ops n s = raw_uart_start ops n s"

definition uart_put_char :: "nat \<Rightarrow> u8 \<Rightarrow> 'h usys \<Rightarrow> 'h usys option" where
  "uart_put_char n ch s = do {
     i \<leftarrow> port_info n s;
     c \<leftarrow> circ_put_char ch (ui_xmit i);
     Some (info_upd n (ui_xmit_update (\<lambda>_. c)) s)
   }"

definition uart_flush_chars :: "'h uart_ops \<Rightarrow> nat \<Rightarrow> 'h usys \<Rightarrow> 'h usys option" where
  "uart_flush_chars ops n s = uart_start ops n s"

definition uart_write ::
  "'h uart_ops \<Rightarrow> nat \<Rightarrow> u8 list \<Rightarrow> int \<Rightarrow> 'h usys \<Rightarrow> ((errno + int) \<times> 'h usys) option" where
  "uart_write ops n buf count s = (
     case port_info n s of
       None \<Rightarrow> Some (Inl EL3HLT, s)
     | Some i \<Rightarrow>
         if cb_buf (ui_xmit i) = None then Some (Inr 0, s)
         else do {
           (ret, c) \<leftarrow> uart_write_loop buf count (ui_xmit i);
           s \<leftarrow> uart_start ops n (info_upd n (ui_xmit_update (\<lambda>_. c)) s);
           Some (Inr ret, s)
         })"

definition uart_write_room :: "nat \<Rightarrow> 'h usys \<Rightarrow> int option" where
  "uart_write_room n s = map_option (\<lambda>i. uart_circ_chars_free (ui_xmit i)) (port_info n s)"

definition uart_chars_in_buffer :: "nat \<Rightarrow> 'h usys \<Rightarrow> int option" where
  "uart_chars_in_buffer n s = map_option (\<lambda>i. uart_circ_chars_pending (ui_xmit i)) (port_info n s)"

definition uart_flush_buffer :: "nat \<Rightarrow> 'h usys \<Rightarrow> 'h usys" where
  "uart_flush_buffer n s = (
     case port_info n s of
       None \<Rightarrow> s
     | Some i \<Rightarrow> tty_upd n (tty_wakeups_update Suc)
                  (info_upd n (ui_xmit_update uart_circ_clear) s))"

definition uart_send_xchar :: "'h uart_ops \<Rightarrow> nat \<Rightarrow> u8 \<Rightarrow> 'h usys \<Rightarrow> 'h usys option" where
  "uart_send_xchar ops n ch s = (
     case op_send_xchar ops of
       Some f \<Rightarrow> f n ch s
     | None \<Rightarrow>
         let s = port_upd n (up_x_char_update (\<lambda>_. ch)) s
         in if ch \<noteq> 0 then op_start_tx ops n s else Some s)"

section \<open>Modem lines and line settings\<close>

definition uart_update_mctrl :: "'h uart_ops \<Rightarrow> nat \<Rightarrow> u32 \<Rightarrow> u32 \<Rightarrow> 'h usys \<Rightarrow> 'h usys" where
  "uart_update_mctrl ops n set_bits clear s = (
     let old = up_mctrl (uport n s);
         new = (old AND NOT clear) OR set_bits;
         s = port_upd n (up_mctrl_update (\<lambda>_. new)) s
     in if old \<noteq> new then op_set_mctrl ops n new s else s)"

definition uart_throttle :: "'h uart_ops \<Rightarrow> nat \<Rightarrow> 'h usys \<Rightarrow> 'h usys option" where
  "uart_throttle ops n s = do {
     t \<leftarrow> port_tty n s;
     s \<leftarrow> (if has (c_iflag (tty_termios t)) IXOFF
          then uart_send_xchar ops n (c_stop (tty_termios t)) s else Some s);
     Some (if has (c_cflag (tty_termios t)) CRTSCTS
           then uart_update_mctrl ops n 0 TIOCM_RTS s else s)
   }"

definition uart_unthrottle :: "'h uart_ops \<Rightarrow> nat \<Rightarrow> 'h usys \<Rightarrow> 'h usys option" where
  "uart_unthrottle ops n s = do {
     t \<leftarrow> port_tty n s;
     s \<leftarrow> (if has (c_iflag (tty_termios t)) IXOFF then
            (if up_x_char (uport n s) \<noteq> 0 then Some (port_upd n (up_x_char_update (\<lambda>_. 0)) s)
             else uart_send_xchar ops n (c_start (tty_termios t)) s)
          else Some s);
     Some (if has (c_cflag (tty_termios t)) CRTSCTS
           then uart_update_mctrl ops n TIOCM_RTS 0 s else s)
   }"

definition uart_tiocmget ::
  "'h uart_ops \<Rightarrow> bool \<Rightarrow> nat \<Rightarrow> 'h usys \<Rightarrow> ((errno + u32) \<times> 'h usys) option" where
  "uart_tiocmget ops hung_up n s = do {
     t \<leftarrow> port_tty n s;
     Some (if \<not> hung_up \<and> \<not> tty_io_error t then
             (let (m, s') = op_get_mctrl ops n s in (Inr (up_mctrl (uport n s) OR m), s'))
           else (Inl EIO, s))
   }"

definition uart_tiocmset ::
  "'h uart_ops \<Rightarrow> bool \<Rightarrow> nat \<Rightarrow> u32 \<Rightarrow> u32 \<Rightarrow> 'h usys \<Rightarrow> ((errno + unit) \<times> 'h usys) option" where
  "uart_tiocmset ops hung_up n set_bits clear s = do {
     t \<leftarrow> port_tty n s;
     Some (if \<not> hung_up \<and> \<not> tty_io_error t
           then (Inr (), uart_update_mctrl ops n set_bits clear s)
           else (Inl EIO, s))
   }"

definition uart_break_ctl :: "'h uart_ops \<Rightarrow> nat \<Rightarrow> int \<Rightarrow> 'h usys \<Rightarrow> 'h usys" where
  "uart_break_ctl ops n break_state s =
     (if up_type (uport n s) \<noteq> PORT_UNKNOWN then op_break_ctl ops n break_state s else s)"

definition uart_change_speed :: "'h uart_ops \<Rightarrow> nat \<Rightarrow> 'h usys \<Rightarrow> 'h usys option" where
  "uart_change_speed ops n s = do {
     i \<leftarrow> port_info n s;
     case ui_tty i of
       None \<Rightarrow> Some s
     | Some t \<Rightarrow>
         if up_type (uport n s) = PORT_UNKNOWN then Some s
         else let cflag = c_cflag (tty_termios t);
                  s = info_upd n (ui_flags_update (\<lambda>f.
                        if has cflag CRTSCTS then f OR UIF_CTS_FLOW else f AND NOT UIF_CTS_FLOW)) s;
                  s = info_upd n (ui_flags_update (\<lambda>f.
                        if has cflag CLOCAL then f AND NOT UIF_CHECK_CD else f OR UIF_CHECK_CD)) s
              in Some (op_set_termios ops n (tty_termios t) s)
   }"

definition RELEVANT_IFLAG :: "u32 \<Rightarrow> u32" where
  "RELEVANT_IFLAG iflag = iflag AND (IGNBRK OR BRKINT OR IGNPAR OR PARMRK OR INPCK)"

text \<open>\<open>old\<close> is the previous setting; the new one is already in the tty.\<close>

definition uart_set_termios :: "'h uart_ops \<Rightarrow> nat \<Rightarrow> ktermios \<Rightarrow> 'h usys \<Rightarrow> 'h usys option" where
  "uart_set_termios ops n old s = do {
     t \<leftarrow> port_tty n s;
     let new = tty_termios t;
         cflag = c_cflag new
     in if cflag XOR c_cflag old = 0 \<and> c_ospeed new = c_ospeed old \<and> c_ispeed new = c_ispeed old \<and>
           RELEVANT_IFLAG (c_iflag new XOR c_iflag old) = 0
     then Some s
     else do {
       s \<leftarrow> uart_change_speed ops n s;
       s \<leftarrow> Some (if has (c_cflag old) CBAUD \<and> \<not> has cflag CBAUD
                  then uart_update_mctrl ops n 0 (TIOCM_RTS OR TIOCM_DTR) s else s);
       s \<leftarrow> Some (if \<not> has (c_cflag old) CBAUD \<and> has cflag CBAUD
                  then uart_update_mctrl ops n
                         (if \<not> has cflag CRTSCTS \<or> \<not> tty_throttled t
                          then TIOCM_DTR OR TIOCM_RTS else TIOCM_DTR) 0 s
                  else s);
       s \<leftarrow> (if has (c_cflag old) CRTSCTS \<and> \<not> has cflag CRTSCTS
            then raw_uart_start ops n (tty_upd n (tty_hw_stopped_update (\<lambda>_. False)) s)
            else Some s);
       if \<not> has (c_cflag old) CRTSCTS \<and> has cflag CRTSCTS then
         (let (m, s) = op_get_mctrl ops n s
          in if \<not> has m TIOCM_CTS
             then op_stop_tx ops n (tty_upd n (tty_hw_stopped_update (\<lambda>_. True)) s)
             else Some s)
       else Some s
     }
   }"

section \<open>Opening and closing\<close>

text \<open>\<open>page\<close> says whether a page can be allocated, \<open>admin\<close> whether the caller has
  \<^verbatim>\<open>CAP_SYS_ADMIN\<close>.\<close>

definition uart_startup ::
  "'h uart_ops \<Rightarrow> bool \<Rightarrow> bool \<Rightarrow> bool \<Rightarrow> nat \<Rightarrow> 'h usys \<Rightarrow> ((errno + unit) \<times> 'h usys) option" where
  "uart_startup ops page admin init_hw n s = do {
     i \<leftarrow> port_info n s;
     if has (ui_flags i) UIF_INITIALIZED then Some (Inr (), s)
     else do {
       t \<leftarrow> ui_tty i;
       s \<leftarrow> Some (tty_upd n (tty_io_error_update (\<lambda>_. True)) s);
       if up_type (uport n s) = PORT_UNKNOWN then Some (Inr (), s)
       else if cb_buf (ui_xmit i) = None \<and> \<not> page then Some (Inl ENOMEM, s)
       else do {
         s \<leftarrow> Some (if cb_buf (ui_xmit i) = None
                    then info_upd n (ui_xmit_update (\<lambda>c.
                           uart_circ_clear (c\<lparr>cb_buf := Some (replicate 4096 0)\<rparr>))) s
                    else s);
         (ret, s) \<leftarrow> op_startup ops n s;
         case ret of
           Inl e \<Rightarrow> Some (if admin then Inr () else Inl e, s)
         | Inr _ \<Rightarrow> do {
             s \<leftarrow> (if init_hw then do {
                    s \<leftarrow> uart_change_speed ops n s;
                    Some (if has (c_cflag (tty_termios t)) CBAUD
                          then uart_update_mctrl ops n (TIOCM_RTS OR TIOCM_DTR) 0 s else s)
                  } else Some s);
             i \<leftarrow> port_info n s;
             s \<leftarrow> Some (if has (ui_flags i) UIF_CTS_FLOW then
                    (let (m, s) = op_get_mctrl ops n s
                     in if \<not> has m TIOCM_CTS
                        then tty_upd n (tty_hw_stopped_update (\<lambda>_. True)) s else s)
                  else s);
             s \<leftarrow> Some (info_upd n (ui_flags_update (\<lambda>f. f OR UIF_INITIALIZED)) s);
             Some (Inr (), tty_upd n (tty_io_error_update (\<lambda>_. False)) s)
           }
       }
     }
   }"

definition uart_shutdown :: "'h uart_ops \<Rightarrow> nat \<Rightarrow> 'h usys \<Rightarrow> 'h usys option" where
  "uart_shutdown ops n s = do {
     i \<leftarrow> port_info n s;
     s \<leftarrow> Some (tty_upd n (tty_io_error_update (\<lambda>_. True)) s);
     s \<leftarrow> (if has (ui_flags i) UIF_INITIALIZED then do {
            s \<leftarrow> Some (info_upd n (ui_flags_update (\<lambda>f. f AND NOT UIF_INITIALIZED)) s);
            s \<leftarrow> Some (if (case ui_tty i of None \<Rightarrow> True
                             | Some t \<Rightarrow> has (c_cflag (tty_termios t)) HUPCL)
                       then uart_update_mctrl ops n 0 (TIOCM_DTR OR TIOCM_RTS) s else s);
            op_shutdown ops n s
          } else Some s);
     Some (info_upd n (\<lambda>i. i\<lparr>ui_tasklet := False, ui_xmit := (ui_xmit i)\<lparr>cb_buf := None\<rparr>\<rparr>) s)
   }"

definition uart_change_pm :: "'h uart_ops \<Rightarrow> nat \<Rightarrow> int \<Rightarrow> 'h usys \<Rightarrow> 'h usys" where
  "uart_change_pm ops n pm_state s = (
     let old = us_pm_state (ustates (hw s) n)
     in if old \<noteq> pm_state then
          state_upd n (us_pm_state_update (\<lambda>_. pm_state))
            (case op_pm ops of None \<Rightarrow> s | Some f \<Rightarrow> f n pm_state old s)
        else s)"

text \<open>
  The last close of a port. \<open>drain\<close> and \<open>sent\<close> are what happens while it waits for the
  buffer and then for the hardware; \<open>blocked\<close> is \<^verbatim>\<open>info->blocked_open\<close>.
\<close>

definition uart_close_last ::
  "'h uart_ops \<Rightarrow> ('h usys \<Rightarrow> 'h usys) \<Rightarrow> ('h usys \<Rightarrow> 'h usys) \<Rightarrow> int \<Rightarrow> nat \<Rightarrow> 'h usys \<Rightarrow>
     'h usys option" where
  "uart_close_last ops drain sent blocked n s = do {
     s \<leftarrow> Some (tty_upd n (tty_closing_update (\<lambda>_. True)) s);
     s \<leftarrow> Some (if us_closing_wait (ustates (hw s) n) \<noteq> USF_CLOSING_WAIT_NONE then drain s else s);
     i \<leftarrow> port_info n s;
     s \<leftarrow> (if has (ui_flags i) UIF_INITIALIZED
          then map_option sent (op_stop_rx ops n s) else Some s);
     s \<leftarrow> uart_shutdown ops n s;
     s \<leftarrow> Some (uart_flush_buffer n s);
     s \<leftarrow> Some (tty_upd n (tty_closing_update (\<lambda>_. False)) s);
     s \<leftarrow> Some (info_upd n (ui_tty_update (\<lambda>_. None)) s);
     s \<leftarrow> Some (if blocked \<noteq> 0 \<or> up_is_console (uport n s) then s else uart_change_pm ops n 3 s);
     Some (info_upd n (ui_flags_update (\<lambda>f. f AND NOT UIF_NORMAL_ACTIVE)) s)
   }"

text \<open>\<open>tty_count\<close> is \<^verbatim>\<open>tty->count\<close>.\<close>

definition uart_close ::
  "'h uart_ops \<Rightarrow> ('h usys \<Rightarrow> 'h usys) \<Rightarrow> ('h usys \<Rightarrow> 'h usys) \<Rightarrow> bool \<Rightarrow> int \<Rightarrow> int \<Rightarrow> nat \<Rightarrow>
     'h usys \<Rightarrow> 'h usys option" where
  "uart_close ops drain sent hung_up tty_count blocked n s = (
     if hung_up then Some s
     else let c = us_count (ustates (hw s) n);
              c = (if tty_count = 1 \<and> c \<noteq> 1 then 1 else c) - 1;
              c = (if c < 0 then 0 else c);
              s = state_upd n (us_count_update (\<lambda>_. c)) s
     in if c \<noteq> 0 then Some s else uart_close_last ops drain sent blocked n s)"

definition uart_hangup :: "'h uart_ops \<Rightarrow> nat \<Rightarrow> 'h usys \<Rightarrow> 'h usys option" where
  "uart_hangup ops n s = (
     case port_info n s of
       None \<Rightarrow> Some s
     | Some i \<Rightarrow>
         if has (ui_flags i) UIF_NORMAL_ACTIVE then do {
           s \<leftarrow> uart_shutdown ops n (uart_flush_buffer n s);
           s \<leftarrow> Some (state_upd n (us_count_update (\<lambda>_. 0)) s);
           Some (info_upd n (\<lambda>i. i\<lparr>ui_flags := ui_flags i AND NOT UIF_NORMAL_ACTIVE,
                                   ui_tty := None\<rparr>) s)
         } else Some s)"

section \<open>Helpers of receive interrupts\<close>

text \<open>Magic SysRq is not configured: \<^verbatim>\<open>uart_handle_sysrq_char\<close> is constantly zero.\<close>

definition uart_handle_sysrq_char :: "nat \<Rightarrow> u32 \<Rightarrow> 'h usys \<Rightarrow> bool" where
  "uart_handle_sysrq_char n ch s = False"

definition uart_handle_break :: "nat \<Rightarrow> 'h usys \<Rightarrow> bool \<times> 'h usys" where
  "uart_handle_break n s =
     (False, if has (up_flags (uport n s)) UPF_SAK then tty_upd n (tty_saks_update Suc) s else s)"

definition tty_insert_flip_char :: "u8 \<Rightarrow> u8 \<Rightarrow> tty_struct \<Rightarrow> tty_struct" where
  "tty_insert_flip_char ch flag t =
     (if tty_room t > 0 then t\<lparr>tty_flip := tty_flip t @ [(ch, flag)], tty_room := tty_room t - 1\<rparr>
      else t)"

definition uart_insert_char :: "nat \<Rightarrow> u32 \<Rightarrow> u32 \<Rightarrow> u32 \<Rightarrow> u8 \<Rightarrow> 'h usys \<Rightarrow> 'h usys" where
  "uart_insert_char n sts overrun ch flag s = (
     let ign = up_ignore_status_mask (uport n s);
         s = (if sts AND ign AND NOT overrun = 0
              then tty_upd n (tty_insert_flip_char (ucast ch) flag) s else s)
     in if sts AND NOT ign AND overrun \<noteq> 0
        then tty_upd n (tty_insert_flip_char 0 TTY_OVERRUN) s else s)"

end
