(* ===== verification/Mmsp2_Devices.thy ===== *)
theory Mmsp2_Devices
  imports Mmsp2_Irq
begin

text \<open>
  The platform devices of the machine (\<^verbatim>\<open>arch/arm/mach-mp2520f/generic.c\<close>) and the look-up of
  their resources (\<^verbatim>\<open>drivers/base/platform.c\<close>).
\<close>

section \<open>Definitions\<close>

record resource =
  r_start :: u32
  r_end :: u32
  r_flags :: u32

record platform_device =
  pd_name :: string
  pd_id :: int
  pd_resource :: "resource list"

definition IORESOURCE_IO :: u32 where "IORESOURCE_IO = 0x100"
definition IORESOURCE_MEM :: u32 where "IORESOURCE_MEM = 0x200"
definition IORESOURCE_IRQ :: u32 where "IORESOURCE_IRQ = 0x400"
definition IORESOURCE_DMA :: u32 where "IORESOURCE_DMA = 0x800"

text \<open>The loop of \<^verbatim>\<open>platform_get_resource\<close>: the resource with index \<open>num\<close> among those of
  the type.\<close>

fun platform_get_resource :: "resource list \<Rightarrow> u32 \<Rightarrow> nat \<Rightarrow> resource option" where
  "platform_get_resource [] type num = None"
| "platform_get_resource (r # rs) type num = (
     if r_flags r AND (IORESOURCE_IO OR IORESOURCE_MEM OR IORESOURCE_IRQ OR IORESOURCE_DMA) = type
     then (if num = 0 then Some r else platform_get_resource rs type (num - 1))
     else platform_get_resource rs type num)"

definition platform_get_irq :: "platform_device \<Rightarrow> nat \<Rightarrow> int" where
  "platform_get_irq dev num = (
     case platform_get_resource (pd_resource dev) IORESOURCE_IRQ num of
       Some r \<Rightarrow> sint (r_start r)
     | None \<Rightarrow> -6)"

definition IRQ_SD :: nat where "IRQ_SD = 14"
definition IRQ_DMA :: nat where "IRQ_DMA = 9"

definition IRQ_UART_RXD0 :: nat where "IRQ_UART_RXD0 = 1 + IRQ_UART_START"
definition IRQ_UART_ERROR0 :: nat where "IRQ_UART_ERROR0 = 2 + IRQ_UART_START"
definition IRQ_UART_MODEM0 :: nat where "IRQ_UART_MODEM0 = 3 + IRQ_UART_START"
definition IRQ_UART_TXD1 :: nat where "IRQ_UART_TXD1 = 4 + IRQ_UART_START"
definition IRQ_UART_RXD1 :: nat where "IRQ_UART_RXD1 = 5 + IRQ_UART_START"
definition IRQ_UART_ERROR1 :: nat where "IRQ_UART_ERROR1 = 6 + IRQ_UART_START"
definition IRQ_UART_MODEM1 :: nat where "IRQ_UART_MODEM1 = 7 + IRQ_UART_START"
definition IRQ_UART_TXD2 :: nat where "IRQ_UART_TXD2 = 8 + IRQ_UART_START"
definition IRQ_UART_RXD2 :: nat where "IRQ_UART_RXD2 = 9 + IRQ_UART_START"
definition IRQ_UART_ERROR2 :: nat where "IRQ_UART_ERROR2 = 10 + IRQ_UART_START"
definition IRQ_UART_MODEM2 :: nat where "IRQ_UART_MODEM2 = 11 + IRQ_UART_START"
definition IRQ_UART_TXD3 :: nat where "IRQ_UART_TXD3 = 12 + IRQ_UART_START"
definition IRQ_UART_RXD3 :: nat where "IRQ_UART_RXD3 = 13 + IRQ_UART_START"
definition IRQ_UART_ERROR3 :: nat where "IRQ_UART_ERROR3 = 14 + IRQ_UART_START"
definition IRQ_UART_MODEM3 :: nat where "IRQ_UART_MODEM3 = 15 + IRQ_UART_START"

definition MP25XXF_UART0_START :: u32 where "MP25XXF_UART0_START = 0xc0001200"
definition MP25XXF_UART0_END :: u32 where "MP25XXF_UART0_END = 0xc000121f"
definition MP25XXF_UART1_START :: u32 where "MP25XXF_UART1_START = 0xc0001220"
definition MP25XXF_UART1_END :: u32 where "MP25XXF_UART1_END = 0xc000123f"
definition MP25XXF_UART2_START :: u32 where "MP25XXF_UART2_START = 0xc0001240"
definition MP25XXF_UART2_END :: u32 where "MP25XXF_UART2_END = 0xc000125f"
definition MP25XXF_UART3_START :: u32 where "MP25XXF_UART3_START = 0xc0001260"
definition MP25XXF_UART3_END :: u32 where "MP25XXF_UART3_END = 0xc000127f"
definition MP25XXF_UART_SIZE :: u32 where "MP25XXF_UART_SIZE = 0x20"
definition MP25XXF_MMC_START :: u32 where "MP25XXF_MMC_START = 0xc0001500"
definition MP25XXF_MMC_END :: u32 where "MP25XXF_MMC_END = 0xc000153c"
definition MP25XXF_MLC_START :: u32 where "MP25XXF_MLC_START = 0xc0002880"
definition MP25XXF_MLC_END :: u32 where "MP25XXF_MLC_END = 0xc00029c0"

definition irq_res :: "nat \<Rightarrow> resource" where
  "irq_res irq = \<lparr>r_start = of_nat irq, r_end = of_nat irq, r_flags = IORESOURCE_IRQ\<rparr>"

definition mem_res :: "u32 \<Rightarrow> u32 \<Rightarrow> resource" where
  "mem_res a b = \<lparr>r_start = a, r_end = b, r_flags = IORESOURCE_MEM\<rparr>"

definition mmsp2_mmcsd_resources :: "resource list" where
  "mmsp2_mmcsd_resources = [mem_res MP25XXF_MMC_START MP25XXF_MMC_END, irq_res IRQ_SD]"

definition mmsp2_mmcsd_device :: platform_device where
  "mmsp2_mmcsd_device = \<lparr>pd_name = ''mmsp2_mmcsd'', pd_id = -1, pd_resource = mmsp2_mmcsd_resources\<rparr>"

definition mp25xxf_uart0_resources :: "resource list" where
  "mp25xxf_uart0_resources =
     [irq_res IRQ_UART_RXD0, irq_res IRQ_UART_TXD0, irq_res IRQ_UART_ERROR0,
      irq_res IRQ_UART_MODEM0, mem_res MP25XXF_UART0_START MP25XXF_UART0_END]"

definition mp25xxf_uart0_device :: platform_device where
  "mp25xxf_uart0_device =
     \<lparr>pd_name = ''mp25xxf_uart'', pd_id = 0, pd_resource = mp25xxf_uart0_resources\<rparr>"

definition mp25xxf_uart1_resources :: "resource list" where
  "mp25xxf_uart1_resources =
     [irq_res IRQ_UART_RXD1, irq_res IRQ_UART_TXD1, irq_res IRQ_UART_ERROR1,
      irq_res IRQ_UART_MODEM1, mem_res MP25XXF_UART1_START MP25XXF_UART1_END]"

definition mp25xxf_uart1_device :: platform_device where
  "mp25xxf_uart1_device =
     \<lparr>pd_name = ''mp25xxf_uart'', pd_id = 1, pd_resource = mp25xxf_uart1_resources\<rparr>"

definition mp25xxf_uart2_resources :: "resource list" where
  "mp25xxf_uart2_resources =
     [irq_res IRQ_UART_RXD2, irq_res IRQ_UART_TXD2, irq_res IRQ_UART_ERROR2,
      irq_res IRQ_UART_MODEM2, mem_res MP25XXF_UART2_START MP25XXF_UART2_END]"

definition mp25xxf_uart2_device :: platform_device where
  "mp25xxf_uart2_device =
     \<lparr>pd_name = ''mp25xxf_uart'', pd_id = 2, pd_resource = mp25xxf_uart2_resources\<rparr>"

definition mp25xxf_uart3_resources :: "resource list" where
  "mp25xxf_uart3_resources =
     [irq_res IRQ_UART_RXD3, irq_res IRQ_UART_TXD3, irq_res IRQ_UART_ERROR3,
      irq_res IRQ_UART_MODEM3, mem_res MP25XXF_UART3_START MP25XXF_UART3_END]"

definition mp25xxf_uart3_device :: platform_device where
  "mp25xxf_uart3_device =
     \<lparr>pd_name = ''mp25xxf_uart'', pd_id = 3, pd_resource = mp25xxf_uart3_resources\<rparr>"

definition mmsp2_dma_resources :: "resource list" where
  "mmsp2_dma_resources = [irq_res IRQ_DMA]"

definition mmsp2_dma_device :: platform_device where
  "mmsp2_dma_device = \<lparr>pd_name = ''mmsp2_dma'', pd_id = -1, pd_resource = mmsp2_dma_resources\<rparr>"

definition mp25xxf_mlc_resources :: "resource list" where
  "mp25xxf_mlc_resources = [mem_res MP25XXF_MLC_START MP25XXF_MLC_END]"

definition mp25xxf_mlc_device :: platform_device where
  "mp25xxf_mlc_device = \<lparr>pd_name = ''mp25xxf_mlc'', pd_id = -1, pd_resource = mp25xxf_mlc_resources\<rparr>"

definition mmsp2_devices :: "platform_device list" where
  "mmsp2_devices = [mmsp2_mmcsd_device, mp25xxf_uart0_device, mp25xxf_uart1_device,
     mp25xxf_uart2_device, mp25xxf_uart3_device, mp25xxf_mlc_device, mmsp2_dma_device]"

lemmas device_defs = mmsp2_mmcsd_device_def mmsp2_mmcsd_resources_def
  mp25xxf_uart0_device_def mp25xxf_uart0_resources_def mp25xxf_uart1_device_def
  mp25xxf_uart1_resources_def mp25xxf_uart2_device_def mp25xxf_uart2_resources_def
  mp25xxf_uart3_device_def mp25xxf_uart3_resources_def mp25xxf_mlc_device_def
  mp25xxf_mlc_resources_def mmsp2_dma_device_def mmsp2_dma_resources_def irq_res_def mem_res_def

lemmas resource_defs = IORESOURCE_IO_def IORESOURCE_MEM_def IORESOURCE_IRQ_def IORESOURCE_DMA_def

end
