(* ===== verification/Mmsp2_Uart.thy ===== *)
theory Mmsp2_Uart
  imports Serial_Core Mmsp2_Devices
begin

text \<open>
  The serial driver of the machine (\<^verbatim>\<open>drivers/serial/mp25xxf_uart.c\<close>,
  \<^verbatim>\<open>include/asm-arm/arch-mp25xxf/regs-uart.h\<close>): its operations for the serial core, its two
  interrupt handlers, and the probe of the platform devices. A port is named by its index in
  \<^verbatim>\<open>mp25xxf_uart_ports\<close>. The console is configured, magic SysRq is not.
\<close>

section \<open>Registers\<close>

definition UCONx :: "u32 \<Rightarrow> u32" where "UCONx x = x + 0x2"
definition FCONx :: "u32 \<Rightarrow> u32" where "FCONx x = x + 0x4"
definition MCONx :: "u32 \<Rightarrow> u32" where "MCONx x = x + 0x6"
definition TRSTATUSx :: "u32 \<Rightarrow> u32" where "TRSTATUSx x = x + 0x8"
definition ESTATUSx :: "u32 \<Rightarrow> u32" where "ESTATUSx x = x + 0xa"
definition FSTATUSx :: "u32 \<Rightarrow> u32" where "FSTATUSx x = x + 0xc"
definition MSTATUSx :: "u32 \<Rightarrow> u32" where "MSTATUSx x = x + 0xe"
definition THBx :: "u32 \<Rightarrow> u32" where "THBx x = x + 0x10"
definition RHBx :: "u32 \<Rightarrow> u32" where "RHBx x = x + 0x12"

definition UCON_SEND_BREAK :: u16 where "UCON_SEND_BREAK = 0x10"
definition UCON_TRANS_MODEx :: "u16 \<Rightarrow> u16" where "UCON_TRANS_MODEx x = push_bit 2 x"
definition UCON_TRANS_MODE_IRQ :: u16 where "UCON_TRANS_MODE_IRQ = 1"
definition UCON_RECEIVE_MODEx :: "u16 \<Rightarrow> u16" where "UCON_RECEIVE_MODEx x = push_bit 0 x"
definition UCON_RECEIVE_MODE_IRQ :: u16 where "UCON_RECEIVE_MODE_IRQ = 1"

definition FCON_TX_FIFO_RESET :: u16 where "FCON_TX_FIFO_RESET = 4"
definition FCON_RX_FIFO_RESET :: u16 where "FCON_RX_FIFO_RESET = 2"
definition FCON_FIFO_EN :: u16 where "FCON_FIFO_EN = 1"

definition MCON_DTR_ACTIVE :: u16 where "MCON_DTR_ACTIVE = 2"
definition MCON_RTS_ACTIVE :: u16 where "MCON_RTS_ACTIVE = 1"

definition TRSTATUS_TRANSMITTER_EMPTY :: u16 where "TRSTATUS_TRANSMITTER_EMPTY = 4"

definition ESTATUS_BREAK_DETECT :: u16 where "ESTATUS_BREAK_DETECT = 8"
definition ESTATUS_FRAME_ERROR :: u16 where "ESTATUS_FRAME_ERROR = 4"
definition ESTATUS_PARITY_ERROR :: u16 where "ESTATUS_PARITY_ERROR = 2"
definition ESTATUS_OVERRUN_ERROR :: u16 where "ESTATUS_OVERRUN_ERROR = 1"
definition ESTATUS_ANY :: u16 where
  "ESTATUS_ANY = ESTATUS_OVERRUN_ERROR OR ESTATUS_FRAME_ERROR OR ESTATUS_BREAK_DETECT"

definition FSTATUS_TX_FIFO_FULL :: u16 where "FSTATUS_TX_FIFO_FULL = 0x200"
definition FSTATUS_RX_FIFO_COUNT :: u16 where "FSTATUS_RX_FIFO_COUNT = 0xf"

definition MSTATUS_DCD :: u16 where "MSTATUS_DCD = 8"
definition MSTATUS_RI :: u16 where "MSTATUS_RI = 4"
definition MSTATUS_DSR :: u16 where "MSTATUS_DSR = 2"
definition MSTATUS_CTS :: u16 where "MSTATUS_CTS = 1"

definition RXSTAT_DUMMY_READ :: u32 where "RXSTAT_DUMMY_READ = 0x10000000"
definition PORT_MP25XXF :: u32 where "PORT_MP25XXF = 74"
definition TIOCSER_TEMT :: u32 where "TIOCSER_TEMT = 1"
definition NR_PORTS :: nat where "NR_PORTS = 4"

definition DEVICE_NAME :: string where "DEVICE_NAME = ''ttySM''"

text \<open>A register of port \<open>n\<close>: the load and the store.\<close>

definition ureg_rd :: "'h mmio \<Rightarrow> (u32 \<Rightarrow> u32) \<Rightarrow> nat \<Rightarrow> 'h usys \<Rightarrow> u16 \<times> 'h usys" where
  "ureg_rd io r n s = (
     let (v, h) = REGW_rd io (r (up_mapbase (uport n s))) (regs (hw s))
     in (v, regs_upd (\<lambda>_. h) s))"

definition ureg_wr :: "'h mmio \<Rightarrow> (u32 \<Rightarrow> u32) \<Rightarrow> nat \<Rightarrow> u16 \<Rightarrow> 'h usys \<Rightarrow> 'h usys" where
  "ureg_wr io r n v s = regs_upd (REGW_wr io (r (up_mapbase (uport n s))) v) s"

text \<open>An \<^verbatim>\<open>int\<close> passed as an interrupt number, which is unsigned.\<close>

definition irq_num :: "int \<Rightarrow> nat" where "irq_num i = nat (i mod 2 ^ 32)"

section \<open>Transmitter and receiver control\<close>

definition mp25xxf_uart_start_tx :: "nat \<Rightarrow> 'h usys \<Rightarrow> 'h usys option" where
  "mp25xxf_uart_start_tx n s = (
     let mport = mports (hw s) n
     in if \<not> mp_tx_claimed mport then do {
          s \<leftarrow> enable_irq (irq_num (mp_txirq mport)) s;
          Some (mport_upd n (mp_tx_claimed_update (\<lambda>_. True)) s)
        } else Some s)"

definition mp25xxf_uart_stop_tx :: "nat \<Rightarrow> 'h usys \<Rightarrow> 'h usys option" where
  "mp25xxf_uart_stop_tx n s = (
     let mport = mports (hw s) n
     in if mp_tx_claimed mport then do {
          s \<leftarrow> disable_irq (irq_num (mp_txirq mport)) s;
          Some (mport_upd n (mp_tx_claimed_update (\<lambda>_. False)) s)
        } else Some s)"

definition mp25xxf_uart_stop_rx :: "nat \<Rightarrow> 'h usys \<Rightarrow> 'h usys option" where
  "mp25xxf_uart_stop_rx n s = (
     let mport = mports (hw s) n
     in if mp_rx_claimed mport then do {
          s \<leftarrow> disable_irq (irq_num (mp_rxirq mport)) s;
          Some (mport_upd n (mp_rx_claimed_update (\<lambda>_. False)) s)
        } else Some s)"

definition mp25xxf_uart_break_ctl :: "'h mmio \<Rightarrow> nat \<Rightarrow> int \<Rightarrow> 'h usys \<Rightarrow> 'h usys" where
  "mp25xxf_uart_break_ctl io n break_state s = (
     let (ucon, s) = ureg_rd io UCONx n s;
         ucon = (if break_state \<noteq> 0 then ucon OR UCON_SEND_BREAK
                 else ucon AND NOT UCON_SEND_BREAK)
     in ureg_wr io UCONx n ucon s)"

section \<open>The receive interrupt\<close>

text \<open>The flag of a received character, from the status already masked by
  \<^verbatim>\<open>read_status_mask\<close>.\<close>

definition rx_flag :: "u16 \<Rightarrow> u8" where
  "rx_flag estatus = (
     if estatus AND ESTATUS_BREAK_DETECT \<noteq> 0 then TTY_BREAK
     else if estatus AND ESTATUS_PARITY_ERROR \<noteq> 0 then TTY_PARITY
     else if estatus AND (ESTATUS_FRAME_ERROR OR ESTATUS_OVERRUN_ERROR) \<noteq> 0 then TTY_FRAME
     else TTY_NORMAL)"

definition icount_upd :: "nat \<Rightarrow> (uart_icount \<Rightarrow> uart_icount) \<Rightarrow> 'h usys \<Rightarrow> 'h usys" where
  "icount_upd n f = port_upd n (up_icount_update f)"

text \<open>What one round of the loop does with a character and its status.\<close>

definition rx_char :: "nat \<Rightarrow> u16 \<Rightarrow> u16 \<Rightarrow> 'h usys \<Rightarrow> 'h usys" where
  "rx_char n ch estatus s = (
     if estatus AND ESTATUS_ANY \<noteq> 0 then
       (let (ignore, s) =
              (if estatus AND ESTATUS_BREAK_DETECT \<noteq> 0
               then uart_handle_break n (icount_upd n (ic_brk_update (\<lambda>c. c + 1)) s)
               else (False, s))
        in if ignore then s
        else let s = (if estatus AND ESTATUS_FRAME_ERROR \<noteq> 0
                      then icount_upd n (ic_frame_update (\<lambda>c. c + 1)) s else s);
                 s = (if estatus AND ESTATUS_OVERRUN_ERROR \<noteq> 0
                      then icount_upd n (ic_overrun_update (\<lambda>c. c + 1)) s else s);
                 estatus = estatus AND ucast (up_read_status_mask (uport n s))
        in if uart_handle_sysrq_char n (ucast ch) s then s
           else uart_insert_char n (ucast estatus) (ucast ESTATUS_OVERRUN_ERROR) (ucast ch)
                  (rx_flag estatus) s)
     else if uart_handle_sysrq_char n (ucast ch) s then s
     else uart_insert_char n (ucast estatus) (ucast ESTATUS_OVERRUN_ERROR) (ucast ch) TTY_NORMAL s)"

fun rx_loop :: "'h mmio \<Rightarrow> nat \<Rightarrow> nat \<Rightarrow> 'h usys \<Rightarrow> 'h usys" where
  "rx_loop io n 0 s = s"
| "rx_loop io n (Suc max_count) s = (
     let (fstatus, s) = ureg_rd io FSTATUSx n s
     in if fstatus AND FSTATUS_RX_FIFO_COUNT = 0 then s
     else let (ch, s) = ureg_rd io RHBx n s;
              s = icount_upd n (ic_rx_update (\<lambda>c. c + 1)) s;
              (estatus, s) = ureg_rd io ESTATUSx n s
     in rx_loop io n max_count (rx_char n ch estatus s))"

definition set_uartok :: "'h usys \<Rightarrow> 'h usys" where
  "set_uartok s = s\<lparr>hw := (hw s)\<lparr>uartok := 1\<rparr>\<rparr>"

definition mp25xxf_rx_int :: "'h mmio \<Rightarrow> nat \<Rightarrow> 'h usys \<Rightarrow> (u32 \<times> 'h usys) option" where
  "mp25xxf_rx_int io n s = do {
     _ \<leftarrow> port_tty n s;
     s \<leftarrow> Some (rx_loop io n (nat (sint (up_fifosize (uport n s)))) (set_uartok s));
     Some (IRQ_HANDLED, set_uartok (tty_upd n (tty_pushed_update (\<lambda>_. True)) s))
   }"

section \<open>The transmit interrupt\<close>

text \<open>The draining loop: at most \<open>count\<close> bytes, while the hardware FIFO has room.\<close>

fun tx_loop :: "'h mmio \<Rightarrow> nat \<Rightarrow> nat \<Rightarrow> 'h usys \<Rightarrow> 'h usys option" where
  "tx_loop io n 0 s = Some s"
| "tx_loop io n (Suc count) s = do {
     i \<leftarrow> port_info n s;
     if uart_circ_empty (ui_xmit i) then Some s
     else let (fstatus, s) = ureg_rd io FSTATUSx n s
     in if fstatus AND FSTATUS_TX_FIFO_FULL \<noteq> 0 then Some s
     else do {
       (ch, c) \<leftarrow> circ_next (ui_xmit i);
       s \<leftarrow> Some (ureg_wr io THBx n (ucast ch) s);
       s \<leftarrow> Some (info_upd n (ui_xmit_update (\<lambda>_. c)) s);
       tx_loop io n count (icount_upd n (ic_tx_update (\<lambda>t. t + 1)) s)
     }
   }"

definition mp25xxf_tx_int :: "'h mmio \<Rightarrow> nat \<Rightarrow> 'h usys \<Rightarrow> (u32 \<times> 'h usys) option" where
  "mp25xxf_tx_int io n s = (
     if up_x_char (uport n s) \<noteq> 0 then
       (let s = ureg_wr io THBx n (ucast (up_x_char (uport n s))) s;
            s = icount_upd n (ic_tx_update (\<lambda>t. t + 1)) s
        in Some (IRQ_HANDLED, port_upd n (up_x_char_update (\<lambda>_. 0)) s))
     else do {
       i \<leftarrow> port_info n s;
       stopped \<leftarrow> (if uart_circ_empty (ui_xmit i) then Some True else uart_tx_stopped n s);
       if stopped then do {
         s \<leftarrow> mp25xxf_uart_stop_tx n s;
         Some (IRQ_HANDLED, s)
       } else do {
         s \<leftarrow> tx_loop io n 16 s;
         i \<leftarrow> port_info n s;
         s \<leftarrow> (if uart_circ_chars_pending (ui_xmit i) < WAKEUP_CHARS
              then uart_write_wakeup n s else Some s);
         s \<leftarrow> (if uart_circ_empty (ui_xmit i) then mp25xxf_uart_stop_tx n s else Some s);
         Some (IRQ_HANDLED, s)
       }
     })"

section \<open>Modem control, start and stop\<close>

definition mp25xxf_uart_tx_empty :: "'h mmio \<Rightarrow> nat \<Rightarrow> 'h usys \<Rightarrow> u32 \<times> 'h usys" where
  "mp25xxf_uart_tx_empty io n s = (
     let (v, s) = ureg_rd io TRSTATUSx n s
     in (if v AND TRSTATUS_TRANSMITTER_EMPTY \<noteq> 0 then TIOCSER_TEMT else 0, s))"

definition mp25xxf_uart_set_mctrl :: "'h mmio \<Rightarrow> nat \<Rightarrow> u32 \<Rightarrow> 'h usys \<Rightarrow> 'h usys" where
  "mp25xxf_uart_set_mctrl io n mctrl s = (
     let (mcon, s) = ureg_rd io MCONx n s;
         mcon = (if has mctrl TIOCM_RTS then mcon OR MCON_RTS_ACTIVE
                 else mcon AND NOT MCON_RTS_ACTIVE);
         mcon = (if has mctrl TIOCM_DTR then mcon OR MCON_DTR_ACTIVE
                 else mcon AND NOT MCON_DTR_ACTIVE)
     in ureg_wr io MCONx n mcon s)"

definition mp25xxf_uart_get_mctrl :: "'h mmio \<Rightarrow> nat \<Rightarrow> 'h usys \<Rightarrow> u32 \<times> 'h usys" where
  "mp25xxf_uart_get_mctrl io n s = (
     let (m, s) = ureg_rd io MSTATUSx n s;
         tmp = (if m AND MSTATUS_DSR \<noteq> 0 then TIOCM_DSR else 0);
         tmp = (if m AND MSTATUS_CTS \<noteq> 0 then tmp OR TIOCM_CTS else tmp);
         tmp = (if m AND MSTATUS_RI \<noteq> 0 then tmp OR TIOCM_RI else tmp)
     in (if m AND MSTATUS_DCD \<noteq> 0 then tmp OR TIOCM_CAR else tmp, s))"

text \<open>
  The numbers of the handlers among the interrupt handlers, and the device identity of a
  port: its address, of which only its being non-null and its own matters.
\<close>

definition TX_HANDLER :: nat where "TX_HANDLER = 2"
definition RX_HANDLER :: nat where "RX_HANDLER = 3"

definition mport_id :: "nat \<Rightarrow> u32" where "mport_id n = of_nat (n + 1)"

text \<open>\<open>mem\<close> is the outcome of the two allocations in \<^verbatim>\<open>request_irq\<close>.\<close>

definition mp25xxf_uart_startup ::
  "'h mmio \<Rightarrow> 'h uart_hw handlers \<Rightarrow> bool \<times> bool \<Rightarrow> nat \<Rightarrow> 'h usys \<Rightarrow>
     ((errno + unit) \<times> 'h usys) option" where
  "mp25xxf_uart_startup io env mem n s = (
     let mport = mports (hw s) n;
         s = ureg_wr io UCONx n (UCON_RECEIVE_MODEx UCON_RECEIVE_MODE_IRQ OR
               UCON_TRANS_MODEx UCON_TRANS_MODE_IRQ OR UCON_RX_TIMEOUT) s
     in do {
       (ret, s) \<leftarrow> request_irq env (fst mem) (irq_num (mp_txirq mport)) (Some TX_HANDLER) 0
                    DEVICE_NAME (mport_id n) s;
       case ret of Inl e \<Rightarrow> Some (Inl e, s)
       | Inr _ \<Rightarrow> do {
           (ret, s) \<leftarrow> request_irq env (snd mem) (irq_num (mp_rxirq mport)) (Some RX_HANDLER) 0
                        DEVICE_NAME (mport_id n) s;
           case ret of
             Inl e \<Rightarrow> do {
               s \<leftarrow> free_irq env (irq_num (mp_txirq mport)) (mport_id n) s;
               Some (Inl e, s)
             }
           | Inr _ \<Rightarrow> do {
               s \<leftarrow> Some (mport_upd n (\<lambda>m. m\<lparr>mp_tx_claimed := True, mp_rx_claimed := True\<rparr>) s);
               s \<leftarrow> Some (ureg_wr io FCONx n
                           (FCON_FIFO_EN OR FCON_TX_FIFO_RESET OR FCON_RX_FIFO_RESET) s);
               Some (Inr (), snd (ureg_rd io FCONx n s))
             }
         }
     })"

definition mp25xxf_uart_shutdown ::
  "'h uart_hw handlers \<Rightarrow> nat \<Rightarrow> 'h usys \<Rightarrow> 'h usys option" where
  "mp25xxf_uart_shutdown env n s = (
     let mport = mports (hw s) n in do {
       s \<leftarrow> (if mp_tx_claimed mport then do {
              s \<leftarrow> free_irq env (irq_num (mp_txirq mport)) (mport_id n) s;
              Some (mport_upd n (mp_tx_claimed_update (\<lambda>_. False)) s)
            } else Some s);
       if mp_rx_claimed mport then do {
         s \<leftarrow> free_irq env (irq_num (mp_rxirq mport)) (mport_id n) s;
         Some (mport_upd n (mp_rx_claimed_update (\<lambda>_. False)) s)
       } else Some s
     })"

definition mp25xxf_uart_set_termios :: "nat \<Rightarrow> ktermios \<Rightarrow> 'h usys \<Rightarrow> 'h usys" where
  "mp25xxf_uart_set_termios n t s = (
     let rsm = ucast ESTATUS_OVERRUN_ERROR;
         rsm = (if has (c_iflag t) INPCK
                then rsm OR (ucast ESTATUS_FRAME_ERROR OR ucast ESTATUS_PARITY_ERROR) else rsm);
         ism = (0 :: u32);
         ism = (if has (c_iflag t) IGNPAR then ism OR ucast ESTATUS_OVERRUN_ERROR else ism);
         ism = (if has (c_iflag t) IGNBRK \<and> has (c_iflag t) IGNPAR
                then ism OR ucast ESTATUS_PARITY_ERROR else ism);
         ism = (if c_cflag t AND CREAD = 0 then ism OR RXSTAT_DUMMY_READ else ism)
     in port_upd n (\<lambda>p. p\<lparr>up_read_status_mask := rsm, up_ignore_status_mask := ism\<rparr>) s)"

definition mp25xxf_uart_type :: "nat \<Rightarrow> 'h usys \<Rightarrow> string option" where
  "mp25xxf_uart_type n s = (if up_type (uport n s) = PORT_MP25XXF then Some ''MP25XXF'' else None)"

text \<open>\<open>req\<close> is the outcome of \<^verbatim>\<open>request_mem_region\<close> on an address and a length.\<close>

definition mp25xxf_uart_request_port ::
  "(u32 \<Rightarrow> u32 \<Rightarrow> bool) \<Rightarrow> nat \<Rightarrow> 'h usys \<Rightarrow> errno + unit" where
  "mp25xxf_uart_request_port req n s =
     (if req (up_mapbase (uport n s)) MP25XXF_UART_SIZE then Inr () else Inl EBUSY)"

definition mp25xxf_uart_config_port ::
  "(u32 \<Rightarrow> u32 \<Rightarrow> bool) \<Rightarrow> nat \<Rightarrow> u32 \<Rightarrow> 'h usys \<Rightarrow> 'h usys" where
  "mp25xxf_uart_config_port req n flags s =
     (if flags AND 1 \<noteq> 0 \<and> mp25xxf_uart_request_port req n s = Inr ()
      then port_upd n (up_type_update (\<lambda>_. PORT_MP25XXF)) s else s)"

definition mp25xxf_uart_verify_port :: "u32 \<Rightarrow> errno + unit" where
  "mp25xxf_uart_verify_port ty =
     (if ty \<noteq> PORT_UNKNOWN \<and> ty \<noteq> PORT_MP25XXF then Inl EINVAL else Inr ())"

definition mp25xxf_uart_pm :: "nat \<Rightarrow> int \<Rightarrow> int \<Rightarrow> 'h usys \<Rightarrow> 'h usys" where
  "mp25xxf_uart_pm n level old s = s"

definition mp25xxf_uart_ops ::
  "'h mmio \<Rightarrow> 'h uart_hw handlers \<Rightarrow> bool \<times> bool \<Rightarrow> 'h uart_ops" where
  "mp25xxf_uart_ops io env mem = \<lparr>op_tx_empty = mp25xxf_uart_tx_empty io,
     op_set_mctrl = mp25xxf_uart_set_mctrl io, op_get_mctrl = mp25xxf_uart_get_mctrl io,
     op_stop_tx = mp25xxf_uart_stop_tx, op_start_tx = mp25xxf_uart_start_tx, op_send_xchar = None,
     op_stop_rx = mp25xxf_uart_stop_rx, op_break_ctl = mp25xxf_uart_break_ctl io,
     op_startup = mp25xxf_uart_startup io env mem, op_shutdown = mp25xxf_uart_shutdown env,
     op_set_termios = mp25xxf_uart_set_termios, op_pm = Some mp25xxf_uart_pm\<rparr>"

section \<open>Ports and probe\<close>

definition icount0 :: uart_icount where
  "icount0 = \<lparr>ic_rx = 0, ic_tx = 0, ic_frame = 0, ic_overrun = 0, ic_brk = 0\<rparr>"

definition static_port :: "u32 \<Rightarrow> nat \<Rightarrow> nat \<Rightarrow> mp25xxf_uart_port" where
  "static_port base rxd txd =
     \<lparr>mp_port = \<lparr>up_mapbase = base, up_irq = int rxd, up_uartclk = 16000000, up_fifosize = 16,
        up_x_char = 0, up_read_status_mask = 0, up_ignore_status_mask = 0, up_icount = icount0,
        up_flags = UPF_BOOT_AUTOCONF, up_mctrl = 0, up_type = PORT_MP25XXF, up_line = 0,
        up_is_console = False, up_info = None\<rparr>,
      mp_txirq = int rxd, mp_rxirq = int txd, mp_rx_claimed = False, mp_tx_claimed = False\<rparr>"

definition mp25xxf_uart_ports :: "mp25xxf_uart_port list" where
  "mp25xxf_uart_ports =
     [static_port MP25XXF_UART0_START IRQ_UART_RXD0 IRQ_UART_TXD0,
      static_port MP25XXF_UART1_START IRQ_UART_RXD1 IRQ_UART_TXD1,
      static_port MP25XXF_UART2_START IRQ_UART_RXD2 IRQ_UART_TXD2,
      static_port MP25XXF_UART3_START IRQ_UART_RXD3 IRQ_UART_TXD3]"

text \<open>\<open>add_port\<close> is \<^verbatim>\<open>uart_add_one_port\<close> of the serial core. The device's id indexes the
  ports; \<^verbatim>\<open>platform_set_drvdata\<close> only records the pointer in the device.\<close>

definition mp25xxf_uart_probe ::
  "(nat \<Rightarrow> 'h usys \<Rightarrow> 'h usys) \<Rightarrow> platform_device \<Rightarrow> 'h usys \<Rightarrow> ((errno + unit) \<times> 'h usys) option" where
  "mp25xxf_uart_probe add_port pdev s = (
     if pd_id pdev < 0 \<or> int NR_PORTS \<le> pd_id pdev then None
     else let n = nat (pd_id pdev)
     in case platform_get_resource (pd_resource pdev) IORESOURCE_MEM 0 of
          None \<Rightarrow> Some (Inl EINVAL, s)
        | Some res \<Rightarrow>
            let rx = platform_get_irq pdev 0;
                s = mport_upd n (\<lambda>m. m\<lparr>mp_rxirq := rx, mp_txirq := platform_get_irq pdev 1,
                      mp_port := (mp_port m)\<lparr>up_mapbase := r_start res, up_irq := rx,
                        up_type := PORT_MP25XXF, up_uartclk := 16000000, up_fifosize := 16,
                        up_flags := UPF_BOOT_AUTOCONF, up_line := of_int (pd_id pdev)\<rparr>\<rparr>) s
            in Some (Inr (), add_port n s))"

text \<open>The interrupt handlers of the driver among all handlers.\<close>

definition uart_env :: "'h mmio \<Rightarrow> 'h uart_hw handlers \<Rightarrow> 'h uart_hw handlers" where
  "uart_env io other h irq dev s = (
     if h = TX_HANDLER then mp25xxf_tx_int io (unat dev - 1) s
     else if h = RX_HANDLER then mp25xxf_rx_int io (unat dev - 1) s
     else other h irq dev s)"

end
