(* ===== verification/Uart_Lines.thy ===== *)
theory Uart_Lines
  imports Mmsp2_Uart
begin

text \<open>
  The interrupt lines of a serial port: which of them are open, and who holds them.
\<close>

section \<open>Frames\<close>

lemma mport_upd_frame [simp]:
  "irq_desc (mport_upd n f s) = irq_desc s" "chips (mport_upd n f s) = chips s"
  "regs (hw (mport_upd n f s)) = regs (hw s)" "ustates (hw (mport_upd n f s)) = ustates (hw s)"
  "mports (hw (mport_upd n f s)) = (mports (hw s))(n := f (mports (hw s) n))"
  by (simp_all add: mport_upd_def)

lemma regs_upd_frame [simp]:
  "irq_desc (regs_upd f s) = irq_desc s" "chips (regs_upd f s) = chips s"
  "regs (hw (regs_upd f s)) = f (regs (hw s))" "mports (hw (regs_upd f s)) = mports (hw s)"
  "ustates (hw (regs_upd f s)) = ustates (hw s)"
  by (simp_all add: regs_upd_def)

lemma set_uartok_frame [simp]:
  "irq_desc (set_uartok s) = irq_desc s" "chips (set_uartok s) = chips s"
  "regs (hw (set_uartok s)) = regs (hw s)" "mports (hw (set_uartok s)) = mports (hw s)"
  by (simp_all add: set_uartok_def)

text \<open>What the line invariant reads: descriptors, chips, and the driver's own fields.\<close>

definition lines :: "nat \<Rightarrow> 'h usys \<Rightarrow> (nat \<Rightarrow> irq_desc) \<times> (chip_ptr \<Rightarrow> 'h uart_hw irq_chip) \<times> int \<times> int \<times> bool \<times> bool" where
  "lines n s = (irq_desc s, chips s, mp_txirq (mports (hw s) n), mp_rxirq (mports (hw s) n),
     mp_tx_claimed (mports (hw s) n), mp_rx_claimed (mports (hw s) n))"

lemma lines_upd [simp]:
  "lines n (port_upd n f s) = lines n s" "lines n (info_upd n g s) = lines n s"
  "lines n (tty_upd n k s) = lines n s" "lines n (regs_upd r s) = lines n s"
  "lines n (ureg_wr io a n v s) = lines n s" "lines n (set_uartok s) = lines n s"
  "lines n (icount_upd n c s) = lines n s"
  by (simp_all add: lines_def port_upd_def info_upd_def tty_upd_def ureg_wr_def icount_upd_def)

lemma lines_rd: "ureg_rd io a n s = (v, s') \<Longrightarrow> lines n s' = lines n s"
  by (auto simp: ureg_rd_def split: prod.splits)

lemma lines_insert [simp]: "lines n (uart_insert_char n a b c d s) = lines n s"
  by (simp add: uart_insert_char_def Let_def)

lemma lines_rx_char [simp]: "lines n (rx_char n ch es s) = lines n s"
  by (simp add: rx_char_def Let_def uart_handle_break_def)

lemma lines_rx_loop [simp]: "lines n (rx_loop io n k s) = lines n s"
  by (induction io n k s rule: rx_loop.induct) (auto simp: Let_def dest!: lines_rd split: prod.splits)

lemma lines_tx_loop: "tx_loop io n k s = Some s' \<Longrightarrow> lines n s' = lines n s"
  by (induction io n k s rule: tx_loop.induct)
    (auto simp: Let_def dest!: lines_rd split: prod.splits if_splits bind_splits)


lemma uport_upd [simp]:
  "uport n (port_upd n f s) = f (uport n s)" "uport n (regs_upd r s) = uport n s"
  "uport n (info_upd n g s) = up_info_update (map_option g) (uport n s)"
  "uport n (tty_upd n k s) = up_info_update (map_option (ui_tty_update (map_option k))) (uport n s)"
  "uport n (ureg_wr io a n v s) = uport n s" "uport n (set_uartok s) = uport n s"
  "uport n (state_upd n x s) = uport n s" "uport n (icount_upd n c s) = up_icount_update c (uport n s)"
  by (simp_all add: uport_def port_upd_def info_upd_def tty_upd_def ureg_wr_def state_upd_def icount_upd_def)

lemma uport_rd: "ureg_rd io a n s = (v, s') \<Longrightarrow> uport n s' = uport n s"
  by (auto simp: ureg_rd_def split: prod.splits)

lemma port_info_upd [simp]:
  "port_info n (info_upd n g s) = map_option g (port_info n s)"
  "port_info n (tty_upd n k s) = map_option (ui_tty_update (map_option k)) (port_info n s)"
  "port_info n (regs_upd r s) = port_info n s" "port_info n (ureg_wr io a n v s) = port_info n s"
  "port_info n (set_uartok s) = port_info n s" "port_info n (state_upd n x s) = port_info n s"
  "port_info n (icount_upd n c s) = port_info n s"
  by (simp_all add: port_info_def)

lemma port_info_rd: "ureg_rd io a n s = (v, s') \<Longrightarrow> port_info n s' = port_info n s"
  by (simp add: port_info_def uport_rd)

section \<open>Opening and closing a line\<close>

text \<open>A chip as the machine's interrupt code installs it: default enable and disable, no
  retrigger, and an unmask callback that leaves the ports' data alone.\<close>

definition line_chip :: "nat \<Rightarrow> 'h usys \<Rightarrow> bool" where
  "line_chip irq s \<longleftrightarrow> irq < NR_IRQS \<and> c_enable (chip_of irq s) = Some Default_enable \<and>
     c_disable (chip_of irq s) = Some Default_disable \<and> c_retrigger (chip_of irq s) = None \<and>
     (\<exists>f. c_unmask (chip_of irq s) = Some (Hw f) \<and> (\<forall>i h. mports (f i h) = mports h))"

lemma line_chip_cong:
  "chips s' = chips s \<Longrightarrow> chip (irq_desc s' irq) = chip (irq_desc s irq) \<Longrightarrow>
     line_chip irq s' = line_chip irq s"
  by (simp add: line_chip_def chip_of_def)

text \<open>A line held by one action, open or closed once.\<close>

definition line_held :: "nat \<Rightarrow> irqaction \<Rightarrow> bool \<Rightarrow> 'h usys \<Rightarrow> bool" where
  "line_held irq a is_open s \<longleftrightarrow> line_chip irq s \<and> chip (irq_desc s irq) \<noteq> No_irq_chip \<and>
     action (irq_desc s irq) = [a] \<and> \<not> has (st irq s) IRQ_NOREQUEST \<and>
     depth (irq_desc s irq) = (if is_open then 0 else 1)"

lemma line_held_cong:
  "chips s' = chips s \<Longrightarrow> irq_desc s' irq = irq_desc s irq \<Longrightarrow>
     line_held irq a is_open s' = line_held irq a is_open s"
  by (simp add: line_held_def line_chip_def chip_of_def)

lemma disable_irq_held:
  assumes "line_held irq a True s"
  shows "\<exists>s'. disable_irq irq s = Some s' \<and> line_held irq a False s' \<and> chips s' = chips s \<and>
    (\<forall>i. i \<noteq> irq \<longrightarrow> irq_desc s' i = irq_desc s i) \<and> hw s' = hw s"
proof -
  have l: "irq < NR_IRQS" "c_disable (chip_of irq s) = Some Default_disable" "depth (irq_desc s irq) = 0"
    using assms by (auto simp: line_held_def line_chip_def)
  define s' where "s' = status_upd irq (\<lambda>x. x OR IRQ_DISABLED) (desc_upd irq (depth_update (\<lambda>d. d + 1)) s)"
  have "c_disable (chip_of irq s') = Some Default_disable" using l(2) by (simp add: s'_def chip_of_def)
  then have "disable_irq irq s = Some s'"
    using l by (simp add: disable_irq_def disable_irq_nosync_def Let_def default_disable_def flip: s'_def)
  moreover have "line_held irq a False s'"
    using assms by (auto simp: line_held_def line_chip_def chip_of_def s'_def bit_or_iff)
  ultimately show ?thesis by (simp add: s'_def)
qed

lemma enable_irq_held:
  assumes "line_held irq a False s"
  shows "\<exists>s'. enable_irq irq s = Some s' \<and> line_held irq a True s' \<and> chips s' = chips s \<and>
    (\<forall>i. i \<noteq> irq \<longrightarrow> irq_desc s' i = irq_desc s i) \<and> mports (hw s') = mports (hw s)"
proof -
  obtain f where f: "c_unmask (chip_of irq s) = Some (Hw f)" "\<And>i h. mports (f i h) = mports h"
    using assms by (auto simp: line_held_def line_chip_def)
  show ?thesis using assms f
    by (auto simp: enable_irq_def check_irq_resend_def line_held_def line_chip_def default_enable_def
        chip_of_def call_retrigger_def Let_def desc_upd_def bit_or_iff bit_and_iff)
qed

text \<open>The action a port registers.\<close>

definition uact :: "nat \<Rightarrow> nat \<Rightarrow> irqaction" where
  "uact h n = \<lparr>ia_handler = h, ia_flags = 0, ia_name = DEVICE_NAME, ia_dev_id = mport_id n\<rparr>"

abbreviation tx_line :: "nat \<Rightarrow> 'h usys \<Rightarrow> nat" where
  "tx_line n s \<equiv> irq_num (mp_txirq (mports (hw s) n))"

abbreviation rx_line :: "nat \<Rightarrow> 'h usys \<Rightarrow> nat" where
  "rx_line n s \<equiv> irq_num (mp_rxirq (mports (hw s) n))"

text \<open>
  The invariant of an open port: both lines are held by its handlers, and a line is open
  exactly when the driver's flag says so.
\<close>

definition lines_ok :: "nat \<Rightarrow> 'h usys \<Rightarrow> bool" where
  "lines_ok n s \<longleftrightarrow> tx_line n s \<noteq> rx_line n s \<and>
     line_held (tx_line n s) (uact TX_HANDLER n) (mp_tx_claimed (mports (hw s) n)) s \<and>
     line_held (rx_line n s) (uact RX_HANDLER n) (mp_rx_claimed (mports (hw s) n)) s"

lemma lines_ok_cong: "lines n s' = lines n s \<Longrightarrow> lines_ok n s' = lines_ok n s"
  by (simp add: lines_def lines_ok_def line_held_def line_chip_def chip_of_def)

lemma lines_ok_mport:
  "line_held irq a b (mport_upd n f s) = line_held irq a b s"
  by (simp add: line_held_def line_chip_def chip_of_def)

lemma lines_ok_start_tx:
  assumes "lines_ok n s"
  shows "\<exists>s'. mp25xxf_uart_start_tx n s = Some s' \<and> lines_ok n s' \<and> mp_tx_claimed (mports (hw s') n)"
proof (cases "mp_tx_claimed (mports (hw s) n)")
  case False
  have ok: "tx_line n s \<noteq> rx_line n s" "line_held (tx_line n s) (uact TX_HANDLER n) False s"
    "line_held (rx_line n s) (uact RX_HANDLER n) (mp_rx_claimed (mports (hw s) n)) s"
    using assms False by (auto simp: lines_ok_def)
  from enable_irq_held [OF ok(2)] obtain s' where s': "enable_irq (tx_line n s) s = Some s'"
    "line_held (tx_line n s) (uact TX_HANDLER n) True s'" "chips s' = chips s"
    "irq_desc s' (rx_line n s) = irq_desc s (rx_line n s)" "mports (hw s') = mports (hw s)"
    using ok(1) by auto
  moreover have "line_held (rx_line n s) (uact RX_HANDLER n) (mp_rx_claimed (mports (hw s) n)) s'"
    using ok(3) line_held_cong [OF s'(3,4)] by simp
  ultimately show ?thesis using ok(1) False
    by (simp add: mp25xxf_uart_start_tx_def Let_def lines_ok_def lines_ok_mport)
qed (use assms in \<open>simp add: mp25xxf_uart_start_tx_def\<close>)

lemma lines_ok_stop_tx:
  assumes "lines_ok n s"
  shows "\<exists>s'. mp25xxf_uart_stop_tx n s = Some s' \<and> lines_ok n s' \<and> \<not> mp_tx_claimed (mports (hw s') n)"
proof (cases "mp_tx_claimed (mports (hw s) n)")
  case True
  have ok: "tx_line n s \<noteq> rx_line n s" "line_held (tx_line n s) (uact TX_HANDLER n) True s"
    "line_held (rx_line n s) (uact RX_HANDLER n) (mp_rx_claimed (mports (hw s) n)) s"
    using assms True by (auto simp: lines_ok_def)
  from disable_irq_held [OF ok(2)] obtain s' where s': "disable_irq (tx_line n s) s = Some s'"
    "line_held (tx_line n s) (uact TX_HANDLER n) False s'" "chips s' = chips s"
    "irq_desc s' (rx_line n s) = irq_desc s (rx_line n s)" "mports (hw s') = mports (hw s)"
    using ok(1) by auto
  moreover have "line_held (rx_line n s) (uact RX_HANDLER n) (mp_rx_claimed (mports (hw s) n)) s'"
    using ok(3) line_held_cong [OF s'(3,4)] by simp
  ultimately show ?thesis using ok(1) True
    by (simp add: mp25xxf_uart_stop_tx_def Let_def lines_ok_def lines_ok_mport)
qed (use assms in \<open>simp add: mp25xxf_uart_stop_tx_def\<close>)

lemma lines_ok_stop_rx:
  assumes "lines_ok n s"
  shows "\<exists>s'. mp25xxf_uart_stop_rx n s = Some s' \<and> lines_ok n s' \<and> \<not> mp_rx_claimed (mports (hw s') n) \<and>
    mp_tx_claimed (mports (hw s') n) = mp_tx_claimed (mports (hw s) n)"
proof (cases "mp_rx_claimed (mports (hw s) n)")
  case True
  have ok: "tx_line n s \<noteq> rx_line n s" "line_held (rx_line n s) (uact RX_HANDLER n) True s"
    "line_held (tx_line n s) (uact TX_HANDLER n) (mp_tx_claimed (mports (hw s) n)) s"
    using assms True by (auto simp: lines_ok_def)
  from disable_irq_held [OF ok(2)] obtain s' where s': "disable_irq (rx_line n s) s = Some s'"
    "line_held (rx_line n s) (uact RX_HANDLER n) False s'" "chips s' = chips s"
    "irq_desc s' (tx_line n s) = irq_desc s (tx_line n s)" "mports (hw s') = mports (hw s)"
    using ok(1) by auto
  moreover have "line_held (tx_line n s) (uact TX_HANDLER n) (mp_tx_claimed (mports (hw s) n)) s'"
    using ok(3) line_held_cong [OF s'(3,4)] by simp
  ultimately show ?thesis using ok(1) True
    by (simp add: mp25xxf_uart_stop_rx_def Let_def lines_ok_def lines_ok_mport)
qed (use assms in \<open>simp add: mp25xxf_uart_stop_rx_def\<close>)

section \<open>Requesting a free line\<close>

definition line_free :: "nat \<Rightarrow> 'h usys \<Rightarrow> bool" where
  "line_free irq s \<longleftrightarrow> line_chip irq s \<and> chip (irq_desc s irq) \<noteq> No_irq_chip \<and>
     c_startup (chip_of irq s) = Some Default_startup \<and> action (irq_desc s irq) = [] \<and>
     \<not> has (st irq s) IRQ_NOREQUEST \<and> \<not> has (st irq s) IRQ_NOAUTOEN"

lemma set_defaults_fields:
  "c_enable c = Some e \<Longrightarrow> c_enable (irq_chip_set_defaults c) = Some e"
  "c_disable c = Some d \<Longrightarrow> c_disable (irq_chip_set_defaults c) = Some d"
  "c_startup c = Some u \<Longrightarrow> c_startup (irq_chip_set_defaults c) = Some u"
  "c_retrigger (irq_chip_set_defaults c) = c_retrigger c"
  "c_unmask (irq_chip_set_defaults c) = c_unmask c"
  by (simp_all add: irq_chip_set_defaults_def Let_def)

lemma chip_of_set_defaults:
  "chip_of irq (set_defaults_at p s) =
     (if chip (irq_desc s irq) = p then irq_chip_set_defaults (chip_of irq s) else chip_of irq s)"
  by (simp add: chip_of_def set_defaults_at_def)

lemma line_chip_set_defaults: "line_chip irq s \<Longrightarrow> line_chip irq (set_defaults_at p s)"
  by (auto simp: line_chip_def chip_of_set_defaults set_defaults_fields)

lemma line_free_set_defaults: "line_free irq s \<Longrightarrow> line_free irq (set_defaults_at p s)"
  by (auto simp: line_free_def chip_of_set_defaults set_defaults_fields intro: line_chip_set_defaults)

text \<open>The same, for a state that agrees on chips and on one descriptor's chip.\<close>

lemma line_free_cong:
  "chips s' = chips s \<Longrightarrow> irq_desc s' irq = irq_desc s irq \<Longrightarrow> line_free irq s' = line_free irq s"
  by (simp add: line_free_def line_chip_def chip_of_def)

lemma has_zero [simp]: "\<not> has 0 m"
  by (simp add: has_def)

lemma setup_first_free:
  assumes "line_chip irq s" "c_startup (chip_of irq s) = Some Default_startup" "\<not> bit (st irq s) 19"
  shows "\<exists>s' f. setup_first irq 0 s = Some s' \<and> depth (irq_desc s' irq) = 0 \<and>
    (bit (st irq s') 18 \<longrightarrow> bit (st irq s) 18) \<and>
    action (irq_desc s' irq) = action (irq_desc s irq) \<and> chip (irq_desc s' irq) = chip (irq_desc s irq) \<and>
    (\<forall>i. i \<noteq> irq \<longrightarrow> irq_desc s' i = irq_desc s i) \<and> mports (hw s') = mports (hw s) \<and>
    chips s' = chips (set_defaults_at (chip (irq_desc s irq)) s)"
proof -
  define s1 where "s1 = desc_upd irq compat_irq_chip_set_default_handler
      (set_defaults_at (chip (irq_desc s irq)) s)"
  define s2 where "s2 = status_upd irq (\<lambda>x. x AND NOT (IRQ_AUTODETECT OR IRQ_WAITING OR IRQ_INPROGRESS)) s1"
  define s3 where "s3 = desc_upd irq (\<lambda>d. d\<lparr>depth := 0, status := status d AND NOT IRQ_DISABLED\<rparr>) s2"
  have c: "chip (compat_irq_chip_set_default_handler d) = chip d"
    "action (compat_irq_chip_set_default_handler d) = action d"
    "status (compat_irq_chip_set_default_handler d) = status d" for d
    by (simp_all add: compat_irq_chip_set_default_handler_def)
  have d3: "chip (irq_desc s3 irq) = chip (irq_desc s irq)" "depth (irq_desc s3 irq) = 0"
    "action (irq_desc s3 irq) = action (irq_desc s irq)" "chips s3 = chips (set_defaults_at (chip (irq_desc s irq)) s)"
    "\<And>i. i \<noteq> irq \<Longrightarrow> irq_desc s3 i = irq_desc s i" "hw s3 = hw s" "bit (st irq s3) 18 \<Longrightarrow> bit (st irq s) 18"
    by (simp_all add: s3_def s2_def s1_def c bit_and_iff)
  have "line_chip irq (set_defaults_at (chip (irq_desc s irq)) s)" using assms(1) by (rule line_chip_set_defaults)
  then have l3: "line_chip irq s3" using d3(1,4) by (simp add: line_chip_def chip_of_def)
  have u3: "c_startup (chip_of irq s3) = Some Default_startup"
    using assms(2) d3(1,4) by (simp add: chip_of_def set_defaults_at_def set_defaults_fields)
  have "\<not> bit (st irq s2) 19" using assms(3) by (simp add: s2_def s1_def c bit_and_iff)
  then have e: "setup_first irq 0 s = call_startup (c_startup (chip_of irq s3)) irq s3"
    unfolding setup_first_def Let_def if_not_P [OF has_zero] s1_def [symmetric] s2_def [symmetric]
      s3_def [symmetric] using u3 by simp
  obtain f where f: "c_unmask (chip_of irq s3) = Some (Hw f)" "\<And>i h. mports (f i h) = mports h"
    using l3 by (auto simp: line_chip_def)
  have "c_enable (chip_of irq s3) = Some Default_enable" using l3 by (simp add: line_chip_def)
  then have "setup_first irq 0 s =
      Some (status_upd irq (\<lambda>x. x AND NOT IRQ_MASKED) (s3\<lparr>hw := f irq (hw s3)\<rparr>))"
    using e u3 f(1) by (simp add: default_startup_def default_enable_def)
  then show ?thesis using d3 f(2) by (simp add: desc_upd_def bit_and_iff)
qed

lemma request_free_line:
  assumes free: "line_free irq s"
  shows "\<exists>s'. request_irq env True irq (Some h) 0 nm dev s = Some (Inr (), s') \<and>
    line_held irq \<lparr>ia_handler = h, ia_flags = 0, ia_name = nm, ia_dev_id = dev\<rparr> True s' \<and>
    mports (hw s') = mports (hw s) \<and> (\<forall>i. i \<noteq> irq \<longrightarrow> line_free i s \<longrightarrow> line_free i s') \<and>
    (\<forall>i c b. i \<noteq> irq \<longrightarrow> line_held i c b s \<longrightarrow> line_held i c b s')"
proof -
  define a where "a = \<lparr>ia_handler = h, ia_flags = 0, ia_name = nm, ia_dev_id = dev\<rparr>"
  have flags: "ia_flags a = 0" by (simp add: a_def)
  define s1 where "s1 = desc_upd irq (action_update (\<lambda>as. as @ [a])) s"
  have f: "line_chip irq s" "chip (irq_desc s irq) \<noteq> No_irq_chip" "action (irq_desc s irq) = []"
    "c_startup (chip_of irq s) = Some Default_startup" "\<not> bit (st irq s) 18" "\<not> bit (st irq s) 19" "irq < NR_IRQS"
    using free by (auto simp: line_free_def line_chip_def)
  have s1: "chip (irq_desc s1 irq) = chip (irq_desc s irq)" "chips s1 = chips s" "hw s1 = hw s"
    "action (irq_desc s1 irq) = [a]" "st irq s1 = st irq s" "\<And>i. i \<noteq> irq \<Longrightarrow> irq_desc s1 i = irq_desc s i"
    using f(3) by (simp_all add: s1_def)
  have "line_chip irq s1" "c_startup (chip_of irq s1) = Some Default_startup" "\<not> bit (st irq s1) 19"
    using f s1 by (simp_all add: line_chip_def chip_of_def)
  from setup_first_free [OF this] obtain s2 where s2: "setup_first irq 0 s1 = Some s2"
    "depth (irq_desc s2 irq) = 0" "action (irq_desc s2 irq) = [a]" "chip (irq_desc s2 irq) = chip (irq_desc s irq)"
    "\<And>i. i \<noteq> irq \<Longrightarrow> irq_desc s2 i = irq_desc s i" "mports (hw s2) = mports (hw s)"
    "chips s2 = chips (set_defaults_at (chip (irq_desc s irq)) s)" "\<not> bit (st irq s2) 18"
    using s1 f(5) by (auto simp: set_defaults_at_def)
  define s3 where "s3 = desc_upd irq (\<lambda>d. d\<lparr>irq_count := 0, irqs_unhandled := 0\<rparr>) s2"
  have "request_irq env True irq (Some h) 0 nm dev s = Some (Inr (), s3)"
    using f s2(1) flags by (simp add: request_irq_def setup_irq_def Let_def flip: a_def s1_def s3_def)
  moreover have "line_chip i s3" if "line_chip i s" for i
    using line_chip_set_defaults [OF that, of "chip (irq_desc s irq)"] s2(4,5,7)
    by (cases "i = irq") (simp_all add: s3_def line_chip_def chip_of_def)
  moreover have "line_free i s3" if "line_free i s" "i \<noteq> irq" for i
    using line_free_set_defaults [OF that(1), of "chip (irq_desc s irq)"] s2(5,7) that(2)
    by (subst line_free_cong [of _ "set_defaults_at (chip (irq_desc s irq)) s"]) (simp_all add: s3_def)
  moreover have "line_held i c b s3" if "line_held i c b s" "i \<noteq> irq" for i c b
    using line_chip_set_defaults [of i s "chip (irq_desc s irq)"] s2(5,7) that
    by (simp add: s3_def line_held_def line_chip_def chip_of_def)
  ultimately show ?thesis using s2 f(1,2) by (simp add: s3_def a_def line_held_def)
qed


definition port_free :: "nat \<Rightarrow> 'h usys \<Rightarrow> bool" where
  "port_free n s \<longleftrightarrow> tx_line n s \<noteq> rx_line n s \<and> line_free (tx_line n s) s \<and> line_free (rx_line n s) s"

lemma startup_lines:
  assumes "port_free n s"
  shows "\<exists>s'. mp25xxf_uart_startup io env (True, True) n s = Some (Inr (), s') \<and> lines_ok n s' \<and>
    mp_tx_claimed (mports (hw s') n) \<and> mp_rx_claimed (mports (hw s') n) \<and> uport n s' = uport n s"
proof -
  define s1 where "s1 = ureg_wr io UCONx n (UCON_RECEIVE_MODEx UCON_RECEIVE_MODE_IRQ OR
               UCON_TRANS_MODEx UCON_TRANS_MODE_IRQ OR UCON_RX_TIMEOUT) s"
  have f1: "irq_desc s1 = irq_desc s" "chips s1 = chips s" "mports (hw s1) = mports (hw s)"
    by (simp_all add: s1_def ureg_wr_def)
  have f: "tx_line n s \<noteq> rx_line n s" "line_free (tx_line n s) s1" "line_free (rx_line n s) s1"
    using assms f1 by (auto simp: port_free_def line_free_cong [of s1 s])
  obtain s2 where s2: "request_irq env True (tx_line n s) (Some TX_HANDLER) 0 DEVICE_NAME (mport_id n) s1
      = Some (Inr (), s2)" "line_held (tx_line n s) (uact TX_HANDLER n) True s2"
    "mports (hw s2) = mports (hw s)" "line_free (rx_line n s) s2"
    using request_free_line [OF f(2), of env TX_HANDLER DEVICE_NAME "mport_id n"] f(1,3) f1(3)
    by (auto simp: uact_def)
  obtain s3 where s3: "request_irq env True (rx_line n s) (Some RX_HANDLER) 0 DEVICE_NAME (mport_id n) s2
      = Some (Inr (), s3)" "line_held (rx_line n s) (uact RX_HANDLER n) True s3"
    "mports (hw s3) = mports (hw s)" "line_held (tx_line n s) (uact TX_HANDLER n) True s3"
    using request_free_line [OF s2(4), of env RX_HANDLER DEVICE_NAME "mport_id n"] f(1) s2(2,3)
    by (auto simp: uact_def)
  define s4 where "s4 = mport_upd n (\<lambda>m. m\<lparr>mp_tx_claimed := True, mp_rx_claimed := True\<rparr>) s3"
  define s5 where "s5 = snd (ureg_rd io FCONx n (ureg_wr io FCONx n
      (FCON_FIFO_EN OR FCON_TX_FIFO_RESET OR FCON_RX_FIFO_RESET) s4))"
  have "mp25xxf_uart_startup io env (True, True) n s = Some (Inr (), s5)"
    unfolding mp25xxf_uart_startup_def Let_def s1_def [symmetric] fst_conv snd_conv
    by (simp add: s2(1) s3(1) s5_def s4_def)
  moreover have l5: "lines n s5 = lines n s4"
    unfolding s5_def by (metis lines_rd lines_upd(5) prod.collapse)
  moreover have "lines_ok n s4" using s3 f(1) by (simp add: s4_def lines_ok_def lines_ok_mport)
  moreover have "mp_tx_claimed (mports (hw s5) n)" "mp_rx_claimed (mports (hw s5) n)"
    using l5 by (simp_all add: lines_def s4_def)
  moreover have "uport n s5 = uport n s4"
    unfolding s5_def by (metis uport_rd uport_upd(5) prod.collapse)
  moreover have "uport n s4 = uport n s" using s3(3) by (simp add: s4_def uport_def)
  ultimately show ?thesis using lines_ok_cong [OF l5] by metis
qed

section \<open>Life of an open port\<close>

text \<open>What can happen to an open port: the terminal's calls, and its interrupts.\<close>

inductive uart_step :: "'h mmio \<Rightarrow> 'h uart_ops \<Rightarrow> nat \<Rightarrow> 'h usys \<Rightarrow> 'h usys \<Rightarrow> bool"
  for io :: "'h mmio" and ops :: "'h uart_ops" and n :: nat where
  Write: "uart_write ops n buf count s = Some (r, s') \<Longrightarrow> uart_step io ops n s s'"
| Put_char: "uart_put_char n ch s = Some s' \<Longrightarrow> uart_step io ops n s s'"
| Flush_chars: "uart_flush_chars ops n s = Some s' \<Longrightarrow> uart_step io ops n s s'"
| Flush_buffer: "uart_step io ops n s (uart_flush_buffer n s)"
| Stop: "uart_stop ops n s = Some s' \<Longrightarrow> uart_step io ops n s s'"
| Start: "uart_start ops n s = Some s' \<Longrightarrow> uart_step io ops n s s'"
| Throttle: "uart_throttle ops n s = Some s' \<Longrightarrow> uart_step io ops n s s'"
| Unthrottle: "uart_unthrottle ops n s = Some s' \<Longrightarrow> uart_step io ops n s s'"
| Send_xchar: "uart_send_xchar ops n ch s = Some s' \<Longrightarrow> uart_step io ops n s s'"
| Set_termios: "uart_set_termios ops n old s = Some s' \<Longrightarrow> uart_step io ops n s s'"
| Tiocmset: "uart_tiocmset ops hung n a b s = Some (r, s') \<Longrightarrow> uart_step io ops n s s'"
| Break_ctl: "uart_step io ops n s (uart_break_ctl ops n k s)"
| Tx_int: "mp25xxf_tx_int io n s = Some (r, s') \<Longrightarrow> uart_step io ops n s s'"
| Rx_int: "mp25xxf_rx_int io n s = Some (r, s') \<Longrightarrow> uart_step io ops n s s'"
| Tasklet: "uart_tasklet_action n s = Some s' \<Longrightarrow> uart_step io ops n s s'"

lemma ops_simps [simp]:
  "op_stop_tx (mp25xxf_uart_ops io env mem) = mp25xxf_uart_stop_tx"
  "op_start_tx (mp25xxf_uart_ops io env mem) = mp25xxf_uart_start_tx"
  "op_stop_rx (mp25xxf_uart_ops io env mem) = mp25xxf_uart_stop_rx"
  "op_send_xchar (mp25xxf_uart_ops io env mem) = None"
  "op_set_mctrl (mp25xxf_uart_ops io env mem) = mp25xxf_uart_set_mctrl io"
  "op_get_mctrl (mp25xxf_uart_ops io env mem) = mp25xxf_uart_get_mctrl io"
  "op_break_ctl (mp25xxf_uart_ops io env mem) = mp25xxf_uart_break_ctl io"
  "op_set_termios (mp25xxf_uart_ops io env mem) = mp25xxf_uart_set_termios"
  "op_startup (mp25xxf_uart_ops io env mem) = mp25xxf_uart_startup io env mem"
  "op_shutdown (mp25xxf_uart_ops io env mem) = mp25xxf_uart_shutdown env"
  "op_pm (mp25xxf_uart_ops io env mem) = Some mp25xxf_uart_pm"
  by (simp_all add: mp25xxf_uart_ops_def)

lemma lines_set_mctrl [simp]: "lines n (mp25xxf_uart_set_mctrl io n m s) = lines n s"
  by (auto simp: mp25xxf_uart_set_mctrl_def Let_def dest!: lines_rd split: prod.splits)

lemma lines_get_mctrl: "mp25xxf_uart_get_mctrl io n s = (m, s') \<Longrightarrow> lines n s' = lines n s"
  by (auto simp: mp25xxf_uart_get_mctrl_def Let_def dest!: lines_rd split: prod.splits)

lemma lines_break_ctl [simp]: "lines n (mp25xxf_uart_break_ctl io n k s) = lines n s"
  by (auto simp: mp25xxf_uart_break_ctl_def Let_def dest!: lines_rd split: prod.splits)

lemma lines_set_termios [simp]: "lines n (mp25xxf_uart_set_termios n t s) = lines n s"
  by (simp add: mp25xxf_uart_set_termios_def Let_def)

lemma lines_update_mctrl [simp]:
  "lines n (uart_update_mctrl (mp25xxf_uart_ops io env mem) n a b s) = lines n s"
  by (simp add: uart_update_mctrl_def Let_def)

lemma lines_change_speed:
  "uart_change_speed (mp25xxf_uart_ops io env mem) n s = Some s' \<Longrightarrow> lines n s' = lines n s"
  by (auto simp: uart_change_speed_def Let_def split: bind_splits option.splits if_splits)

lemma start_tx_ok: "mp25xxf_uart_start_tx n s = Some s' \<Longrightarrow> lines_ok n s \<Longrightarrow> lines_ok n s'"
  using lines_ok_start_tx by fastforce

lemma stop_tx_ok: "mp25xxf_uart_stop_tx n s = Some s' \<Longrightarrow> lines_ok n s \<Longrightarrow> lines_ok n s'"
  using lines_ok_stop_tx by fastforce

lemma lines_ok_upd [simp]:
  "lines_ok n (port_upd n f s) = lines_ok n s" "lines_ok n (info_upd n g s) = lines_ok n s"
  "lines_ok n (tty_upd n k s) = lines_ok n s" "lines_ok n (ureg_wr io a n v s) = lines_ok n s"
  "lines_ok n (set_uartok s) = lines_ok n s" "lines_ok n (icount_upd n c s) = lines_ok n s"
  "lines_ok n (rx_loop io n k' s) = lines_ok n s"
  "lines_ok n (mp25xxf_uart_break_ctl io n b s) = lines_ok n s"
  "lines_ok n (uart_update_mctrl (mp25xxf_uart_ops io env mem) n x y s) = lines_ok n s"
  by (rule lines_ok_cong, simp)+

lemma raw_start_ok:
  "raw_uart_start (mp25xxf_uart_ops io env mem) n s = Some s' \<Longrightarrow> lines_ok n s \<Longrightarrow> lines_ok n s'"
  by (auto simp: raw_uart_start_def dest: start_tx_ok split: bind_splits if_splits)

lemma send_xchar_ok:
  "uart_send_xchar (mp25xxf_uart_ops io env mem) n ch s = Some s' \<Longrightarrow> lines_ok n s \<Longrightarrow> lines_ok n s'"
  by (auto simp: uart_send_xchar_def Let_def dest: start_tx_ok split: if_splits)

lemma set_termios_ok:
  assumes "uart_set_termios (mp25xxf_uart_ops io env mem) n old s = Some s'" "lines_ok n s"
  shows "lines_ok n s'"
  using assms
  by (auto simp: uart_set_termios_def Let_def lines_ok_cong [OF lines_change_speed]
      lines_ok_cong [OF lines_get_mctrl] dest!: raw_start_ok stop_tx_ok
      split: bind_splits if_splits prod.splits)

lemma tx_int_ok:
  assumes "mp25xxf_tx_int io n s = Some (r, s')" "lines_ok n s"
  shows "lines_ok n s'"
  using assms
  by (auto simp: mp25xxf_tx_int_def Let_def uart_write_wakeup_def lines_ok_cong [OF lines_tx_loop]
      dest!: stop_tx_ok split: bind_splits if_splits)

lemma uart_step_ok:
  assumes "uart_step io (mp25xxf_uart_ops io env mem) n s s'" "lines_ok n s"
  shows "lines_ok n s'"
  using assms
proof (induction rule: uart_step.induct)
  case (Write buf count s r s')
  then show ?case
    by (auto simp: uart_write_def uart_start_def dest!: raw_start_ok split: option.splits bind_splits if_splits)
qed (auto simp: uart_put_char_def uart_flush_chars_def uart_start_def uart_flush_buffer_def uart_stop_def
    uart_throttle_def uart_unthrottle_def uart_tiocmset_def uart_break_ctl_def mp25xxf_rx_int_def
    uart_tasklet_action_def
    dest: raw_start_ok send_xchar_ok set_termios_ok tx_int_ok stop_tx_ok
    split: option.splits bind_splits if_splits)

lemma uart_steps_ok:
  "(uart_step io (mp25xxf_uart_ops io env mem) n)\<^sup>*\<^sup>* s s' \<Longrightarrow> lines_ok n s \<Longrightarrow> lines_ok n s'"
  by (induction rule: rtranclp_induct) (auto dest: uart_step_ok)


lemma lines_state_upd [simp]: "lines n (state_upd n f s) = lines n s"
  by (simp add: lines_def state_upd_def)

lemma lines_flush_buffer [simp]: "lines n (uart_flush_buffer n s) = lines n s"
  by (simp add: uart_flush_buffer_def split: option.splits)

lemma lines_change_pm [simp]: "lines n (uart_change_pm (mp25xxf_uart_ops io env mem) n p s) = lines n s"
  by (simp add: uart_change_pm_def Let_def mp25xxf_uart_pm_def)

text \<open>With neither flag set, shutting the port down releases nothing.\<close>

lemma lines_uart_shutdown:
  assumes "uart_shutdown (mp25xxf_uart_ops io env mem) n s = Some s'" "port_info n s = Some i"
    "has (ui_flags i) UIF_INITIALIZED \<Longrightarrow>
       \<not> mp_tx_claimed (mports (hw s) n) \<and> \<not> mp_rx_claimed (mports (hw s) n)"
  shows "lines n s' = lines n s"
proof -
  have sh: "mp25xxf_uart_shutdown env n x = Some x"
    if "lines n x = lines n s" "has (ui_flags i) UIF_INITIALIZED" for x
    using that assms(3) by (simp add: mp25xxf_uart_shutdown_def lines_def)
  show ?thesis using assms(1,2)
    by (auto simp: uart_shutdown_def sh split: bind_splits if_splits)
qed

lemma stop_rx_port: "mp25xxf_uart_stop_rx n s = Some s' \<Longrightarrow> lines_ok n s \<Longrightarrow> uport n s' = uport n s"
proof -
  assume s': "mp25xxf_uart_stop_rx n s = Some s'" and ok: "lines_ok n s"
  show ?thesis
  proof (cases "mp_rx_claimed (mports (hw s) n)")
    case True
    then have "line_held (rx_line n s) (uact RX_HANDLER n) True s" using ok by (simp add: lines_ok_def)
    from disable_irq_held [OF this] show ?thesis using s' True
      by (auto simp: mp25xxf_uart_stop_rx_def Let_def uport_def)
  qed (use s' in \<open>simp add: mp25xxf_uart_stop_rx_def\<close>)
qed

lemma lines_ok_close_last:
  assumes "uart_close_last (mp25xxf_uart_ops io env mem) (\<lambda>s. s) (\<lambda>s. s) blocked n s = Some s'"
    "lines_ok n s" "\<not> mp_tx_claimed (mports (hw s) n)"
  shows "lines_ok n s'"
proof -
  let ?ops = "mp25xxf_uart_ops io env mem"
  define s1 where "s1 = tty_upd n (tty_closing_update (\<lambda>_. True)) s"
  have l1: "lines n s1 = lines n s" by (simp add: s1_def)
  obtain i s2 s3 where i: "port_info n s1 = Some i"
    and s2: "(if has (ui_flags i) UIF_INITIALIZED
            then map_option (\<lambda>s. s) (op_stop_rx ?ops n s1) else Some s1) = Some s2"
    and s3: "uart_shutdown ?ops n s2 = Some s3" and l': "lines n s' = lines n s3"
    using assms(1) by (auto simp: uart_close_last_def s1_def [symmetric] split: bind_splits)
  have c1: "lines_ok n s1" "\<not> mp_tx_claimed (mports (hw s1) n)"
    using assms(2,3) l1 lines_ok_cong [OF l1] by (simp_all add: lines_def)
  show ?thesis
  proof (cases "has (ui_flags i) UIF_INITIALIZED")
    case True
    obtain x where x: "mp25xxf_uart_stop_rx n s1 = Some x" "lines_ok n x" "\<not> mp_rx_claimed (mports (hw x) n)"
      "\<not> mp_tx_claimed (mports (hw x) n)" using lines_ok_stop_rx [OF c1(1)] c1(2) by auto
    have "s2 = x" using s2 True x(1) by simp
    moreover have "port_info n x = Some i" using stop_rx_port [OF x(1) c1(1)] i by (simp add: port_info_def)
    ultimately have "lines n s3 = lines n x" using lines_uart_shutdown [OF s3, of i] x(3,4) by simp
    then show ?thesis using lines_ok_cong [of n s' x] l' x(2) by simp
  next
    case False
    then have "s2 = s1" using s2 by simp
    then have "lines n s3 = lines n s1" using lines_uart_shutdown [OF s3, of i] i False by simp
    then show ?thesis using lines_ok_cong [of n s' s1] l' c1(1) by simp
  qed
qed


lemma busy_line:
  assumes "line_held irq a b s" "ia_flags a = 0"
  shows "request_irq env True irq (Some h) 0 nm dev s = Some (Inl EBUSY, s)"
  using assms by (simp add: request_irq_def setup_irq_def line_held_def line_chip_def)




lemma stop_tx_port: "mp25xxf_uart_stop_tx n s = Some s' \<Longrightarrow> lines_ok n s \<Longrightarrow> uport n s' = uport n s"
proof -
  assume s': "mp25xxf_uart_stop_tx n s = Some s'" and ok: "lines_ok n s"
  show ?thesis
  proof (cases "mp_tx_claimed (mports (hw s) n)")
    case True
    then have "line_held (tx_line n s) (uact TX_HANDLER n) True s" using ok by (simp add: lines_ok_def)
    from disable_irq_held [OF this] show ?thesis using s' True
      by (auto simp: mp25xxf_uart_stop_tx_def Let_def uport_def)
  qed (use s' in \<open>simp add: mp25xxf_uart_stop_tx_def\<close>)
qed

lemma close_total:
  assumes "lines_ok n s" "\<not> mp_tx_claimed (mports (hw s) n)" "port_info n s = Some i"
  shows "\<exists>s'. uart_close (mp25xxf_uart_ops io env mem) (\<lambda>s. s) (\<lambda>s. s) False 1 blocked n s = Some s'"
proof -
  define t where "t = state_upd n (us_count_update (\<lambda>_. 0)) s"
  have c: "(if (1 :: int) = 1 \<and> k \<noteq> 1 then 1 else k) - 1 = 0" for k :: int by simp
  define t1 where "t1 = tty_upd n (tty_closing_update (\<lambda>_. True)) t"
  have lt: "lines n t1 = lines n s" by (simp add: t1_def t_def)
  have t1: "lines_ok n t1" "\<not> mp_tx_claimed (mports (hw t1) n)"
    "port_info n t1 = Some (ui_tty_update (map_option (tty_closing_update (\<lambda>_. True))) i)"
    using lines_ok_cong [OF lt] assms lt by (simp_all add: lines_def t1_def t_def)
  obtain t2 where t2: "mp25xxf_uart_stop_rx n t1 = Some t2" "lines_ok n t2"
    "\<not> mp_rx_claimed (mports (hw t2) n)" "\<not> mp_tx_claimed (mports (hw t2) n)" "port_info n t2 = port_info n t1"
    using lines_ok_stop_rx [OF t1(1)] t1(2) stop_rx_port [OF _ t1(1)] by (auto simp: port_info_def)
  have sh: "mp25xxf_uart_shutdown env n x = Some x" if "lines n x = lines n t2" for x
    using that t2(3,4) by (simp add: mp25xxf_uart_shutdown_def lines_def)
  show ?thesis unfolding uart_close_def Let_def c
    using t1 t2 by (simp add: uart_close_last_def t_def [symmetric] t1_def [symmetric] uart_shutdown_def sh)
qed

section \<open>An example port\<close>

definition example_chip :: "'h uart_hw irq_chip" where
  "example_chip = \<lparr>c_name = Some ''UART'', c_startup = Some Default_startup,
     c_shutdown = Some Default_disable, c_enable = Some Default_enable,
     c_disable = Some Default_disable, c_ack = Some Noop, c_mask = Some Noop, c_mask_ack = None,
     c_unmask = Some (Hw (\<lambda>irq h. h)), c_end = Some Noop, c_retrigger = None,
     c_set_type = None, c_typename = None\<rparr>"

definition example_info :: uart_info where
  "example_info = \<lparr>ui_tty = None, ui_xmit = \<lparr>cb_buf = None, cb_head = 0, cb_tail = 0\<rparr>,
     ui_flags = UIF_INITIALIZED, ui_tasklet = False\<rparr>"

definition uart_example :: "'h \<Rightarrow> uart_info \<Rightarrow> 'h usys" where
  "uart_example r i = \<lparr>irq_desc = (\<lambda>_. irq_desc_init\<lparr>chip := Chip 0\<rparr>), chips = (\<lambda>_. example_chip),
     hw = \<lparr>regs = r,
       mports = (\<lambda>n. mp_port_update (up_info_update (\<lambda>_. Some i)) (mp25xxf_uart_ports ! n)),
       ustates = (\<lambda>_. \<lparr>us_count = 1, us_pm_state = 0, us_closing_wait = 0\<rparr>), uartok = 0\<rparr>,
     kstat_irqs = (\<lambda>_. 0), irq_err_count = 0, irqs_resend = {}, jiffies = 0, noirqdebug = False\<rparr>"

lemma uart_example_free: "port_free 0 (uart_example r i)"
proof -
  have "tx_line 0 (uart_example r i) = 37" "rx_line 0 (uart_example r i) = 36"
    by (simp_all add: uart_example_def mp25xxf_uart_ports_def static_port_def irq_num_def
        IRQ_UART_RXD0_def IRQ_UART_TXD0_def IRQ_UART_START_def IRQ_TIMER_END_def IRQ_TIMER_START_def
        MMSP2_IRQS_def)
  then show ?thesis
    by (simp add: port_free_def line_free_def line_chip_def chip_of_def)
      (simp add: uart_example_def example_chip_def irq_desc_init_def NR_IRQS_def IRQ_DISABLED_def)
qed

lemma uart_example_stopped:
  "\<exists>r s0 s1 i. mp25xxf_uart_startup regfile env (True, True) 0 (uart_example (\<lambda>_. 0) example_info) = Some (r, s0) \<and>
     (uart_step regfile (mp25xxf_uart_ops regfile env mem) 0)\<^sup>*\<^sup>* s0 s1 \<and>
     \<not> mp_tx_claimed (mports (hw s1) 0) \<and> lines_ok 0 s1 \<and> port_info 0 s1 = Some i"
proof -
  let ?e = "uart_example (\<lambda>_. 0 :: u32) example_info :: (u32 \<Rightarrow> u32) usys"
  from startup_lines [OF uart_example_free [of "\<lambda>_. 0 :: u32" example_info], of regfile env]
  obtain s0 where s0: "mp25xxf_uart_startup regfile env (True, True) 0 ?e = Some (Inr (), s0)"
    "lines_ok 0 s0" "uport 0 s0 = uport 0 ?e" by (elim exE conjE)
  obtain s1 where s1: "mp25xxf_uart_stop_tx 0 s0 = Some s1" "lines_ok 0 s1" "\<not> mp_tx_claimed (mports (hw s1) 0)"
    using lines_ok_stop_tx [OF s0(2)] by blast
  have "uart_step regfile (mp25xxf_uart_ops regfile env mem) 0 s0 s1"
    using s1(1) by (intro uart_step.Stop) (simp add: uart_stop_def)
  moreover have "port_info 0 s1 = Some example_info"
    using stop_tx_port [OF s1(1) s0(2)] s0(3) by (simp add: port_info_def uart_example_def uport_def)
  ultimately show ?thesis using s0 s1 by blast
qed



end
