(* ===== verification/Uart_Data.thy ===== *)
theory Uart_Data
  imports Uart_Lines Irq_Line
begin

text \<open>
  The transmit path of a serial port. The transmitter's hardware is described by what its registers
  promise: \<open>tx_fifo\<close> says that a store to the transmit register sends a character and that
  reading the status sends nothing, \<open>tx_ready\<close> that there is always room.
\<close>

section \<open>The transmitter\<close>

definition tx_fifo :: "'h mmio \<Rightarrow> u32 \<Rightarrow> ('h \<Rightarrow> u16 list) \<Rightarrow> bool" where
  "tx_fifo io base sent \<longleftrightarrow>
     (\<forall>h v. sent (REGW_wr io (THBx base) v h) = sent h @ [v]) \<and>
     (\<forall>h. sent (snd (REGW_rd io (FSTATUSx base) h)) = sent h)"

definition tx_ready :: "'h mmio \<Rightarrow> u32 \<Rightarrow> bool" where
  "tx_ready io base \<longleftrightarrow> (\<forall>h. fst (REGW_rd io (FSTATUSx base) h) AND FSTATUS_TX_FIFO_FULL = 0)"

abbreviation pending :: "nat \<Rightarrow> 'h usys \<Rightarrow> u8 list" where
  "pending n s \<equiv> (case port_info n s of None \<Rightarrow> [] | Some i \<Rightarrow> xmit_contents (ui_xmit i))"

text \<open>An open port with a tty and a valid transmit buffer.\<close>

definition port_open :: "nat \<Rightarrow> 'h usys \<Rightarrow> bool" where
  "port_open n s \<longleftrightarrow> lines_ok n s \<and>
     (\<exists>i. port_info n s = Some i \<and> xmit_ok (ui_xmit i) \<and> ui_tty i \<noteq> None)"

lemma ureg_rd_eq:
  "ureg_rd io r n s = (fst (REGW_rd io (r (up_mapbase (uport n s))) (regs (hw s))),
     regs_upd (\<lambda>_. snd (REGW_rd io (r (up_mapbase (uport n s))) (regs (hw s)))) s)"
  by (simp add: ureg_rd_def case_prod_beta)

lemma regs_of [simp]:
  "regs (hw (port_upd n f s)) = regs (hw s)" "regs (hw (info_upd n g s)) = regs (hw s)"
  "regs (hw (tty_upd n k s)) = regs (hw s)" "regs (hw (icount_upd n c s)) = regs (hw s)"
  "regs (hw (ureg_wr io a n v s)) = REGW_wr io (a (up_mapbase (uport n s))) v (regs (hw s))"
  by (simp_all add: port_upd_def info_upd_def tty_upd_def icount_upd_def ureg_wr_def)

text \<open>One character of the loop: read the status, store the byte, advance.\<close>

lemma tx_loop_law:
  assumes "tx_fifo io (up_mapbase (uport n s)) sent" "port_info n s = Some i" "xmit_ok (ui_xmit i)"
  shows "\<exists>s' k c. tx_loop io n count s = Some s' \<and> k \<le> count \<and>
     port_info n s' = Some (ui_xmit_update (\<lambda>_. c) i) \<and> xmit_ok c \<and>
     xmit_contents c = drop k (xmit_contents (ui_xmit i)) \<and> k \<le> length (xmit_contents (ui_xmit i)) \<and>
     sent (regs (hw s')) = sent (regs (hw s)) @ map ucast (take k (xmit_contents (ui_xmit i))) \<and>
     up_mapbase (uport n s') = up_mapbase (uport n s) \<and> up_x_char (uport n s') = up_x_char (uport n s) \<and>
     ic_tx (up_icount (uport n s')) = ic_tx (up_icount (uport n s)) + of_nat k \<and>
     (tx_ready io (up_mapbase (uport n s)) \<longrightarrow> k = min count (length (xmit_contents (ui_xmit i))))"
  using assms
proof (induction count arbitrary: s i)
  case 0
  then show ?case by (intro exI [of _ s] exI [of _ 0] exI [of _ "ui_xmit i"]) simp
next
  case (Suc count)
  let ?base = "up_mapbase (uport n s)" and ?q = "xmit_contents (ui_xmit i)"
  define v where "v = fst (REGW_rd io (FSTATUSx ?base) (regs (hw s)))"
  define s1 where "s1 = regs_upd (\<lambda>_. snd (REGW_rd io (FSTATUSx ?base) (regs (hw s)))) s"
  have rd: "ureg_rd io FSTATUSx n s = (v, s1)" by (simp add: ureg_rd_eq v_def s1_def)
  have s1: "sent (regs (hw s1)) = sent (regs (hw s))" "uport n s1 = uport n s" "port_info n s1 = Some i"
    using Suc.prems(1,2) by (simp_all add: s1_def tx_fifo_def)
  show ?case
  proof (cases "?q = []")
    case True
    then have "tx_loop io n (Suc count) s = Some s"
      using Suc.prems(2,3) by (simp add: circ_empty)
    then show ?thesis using True Suc.prems(2,3)
      by (intro exI [of _ s] exI [of _ 0] exI [of _ "ui_xmit i"]) simp
  next
    case ne: False
    then have e: "\<not> uart_circ_empty (ui_xmit i)" using Suc.prems(3) by (simp add: circ_empty)
    show ?thesis
    proof (cases "v AND FSTATUS_TX_FIFO_FULL = 0")
      case False
      then have "tx_loop io n (Suc count) s = Some s1"
        using Suc.prems(2) e rd by simp
      moreover have "\<not> tx_ready io ?base" using False by (auto simp: tx_ready_def v_def)
      ultimately show ?thesis using s1 Suc.prems(3)
        by (intro exI [of _ s1] exI [of _ 0] exI [of _ "ui_xmit i"]) simp
    next
      case True
      obtain c1 where c1: "circ_next (ui_xmit i) = Some (hd ?q, c1)" "xmit_ok c1" "xmit_contents c1 = tl ?q"
        using circ_next_law [OF Suc.prems(3) ne] by blast
      define s2 where "s2 = icount_upd n (ic_tx_update (\<lambda>t. t + 1))
          (info_upd n (ui_xmit_update (\<lambda>_. c1)) (ureg_wr io THBx n (ucast (hd ?q)) s1))"
      have step: "tx_loop io n (Suc count) s = tx_loop io n count s2"
        using Suc.prems(2) e rd True c1(1) by (simp add: s2_def)
      have s2: "up_mapbase (uport n s2) = ?base" "up_x_char (uport n s2) = up_x_char (uport n s)"
        "port_info n s2 = Some (ui_xmit_update (\<lambda>_. c1) i)"
        "ic_tx (up_icount (uport n s2)) = ic_tx (up_icount (uport n s)) + 1"
        "sent (regs (hw s2)) = sent (regs (hw s)) @ [ucast (hd ?q)]"
        using s1 Suc.prems(1) by (simp_all add: s2_def tx_fifo_def)
      obtain s' k c where r: "tx_loop io n count s2 = Some s'" "k \<le> count"
        "port_info n s' = Some (ui_xmit_update (\<lambda>_. c) i)" "xmit_ok c" "xmit_contents c = drop k (tl ?q)"
        "k \<le> length (tl ?q)" "sent (regs (hw s')) = sent (regs (hw s2)) @ map ucast (take k (tl ?q))"
        "up_mapbase (uport n s') = ?base" "up_x_char (uport n s') = up_x_char (uport n s)"
        "ic_tx (up_icount (uport n s')) = ic_tx (up_icount (uport n s2)) + of_nat k"
        "tx_ready io ?base \<longrightarrow> k = min count (length (tl ?q))"
        using Suc.IH [of s2 "ui_xmit_update (\<lambda>_. c1) i"] Suc.prems(1) s2 c1 by auto
      have q: "take (Suc k) ?q = hd ?q # take k (tl ?q)" "drop (Suc k) ?q = drop k (tl ?q)"
        using ne by (cases ?q; simp)+
      have l: "Suc (min count (length ?q - 1)) = min (Suc count) (length ?q)" "Suc k \<le> length ?q"
        using ne r(6) by (cases ?q; simp)+
      show ?thesis unfolding step using r s2(4,5) q l
        by (intro exI [of _ s'] exI [of _ "Suc k"] exI [of _ c]) simp
    qed
  qed
qed


lemma stop_tx_frame:
  assumes "lines_ok n s"
  shows "\<exists>s'. mp25xxf_uart_stop_tx n s = Some s' \<and> lines_ok n s' \<and> \<not> mp_tx_claimed (mports (hw s') n) \<and>
    uport n s' = uport n s \<and> port_info n s' = port_info n s \<and> regs (hw s') = regs (hw s)"
proof -
  obtain s' where s': "mp25xxf_uart_stop_tx n s = Some s'" "lines_ok n s'" "\<not> mp_tx_claimed (mports (hw s') n)"
    using lines_ok_stop_tx [OF assms] by blast
  have "regs (hw s') = regs (hw s)"
  proof (cases "mp_tx_claimed (mports (hw s) n)")
    case True
    then have "line_held (tx_line n s) (uact TX_HANDLER n) True s" using assms by (simp add: lines_ok_def)
    from disable_irq_held [OF this] show ?thesis using s'(1) True
      by (auto simp: mp25xxf_uart_stop_tx_def Let_def)
  qed (use s'(1) in \<open>simp add: mp25xxf_uart_stop_tx_def\<close>)
  then show ?thesis using s' stop_tx_port [OF s'(1) assms] by (simp add: port_info_def)
qed

text \<open>A transmit interrupt of a port that may send.\<close>

lemma tx_int_run:
  assumes fifo: "tx_fifo io (up_mapbase (uport n s)) sent" and ok: "lines_ok n s"
    and i: "port_info n s = Some i" "xmit_ok (ui_xmit i)" "ui_tty i = Some t"
    and go: "up_x_char (uport n s) = 0" "\<not> tty_stopped t" "\<not> tty_hw_stopped t"
  defines "q \<equiv> xmit_contents (ui_xmit i)"
  shows "\<exists>s' k i'. mp25xxf_tx_int io n s = Some (IRQ_HANDLED, s') \<and> lines_ok n s' \<and> k \<le> 16 \<and>
    k \<le> length q \<and> port_info n s' = Some i' \<and> xmit_ok (ui_xmit i') \<and> ui_tty i' = Some t \<and>
    xmit_contents (ui_xmit i') = drop k q \<and>
    sent (regs (hw s')) = sent (regs (hw s)) @ map ucast (take k q) \<and>
    up_mapbase (uport n s') = up_mapbase (uport n s) \<and> up_x_char (uport n s') = 0 \<and>
    (drop k q = [] \<longrightarrow> \<not> mp_tx_claimed (mports (hw s') n)) \<and>
    (tx_ready io (up_mapbase (uport n s)) \<longrightarrow> k = min 16 (length q))"
proof (cases "q = []")
  case True
  then have e: "uart_circ_empty (ui_xmit i)" using i(2) by (simp add: circ_empty q_def)
  obtain s' where s': "mp25xxf_uart_stop_tx n s = Some s'" "lines_ok n s'" "\<not> mp_tx_claimed (mports (hw s') n)"
    "uport n s' = uport n s" "port_info n s' = port_info n s" "regs (hw s') = regs (hw s)"
    using stop_tx_frame [OF ok] by blast
  have "mp25xxf_tx_int io n s = Some (IRQ_HANDLED, s')"
    using go(1) i(1) e s'(1) by (simp add: mp25xxf_tx_int_def)
  then show ?thesis using s' i go(1) True
    by (intro exI [of _ s'] exI [of _ 0] exI [of _ i]) (simp add: q_def)
next
  case False
  then have e: "\<not> uart_circ_empty (ui_xmit i)" using i(2) by (simp add: circ_empty q_def)
  obtain s1 k c where s1: "tx_loop io n 16 s = Some s1" "k \<le> 16"
     "port_info n s1 = Some (ui_xmit_update (\<lambda>_. c) i)" "xmit_ok c" "xmit_contents c = drop k q" "k \<le> length q"
     "sent (regs (hw s1)) = sent (regs (hw s)) @ map ucast (take k q)"
     "up_mapbase (uport n s1) = up_mapbase (uport n s)" "up_x_char (uport n s1) = 0"
     "tx_ready io (up_mapbase (uport n s)) \<longrightarrow> k = min 16 (length q)"
    using tx_loop_law [OF fifo i(1,2), of 16] go(1) unfolding q_def by auto
  have ok1: "lines_ok n s1" using lines_ok_cong [OF lines_tx_loop [OF s1(1)]] ok by simp
  define s2 where "s2 = (if uart_circ_chars_pending c < WAKEUP_CHARS
      then info_upd n (ui_tasklet_update (\<lambda>_. True)) s1 else s1)"
  have s2: "lines_ok n s2" "regs (hw s2) = regs (hw s1)" "up_mapbase (uport n s2) = up_mapbase (uport n s)"
    "up_x_char (uport n s2) = 0"
    "\<exists>i'. port_info n s2 = Some i' \<and> ui_xmit i' = c \<and> ui_tty i' = Some t"
    using ok1 s1(3,8,9) i(3) by (auto simp: s2_def)
  obtain i' where i': "port_info n s2 = Some i'" "ui_xmit i' = c" "ui_tty i' = Some t" using s2(5) by blast
  have t: "port_tty n s = Some t" using i by (simp add: port_tty_def)
  have eq: "mp25xxf_tx_int io n s = do {
      s \<leftarrow> (if uart_circ_empty c then mp25xxf_uart_stop_tx n s2 else Some s2); Some (IRQ_HANDLED, s) }"
    using go i(1) e t s1(1,3)
    by (simp add: mp25xxf_tx_int_def uart_tx_stopped_def uart_write_wakeup_def s2_def)
  show ?thesis
  proof (cases "uart_circ_empty c")
    case True
    obtain s3 where s3: "mp25xxf_uart_stop_tx n s2 = Some s3" "lines_ok n s3" "\<not> mp_tx_claimed (mports (hw s3) n)"
      "uport n s3 = uport n s2" "port_info n s3 = port_info n s2" "regs (hw s3) = regs (hw s2)"
      using stop_tx_frame [OF s2(1)] by blast
    have "mp25xxf_tx_int io n s = Some (IRQ_HANDLED, s3)" using eq True s3(1) by simp
    then show ?thesis using s1 s2(2-4) s3 i' by (intro exI [of _ s3] exI [of _ k] exI [of _ i']) simp
  next
    case False
    then have "drop k q \<noteq> []" using s1(4,5) by (simp add: circ_empty)
    moreover have "mp25xxf_tx_int io n s = Some (IRQ_HANDLED, s2)" using eq False by simp
    ultimately show ?thesis using s1 s2(1-4) i' by (intro exI [of _ s2] exI [of _ k] exI [of _ i']) simp
  qed
qed


lemma start_tx_frame:
  assumes "lines_ok n s"
  shows "\<exists>s'. mp25xxf_uart_start_tx n s = Some s' \<and> lines_ok n s' \<and> mp_tx_claimed (mports (hw s') n) \<and>
    uport n s' = uport n s \<and> port_info n s' = port_info n s"
proof -
  obtain s' where s': "mp25xxf_uart_start_tx n s = Some s'" "lines_ok n s'" "mp_tx_claimed (mports (hw s') n)"
    using lines_ok_start_tx [OF assms] by blast
  have "uport n s' = uport n s"
  proof (cases "mp_tx_claimed (mports (hw s) n)")
    case False
    then have "line_held (tx_line n s) (uact TX_HANDLER n) False s" using assms by (simp add: lines_ok_def)
    from enable_irq_held [OF this] show ?thesis using s'(1) False
      by (auto simp: mp25xxf_uart_start_tx_def Let_def uport_def)
  qed (use s'(1) in \<open>simp add: mp25xxf_uart_start_tx_def\<close>)
  then show ?thesis using s' by (simp add: port_info_def)
qed

lemma tx_ints_drain:
  assumes "tx_fifo io base sent" "tx_ready io base" "base = up_mapbase (uport n s)" "lines_ok n s"
    "port_info n s = Some i" "xmit_ok (ui_xmit i)" "ui_tty i = Some t"
    "up_x_char (uport n s) = 0" "\<not> tty_stopped t" "\<not> tty_hw_stopped t"
    "length (xmit_contents (ui_xmit i)) div 16 = m"
  shows "\<exists>s' i'. repeat_op (\<lambda>s. map_option snd (mp25xxf_tx_int io n s)) (Suc m) s = Some s' \<and>
    port_info n s' = Some i' \<and> xmit_contents (ui_xmit i') = [] \<and> \<not> mp_tx_claimed (mports (hw s') n) \<and>
    sent (regs (hw s')) = sent (regs (hw s)) @ map ucast (xmit_contents (ui_xmit i))"
  using assms(3-)
proof (induction m arbitrary: s i)
  case 0
  let ?q = "xmit_contents (ui_xmit i)"
  obtain s1 k i1 where s1: "mp25xxf_tx_int io n s = Some (IRQ_HANDLED, s1)" "port_info n s1 = Some i1"
    "xmit_contents (ui_xmit i1) = drop k ?q"
    "sent (regs (hw s1)) = sent (regs (hw s)) @ map ucast (take k ?q)"
    "drop k ?q = [] \<longrightarrow> \<not> mp_tx_claimed (mports (hw s1) n)" "k = min 16 (length ?q)"
    using tx_int_run [of io n s sent i t] 0 assms(1,2) by auto
  have "k = length ?q" using s1(6) 0(9) by (simp add: div_eq_0_iff)
  then show ?case using s1 by simp
next
  case (Suc m)
  let ?q = "xmit_contents (ui_xmit i)"
  obtain s1 k i1 where s1: "mp25xxf_tx_int io n s = Some (IRQ_HANDLED, s1)" "port_info n s1 = Some i1"
    "xmit_contents (ui_xmit i1) = drop k ?q" "lines_ok n s1" "xmit_ok (ui_xmit i1)" "ui_tty i1 = Some t"
    "sent (regs (hw s1)) = sent (regs (hw s)) @ map ucast (take k ?q)"
    "up_mapbase (uport n s1) = up_mapbase (uport n s)" "up_x_char (uport n s1) = 0" "k = min 16 (length ?q)"
    using tx_int_run [of io n s sent i t] Suc.prems assms(1,2) by auto
  have k: "k = 16" "length (drop k ?q) div 16 = m" using s1(10) Suc.prems(9) by (auto simp: min_def)
  obtain s' i' where r: "repeat_op (\<lambda>s. map_option snd (mp25xxf_tx_int io n s)) (Suc m) s1 = Some s'"
    "port_info n s' = Some i'" "xmit_contents (ui_xmit i') = []" "\<not> mp_tx_claimed (mports (hw s') n)"
    "sent (regs (hw s')) = sent (regs (hw s1)) @ map ucast (drop k ?q)"
    using Suc.IH [of s1 i1] s1 Suc.prems(1,7,8) k(2) by auto
  have "repeat_op (\<lambda>s. map_option snd (mp25xxf_tx_int io n s)) (Suc (Suc m)) s = Some s'"
    using s1(1) r(1) by simp
  moreover have "map ucast (take k ?q) @ map ucast (drop k ?q) = map ucast ?q"
    by (metis append_take_drop_id map_append)
  ultimately show ?case using r s1(7) by auto
qed

lemma uart_write_open:
  assumes "lines_ok n s" "port_info n s = Some i" "xmit_ok (ui_xmit i)" "ui_tty i = Some t"
    "\<not> tty_stopped t" "\<not> tty_hw_stopped t"
  defines "q \<equiv> xmit_contents (ui_xmit i)"
  shows "\<exists>s' i'. uart_write (mp25xxf_uart_ops io env mem) n buf (int (length buf)) s =
      Some (Inr (int (min (length buf) (4095 - length q))), s') \<and> lines_ok n s' \<and>
    port_info n s' = Some i' \<and> xmit_ok (ui_xmit i') \<and> ui_tty i' = Some t \<and>
    xmit_contents (ui_xmit i') = q @ take (4095 - length q) buf \<and>
    (xmit_contents (ui_xmit i') \<noteq> [] \<longrightarrow> mp_tx_claimed (mports (hw s') n)) \<and>
    up_mapbase (uport n s') = up_mapbase (uport n s) \<and> up_x_char (uport n s') = up_x_char (uport n s)"
proof -
  obtain c where c: "uart_write_loop buf (int (length buf)) (ui_xmit i) =
      Some (int (min (length buf) (4095 - length q)), c)" "xmit_ok c"
    "xmit_contents c = q @ take (4095 - length q) buf"
    using uart_write_loop_law [OF assms(3), of "int (length buf)" buf] unfolding q_def by auto
  define s1 where "s1 = info_upd n (ui_xmit_update (\<lambda>_. c)) s"
  have b: "cb_buf (ui_xmit i) \<noteq> None" "cb_buf c \<noteq> None" using assms(3) c(2) by (auto simp: xmit_ok_def)
  have s1: "lines_ok n s1" "port_info n s1 = Some (ui_xmit_update (\<lambda>_. c) i)"
    using assms(1,2) by (simp_all add: s1_def)
  have u1: "up_mapbase (uport n s1) = up_mapbase (uport n s)" "up_x_char (uport n s1) = up_x_char (uport n s)"
    by (simp_all add: s1_def)
  define i1 where "i1 = ui_xmit_update (\<lambda>_. c) i"
  have i1: "ui_xmit i1 = c" "ui_tty i1 = Some t" "port_info n s1 = Some i1"
    using assms(4) s1(2) by (simp_all add: i1_def)
  have w: "uart_write (mp25xxf_uart_ops io env mem) n buf (int (length buf)) s =
      do { s \<leftarrow> uart_start (mp25xxf_uart_ops io env mem) n s1;
           Some (Inr (int (min (length buf) (4095 - length q))), s) }"
    using assms(2) b(1) c(1) by (auto simp: uart_write_def s1_def)
  show ?thesis
  proof (cases "uart_circ_empty c")
    case True
    then have "uart_start (mp25xxf_uart_ops io env mem) n s1 = Some s1"
      using s1(2) assms(4) by (simp add: uart_start_def raw_uart_start_def)
    moreover have "xmit_contents c = []" using True c(2) by (simp add: circ_empty)
    ultimately show ?thesis using w c(2,3) s1(1) u1 i1
      by (intro exI [of _ s1] exI [of _ i1]) auto
  next
    case False
    obtain s2 where s2: "mp25xxf_uart_start_tx n s1 = Some s2" "lines_ok n s2" "mp_tx_claimed (mports (hw s2) n)"
      "uport n s2 = uport n s1" "port_info n s2 = port_info n s1"
      using start_tx_frame [OF s1(1)] by blast
    have "uart_start (mp25xxf_uart_ops io env mem) n s1 = Some s2"
      using False s1(2) assms(4-6) b(2) s2(1) by (simp add: uart_start_def raw_uart_start_def)
    then show ?thesis using w c(2,3) u1 s2 i1
      by (intro exI [of _ s2] exI [of _ i1]) simp
  qed
qed




text \<open>A transmitter that is always ready and records what is sent, and a port connected to it.\<close>

definition wire :: "u16 list mmio" where
  "wire = \<lparr>rd32 = (\<lambda>a h. (0, h)), wr32 = (\<lambda>a v h. h), rd16 = (\<lambda>a h. (0, h)),
     wr16 = (\<lambda>a v h. if a = io_p2v (THBx MP25XXF_UART0_START) then h @ [v] else h),
     rd8 = (\<lambda>a h. (0, h)), wr8 = (\<lambda>a v h. h)\<rparr>"

definition example_tty :: tty_struct where
  "example_tty = \<lparr>tty_stopped = False, tty_hw_stopped = False, tty_io_error = False,
     tty_throttled = False, tty_closing = False,
     tty_termios = \<lparr>c_iflag = 0, c_cflag = CREAD, c_start = 17, c_stop = 19, c_ispeed = 0, c_ospeed = 0\<rparr>,
     tty_flip = [], tty_room = 100, tty_pushed = False, tty_wakeups = 0, tty_saks = 0\<rparr>"

definition open_info :: uart_info where
  "open_info = \<lparr>ui_tty = Some example_tty,
     ui_xmit = \<lparr>cb_buf = Some (replicate 4096 0), cb_head = 0, cb_tail = 0\<rparr>,
     ui_flags = UIF_INITIALIZED, ui_tasklet = False\<rparr>"

lemma example_uport:
  "up_mapbase (uport 0 (uart_example r i)) = MP25XXF_UART0_START"
  "up_x_char (uport 0 (uart_example r i)) = 0" "port_info 0 (uart_example r i) = Some i"
  "up_fifosize (uport 0 (uart_example r i)) = 16"
  by (simp_all add: uport_def port_info_def uart_example_def mp25xxf_uart_ports_def static_port_def)


end
