(* ===== verification/Uart_Receive.thy ===== *)
theory Uart_Receive
  imports Uart_Data
begin

text \<open>
  The receive interrupt of a serial port, and the probe of the ports. The receiver's hardware is described by what its
  registers promise: \<open>rx_port\<close> says that the status register counts the received characters, that
  the receive register gives the oldest of them, and that the error register then gives its status.
  The count has four bits, so nothing is assumed of it when sixteen characters are waiting.
\<close>

definition rx_port :: "'h mmio \<Rightarrow> u32 \<Rightarrow> ('h \<Rightarrow> (u16 \<times> u16) list) \<Rightarrow> bool" where
  "rx_port io base q \<longleftrightarrow> (\<forall>h.
     (length (q h) < 16 \<longrightarrow>
       (fst (REGW_rd io (FSTATUSx base) h) AND FSTATUS_RX_FIFO_COUNT \<noteq> 0 \<longleftrightarrow> q h \<noteq> [])) \<and>
     q (snd (REGW_rd io (FSTATUSx base) h)) = q h \<and>
     (q h \<noteq> [] \<longrightarrow> fst (REGW_rd io (RHBx base) h) = fst (hd (q h)) \<and>
        fst (REGW_rd io (ESTATUSx base) (snd (REGW_rd io (RHBx base) h))) = snd (hd (q h))) \<and>
     q (snd (REGW_rd io (RHBx base) h)) = tl (q h) \<and>
     q (snd (REGW_rd io (ESTATUSx base) h)) = q h)"

lemma rx_char_normal:
  assumes "e = 0 \<or> e = ESTATUS_PARITY_ERROR" "up_ignore_status_mask (uport n s) AND 2 = 0"
  shows "rx_char n c e s = tty_upd n (tty_insert_flip_char (ucast c) TTY_NORMAL) s"
proof -
  let ?e = "ucast e :: u32"
  have any: "e AND ESTATUS_ANY = 0" and over: "?e AND ucast ESTATUS_OVERRUN_ERROR = 0"
    using assms(1) by (auto simp: ESTATUS_ANY_def ESTATUS_PARITY_ERROR_def ESTATUS_OVERRUN_ERROR_def
        ESTATUS_FRAME_ERROR_def ESTATUS_BREAK_DETECT_def)
  have ign: "?e AND up_ignore_status_mask (uport n s) = 0"
    using assms by (auto simp: ESTATUS_PARITY_ERROR_def and.commute)
  have "?e AND NOT m AND ucast ESTATUS_OVERRUN_ERROR = 0" for m
    using over by (simp add: and.commute [of "NOT m"] flip: and.assoc)
  moreover have "?e AND up_ignore_status_mask (uport n s) AND NOT m = 0" for m
    using ign by (simp flip: and.assoc)
  moreover have "ucast (ucast c :: u32) = (ucast c :: u8)"
    by (rule bit_word_eqI) (auto simp: bit_ucast_iff)
  ultimately show ?thesis
    using any by (simp add: rx_char_def uart_handle_sysrq_char_def uart_insert_char_def Let_def)
qed

lemma port_tty_upd:
  "port_tty n s = Some t \<Longrightarrow> port_tty n (tty_upd n f s) = Some (f t)"
  by (auto simp: port_tty_def port_info_def split: bind_splits)

lemma port_tty_uartok [simp]: "port_tty n (set_uartok s) = port_tty n s"
  by (simp add: port_tty_def port_info_def)

text \<open>The loop takes every waiting character.\<close>

lemma rx_loop_law:
  assumes "length (q (regs (hw s))) \<le> k" "length (q (regs (hw s))) < 16"
    "rx_port io (up_mapbase (uport n s)) q" "port_tty n s = Some t" "length (q (regs (hw s))) \<le> tty_room t"
    "list_all (\<lambda>(c, e). e = 0 \<or> e = ESTATUS_PARITY_ERROR) (q (regs (hw s)))"
    "up_ignore_status_mask (uport n s) AND 2 = 0"
  shows "\<exists>t'. port_tty n (rx_loop io n k s) = Some t' \<and> q (regs (hw (rx_loop io n k s))) = [] \<and>
    tty_flip t' = tty_flip t @ map (\<lambda>(c, e). (ucast c, TTY_NORMAL)) (q (regs (hw s))) \<and>
    ic_rx (up_icount (uport n (rx_loop io n k s))) =
      ic_rx (up_icount (uport n s)) + of_nat (length (q (regs (hw s))))"
  using assms
proof (induction k arbitrary: s t)
  case (Suc k)
  let ?b = "up_mapbase (uport n s)" and ?h = "regs (hw s)"
  define h1 where "h1 = snd (REGW_rd io (FSTATUSx ?b) ?h)"
  have q1: "q h1 = q ?h" using Suc.prems(3) by (simp add: rx_port_def h1_def)
  have cnt: "fst (REGW_rd io (FSTATUSx ?b) ?h) AND FSTATUS_RX_FIFO_COUNT \<noteq> 0 \<longleftrightarrow> q ?h \<noteq> []"
    using Suc.prems(2,3) by (simp add: rx_port_def)
  show ?case
  proof (cases "q ?h")
    case Nil
    then have "rx_loop io n (Suc k) s = regs_upd (\<lambda>_. h1) s" using cnt by (simp add: ureg_rd_eq h1_def)
    then show ?thesis using Nil q1 Suc.prems(4) by (simp add: port_tty_def port_info_def)
  next
    case (Cons x r)
    obtain c e where x: "x = (c, e)" by fastforce
    define h2 where "h2 = snd (REGW_rd io (RHBx ?b) h1)"
    define h3 where "h3 = snd (REGW_rd io (ESTATUSx ?b) h2)"
    have rd: "fst (REGW_rd io (RHBx ?b) h1) = c" "fst (REGW_rd io (ESTATUSx ?b) h2) = e" "q h3 = r"
      using Suc.prems(3) q1 Cons x by (simp_all add: rx_port_def h2_def h3_def)
    define s3 where "s3 = regs_upd (\<lambda>_. h3) (icount_upd n (ic_rx_update (\<lambda>c. c + 1)) (regs_upd (\<lambda>_. h2) (regs_upd (\<lambda>_. h1) s)))"
    define s4 where "s4 = tty_upd n (tty_insert_flip_char (ucast c) TTY_NORMAL) s3"
    have "rx_char n c e s3 = s4"
      unfolding s4_def by (rule rx_char_normal) (use Suc.prems(6,7) Cons x in \<open>simp_all add: s3_def\<close>)
    then have step: "rx_loop io n (Suc k) s = rx_loop io n k s4"
      using cnt Cons rd(1,2) by (simp add: ureg_rd_eq s3_def flip: h1_def h2_def h3_def)
    have tty: "port_tty n s4 = Some (tty_insert_flip_char (ucast c) TTY_NORMAL t)"
      unfolding s4_def by (rule port_tty_upd) (use Suc.prems(4) in \<open>simp add: s3_def port_tty_def port_info_def\<close>)
    have s4: "regs (hw s4) = h3" "up_mapbase (uport n s4) = ?b"
      "ic_rx (up_icount (uport n s4)) = ic_rx (up_icount (uport n s)) + 1"
      "up_ignore_status_mask (uport n s4) = up_ignore_status_mask (uport n s)"
      by (simp_all add: s4_def s3_def)
    have "length r \<le> tty_room t - Suc 0" using Suc.prems(5) Cons by simp
    then show ?thesis
      unfolding step using Suc.IH [OF _ _ _ tty] Suc.prems rd(3) Cons x s4
      by (simp add: tty_insert_flip_char_def add.assoc)
  qed
qed (simp add: port_tty_def)


text \<open>A receiver whose state is what is waiting and the status of the last character read.\<close>

definition rx_dev :: "((u16 \<times> u16) list \<times> u16) mmio" where
  "rx_dev = \<lparr>rd32 = (\<lambda>_ h. (0, h)), wr32 = (\<lambda>_ _ h. h),
     rd16 = (\<lambda>a (l, e). if a = io_p2v (RHBx MP25XXF_UART0_START)
               then (case l of [] \<Rightarrow> (0, ([], e)) | x # r \<Rightarrow> (fst x, (r, snd x)))
             else if a = io_p2v (ESTATUSx MP25XXF_UART0_START) then (e, (l, e))
             else (if l = [] then 0 else 1, (l, e))),
     wr16 = (\<lambda>_ _ h. h), rd8 = (\<lambda>_ h. (0, h)), wr8 = (\<lambda>_ _ h. h)\<rparr>"


section \<open>The probe\<close>

lemmas uart_base_defs = MP25XXF_UART0_START_def MP25XXF_UART1_START_def MP25XXF_UART2_START_def
  MP25XXF_UART3_START_def MP25XXF_UART_SIZE_def

lemmas uart_irq_defs = IRQ_UART_TXD0_def IRQ_UART_RXD0_def IRQ_UART_TXD1_def IRQ_UART_RXD1_def
  IRQ_UART_TXD2_def IRQ_UART_RXD2_def IRQ_UART_TXD3_def IRQ_UART_RXD3_def IRQ_UART_START_def
  IRQ_TIMER_END_def IRQ_TIMER_START_def MMSP2_IRQS_def

text \<open>The devices of the four ports in the machine's table.\<close>

definition uart_devices :: "platform_device list" where
  "uart_devices = filter (\<lambda>d. pd_name d = ''mp25xxf_uart'') mmsp2_devices"

text \<open>
  C40. Probing the machine's devices gives every port its own registers and its own receive and
  transmit lines, whatever it had before: the exchange of the two lines in the driver's static
  table does not survive. Nothing of the other ports, the lines or the registers changes before
  the port is handed to the serial core.
\<close>

theorem uart_probe_lines:
  assumes "n < 4"
  shows "\<exists>s'. mp25xxf_uart_probe add_port (uart_devices ! n) s = Some (Inr (), add_port n s') \<and>
    up_mapbase (uport n s') = MP25XXF_UART0_START + of_nat n * MP25XXF_UART_SIZE \<and>
    mp_txirq (mports (hw s') n) = int (IRQ_UART_TXD0 + 4 * n) \<and>
    mp_rxirq (mports (hw s') n) = int (IRQ_UART_RXD0 + 4 * n) \<and> up_irq (uport n s') = int (IRQ_UART_RXD0 + 4 * n) \<and>
    up_line (uport n s') = of_nat n \<and> up_fifosize (uport n s') = 16 \<and>
    (\<forall>m. m \<noteq> n \<longrightarrow> mports (hw s') m = mports (hw s) m) \<and> irq_desc s' = irq_desc s \<and> regs (hw s') = regs (hw s)"
proof -
  let ?rx = "int (IRQ_UART_RXD0 + 4 * n)"
  let ?s' = "mport_upd n (\<lambda>m. m\<lparr>mp_rxirq := ?rx, mp_txirq := int (IRQ_UART_TXD0 + 4 * n),
    mp_port := (mp_port m)\<lparr>up_mapbase := MP25XXF_UART0_START + of_nat n * MP25XXF_UART_SIZE, up_irq := ?rx,
      up_type := PORT_MP25XXF, up_uartclk := 16000000, up_fifosize := 16, up_flags := UPF_BOOT_AUTOCONF,
      up_line := of_nat n\<rparr>\<rparr>) s"
  have "n = 0 \<or> n = 1 \<or> n = 2 \<or> n = 3" using assms by linarith
  then have "mp25xxf_uart_probe add_port (uart_devices ! n) s = Some (Inr (), add_port n ?s')"
    by (elim disjE) (simp_all add: uart_devices_def mmsp2_devices_def device_defs mp25xxf_uart_probe_def
        NR_PORTS_def platform_get_irq_def resource_defs Let_def uart_base_defs uart_irq_defs)
  then show ?thesis
    by (intro exI [of _ ?s'] conjI) (simp_all add: uport_def)
qed

theorem uart_probe_lines_witness:
  "\<exists>s'. mp25xxf_uart_probe (\<lambda>_ s. s) (uart_devices ! 2) (uart_example () open_info) = Some (Inr (), s') \<and>
    up_mapbase (uport 2 s') = MP25XXF_UART2_START \<and> mp_txirq (mports (hw s') 2) = int IRQ_UART_TXD2 \<and>
    mp_rxirq (mports (hw s') 2) = int IRQ_UART_RXD2"
  using uart_probe_lines [of 2 "\<lambda>_ s. s" "uart_example () open_info"]
  by (auto simp: uart_base_defs uart_irq_defs)

end
