(* ===== verification/Mtd_Part.thy ===== *)
theory Mtd_Part
  imports Prelude "HOL-Library.Monad_Syntax"
begin

text \<open>
  Partitions of a flash device (\<^verbatim>\<open>drivers/mtd/mtdpart.c\<close>) and the table of flash devices
  (\<^verbatim>\<open>drivers/mtd/mtdcore.c\<close>). The master device, a flash driver, is a record of operations on a
  flash state \<open>'h\<close>; an operation returns \<open>None\<close> for zero or the error it reports. Slave objects
  are named by their address, a number. A \<^verbatim>\<open>loff_t\<close> is an integer: the sums of one with the
  32-bit quantities of the code stay far below 64 bits wherever the code has compared it first.
  Division by zero, a \<^verbatim>\<open>BUG_ON\<close>, an access outside an array and a loop that does not end are
  \<open>None\<close>. The notifier callbacks of device users are not part of the model.
\<close>

section \<open>Data\<close>

datatype mtd_op = Op_read | Op_write | Op_erase | Op_point | Op_unpoint | Op_read_oob | Op_write_oob
  | Op_read_user_prot_reg | Op_read_fact_prot_reg | Op_write_user_prot_reg | Op_lock_user_prot_reg
  | Op_get_user_prot_info | Op_get_fact_prot_info | Op_sync | Op_suspend | Op_resume | Op_writev
  | Op_lock | Op_unlock | Op_block_isbad | Op_block_markbad

text \<open>A device: \<open>mi_has\<close> tells which operation pointers are set, \<open>mi_regions\<close> are offset and erase
  size of the regions of a device with several.\<close>

record mtd_info =
  mi_type :: u8
  mi_flags :: u32
  mi_size :: u32
  mi_erasesize :: u32
  mi_writesize :: u32
  mi_oobsize :: u32
  mi_oobavail :: u32
  mi_subpage_sft :: int
  mi_name :: string
  mi_index :: nat
  mi_usecount :: int
  mi_regions :: "(u32 \<times> u32) list"
  mi_has :: "mtd_op \<Rightarrow> bool"
  ecc_corrected :: u32
  ecc_failed :: u32
  ecc_badblocks :: u32

record mtd_partition =
  mp_name :: string
  mp_size :: u32
  mp_offset :: u32
  mp_mask_flags :: u32
  mp_mtdp :: bool

record mtd_part =
  pt_mtd :: mtd_info
  pt_master :: nat
  pt_offset :: u32
  pt_index :: nat
  pt_registered :: bool

record 'h mtd_sys =
  flash :: 'h
  part_at :: "nat \<Rightarrow> mtd_part"
  mtd_partitions :: "nat list"
  mtd_table :: "nat option list"

record 'h master_ops =
  mo_read :: "int \<Rightarrow> u32 \<Rightarrow> 'h \<Rightarrow> errno option \<times> u8 list \<times> 'h"
  mo_write :: "int \<Rightarrow> u32 \<Rightarrow> u8 list \<Rightarrow> 'h \<Rightarrow> errno option \<times> 'h"
  mo_erase :: "u32 \<Rightarrow> u32 \<Rightarrow> 'h \<Rightarrow> errno option \<times> u32 \<times> 'h"
  mo_lock :: "int \<Rightarrow> u32 \<Rightarrow> 'h \<Rightarrow> errno option \<times> 'h"
  mo_unlock :: "int \<Rightarrow> u32 \<Rightarrow> 'h \<Rightarrow> errno option \<times> 'h"
  mo_isbad :: "int \<Rightarrow> 'h \<Rightarrow> bool"
  mo_markbad :: "int \<Rightarrow> 'h \<Rightarrow> errno option \<times> 'h"

definition MTD_WRITEABLE :: u32 where "MTD_WRITEABLE = 0x400"
definition MTD_STUPID_LOCK :: u32 where "MTD_STUPID_LOCK = 0x2000"
definition MAX_MTD_DEVICES :: nat where "MAX_MTD_DEVICES = 32"
definition MTDPART_OFS_NXTBLK :: u32 where "MTDPART_OFS_NXTBLK = - 2"
definition MTDPART_OFS_APPEND :: u32 where "MTDPART_OFS_APPEND = - 1"
definition MTDPART_SIZ_FULL :: u32 where "MTDPART_SIZ_FULL = 0"

definition mtd_of :: "nat \<Rightarrow> 'h mtd_sys \<Rightarrow> mtd_info" where
  "mtd_of a s = pt_mtd (part_at s a)"

definition part_upd :: "nat \<Rightarrow> (mtd_part \<Rightarrow> mtd_part) \<Rightarrow> 'h mtd_sys \<Rightarrow> 'h mtd_sys" where
  "part_upd a f s = s\<lparr>part_at := (part_at s)(a := f (part_at s a))\<rparr>"

definition writeable :: "mtd_info \<Rightarrow> bool" where
  "writeable m \<longleftrightarrow> mi_flags m AND MTD_WRITEABLE \<noteq> 0"

section \<open>Access through a partition\<close>

text \<open>The length that is left of an access at \<open>from\<close>.\<close>

definition part_clip :: "mtd_info \<Rightarrow> int \<Rightarrow> u32 \<Rightarrow> u32" where
  "part_clip mtd from len = (
     if from \<ge> uint (mi_size mtd) then 0
     else if from + uint len > uint (mi_size mtd) then of_int (uint (mi_size mtd) - from)
     else len)"

definition part_read ::
  "'h master_ops \<Rightarrow> nat \<Rightarrow> int \<Rightarrow> u32 \<Rightarrow> 'h mtd_sys \<Rightarrow> errno option \<times> u8 list \<times> 'h mtd_sys" where
  "part_read ops a from len s = (
     let mtd = mtd_of a s;
         len = part_clip mtd from len;
         (res, buf, h) = mo_read ops (from + uint (pt_offset (part_at s a))) len (flash s);
         s = s\<lparr>flash := h\<rparr>;
         s = (if res = Some EUCLEAN
              then part_upd a (pt_mtd_update (ecc_corrected_update (\<lambda>n. n + 1))) s else s);
         s = (if res = Some EBADMSG
              then part_upd a (pt_mtd_update (ecc_failed_update (\<lambda>n. n + 1))) s else s)
     in (res, buf, s))"

definition part_write ::
  "'h master_ops \<Rightarrow> nat \<Rightarrow> int \<Rightarrow> u32 \<Rightarrow> u8 list \<Rightarrow> 'h mtd_sys \<Rightarrow> errno option \<times> 'h mtd_sys" where
  "part_write ops a to len buf s = (
     let mtd = mtd_of a s
     in if \<not> writeable mtd then (Some EROFS, s)
     else let len = part_clip mtd to len;
              (res, h) = mo_write ops (to + uint (pt_offset (part_at s a))) len buf (flash s)
     in (res, s\<lparr>flash := h\<rparr>))"

text \<open>An erase request is its address, its length and its failing address, which come back.\<close>

definition part_erase ::
  "'h master_ops \<Rightarrow> nat \<Rightarrow> u32 \<times> u32 \<times> u32 \<Rightarrow> 'h mtd_sys \<Rightarrow>
     errno option \<times> (u32 \<times> u32 \<times> u32) \<times> 'h mtd_sys" where
  "part_erase ops a = (\<lambda>(addr, len, fail_addr) s.
     let mtd = mtd_of a s; offset = pt_offset (part_at s a)
     in if \<not> writeable mtd then (Some EROFS, (addr, len, fail_addr), s)
     else if addr \<ge> mi_size mtd then (Some EINVAL, (addr, len, fail_addr), s)
     else let addr = addr + offset;
              (ret, fail_addr, h) = mo_erase ops addr len (flash s);
              s = s\<lparr>flash := h\<rparr>
     in if ret \<noteq> None
        then (ret, (addr - offset, len, if fail_addr \<noteq> 0xffffffff then fail_addr - offset else fail_addr), s)
        else (ret, (addr, len, fail_addr), s))"

definition mtd_erase_callback :: "nat \<Rightarrow> u32 \<times> u32 \<times> u32 \<Rightarrow> 'h mtd_sys \<Rightarrow> u32 \<times> u32 \<times> u32" where
  "mtd_erase_callback a = (\<lambda>(addr, len, fail_addr) s.
     let offset = pt_offset (part_at s a)
     in (addr - offset, len, if fail_addr \<noteq> 0xffffffff then fail_addr - offset else fail_addr))"

definition part_lock ::
  "'h master_ops \<Rightarrow> nat \<Rightarrow> int \<Rightarrow> u32 \<Rightarrow> 'h mtd_sys \<Rightarrow> errno option \<times> 'h mtd_sys" where
  "part_lock ops a ofs len s = (
     if uint len + ofs > uint (mi_size (mtd_of a s)) then (Some EINVAL, s)
     else let (res, h) = mo_lock ops (ofs + uint (pt_offset (part_at s a))) len (flash s)
     in (res, s\<lparr>flash := h\<rparr>))"

definition part_unlock ::
  "'h master_ops \<Rightarrow> nat \<Rightarrow> int \<Rightarrow> u32 \<Rightarrow> 'h mtd_sys \<Rightarrow> errno option \<times> 'h mtd_sys" where
  "part_unlock ops a ofs len s = (
     if uint len + ofs > uint (mi_size (mtd_of a s)) then (Some EINVAL, s)
     else let (res, h) = mo_unlock ops (ofs + uint (pt_offset (part_at s a))) len (flash s)
     in (res, s\<lparr>flash := h\<rparr>))"

definition part_block_isbad :: "'h master_ops \<Rightarrow> nat \<Rightarrow> int \<Rightarrow> 'h mtd_sys \<Rightarrow> errno + bool" where
  "part_block_isbad ops a ofs s = (
     if ofs \<ge> uint (mi_size (mtd_of a s)) then Inl EINVAL
     else Inr (mo_isbad ops (ofs + uint (pt_offset (part_at s a))) (flash s)))"

definition part_block_markbad ::
  "'h master_ops \<Rightarrow> nat \<Rightarrow> int \<Rightarrow> 'h mtd_sys \<Rightarrow> errno option \<times> 'h mtd_sys" where
  "part_block_markbad ops a ofs s = (
     let mtd = mtd_of a s
     in if \<not> writeable mtd then (Some EROFS, s)
     else if ofs \<ge> uint (mi_size mtd) then (Some EINVAL, s)
     else let (res, h) = mo_markbad ops (ofs + uint (pt_offset (part_at s a))) (flash s);
              s = s\<lparr>flash := h\<rparr>
     in (res, if res = None
              then part_upd a (pt_mtd_update (ecc_badblocks_update (\<lambda>n. n + 1))) s else s))"

section \<open>The device table\<close>

fun first_free :: "nat option list \<Rightarrow> nat option" where
  "first_free [] = None"
| "first_free (x # xs) = (if x = None then Some 0 else map_option Suc (first_free xs))"

definition add_mtd_device :: "'h master_ops \<Rightarrow> nat \<Rightarrow> 'h mtd_sys \<Rightarrow> (bool \<times> 'h mtd_sys) option" where
  "add_mtd_device ops a s = (
     if mi_writesize (mtd_of a s) = 0 then None
     else case first_free (mtd_table s) of
       None \<Rightarrow> Some (True, s)
     | Some i \<Rightarrow>
         let s = part_upd a (pt_mtd_update (\<lambda>m. m\<lparr>mi_index := i, mi_usecount := 0\<rparr>))
                   (s\<lparr>mtd_table := (mtd_table s)[i := Some a]\<rparr>);
             mtd = mtd_of a s
         in if writeable mtd \<and> mi_flags mtd AND MTD_STUPID_LOCK \<noteq> 0 \<and> mi_has mtd Op_unlock
            then Some (False, snd (part_unlock ops a 0 (mi_size mtd) s))
            else Some (False, s))"

definition del_mtd_device :: "nat \<Rightarrow> 'h mtd_sys \<Rightarrow> ((errno + unit) \<times> 'h mtd_sys) option" where
  "del_mtd_device a s = (
     let mtd = mtd_of a s
     in if \<not> mi_index mtd < length (mtd_table s) then None
     else if mtd_table s ! mi_index mtd \<noteq> Some a then Some (Inl ENODEV, s)
     else if mi_usecount mtd \<noteq> 0 then Some (Inl EBUSY, s)
     else Some (Inr (), s\<lparr>mtd_table := (mtd_table s)[mi_index mtd := None]\<rparr>))"

section \<open>Creating and removing partitions\<close>

text \<open>The loop over the list of partitions: those of the master leave the list, and the device
  table if they are registered there.\<close>

fun del_loop :: "nat \<Rightarrow> nat list \<Rightarrow> nat list \<Rightarrow> 'h mtd_sys \<Rightarrow> 'h mtd_sys option" where
  "del_loop master kept [] s = Some (s\<lparr>mtd_partitions := kept\<rparr>)"
| "del_loop master kept (a # rest) s = (
     if pt_master (part_at s a) = master then do {
       s \<leftarrow> (if pt_registered (part_at s a) then map_option snd (del_mtd_device a s) else Some s);
       del_loop master kept rest s
     } else del_loop master (kept @ [a]) rest s)"

definition del_mtd_partitions :: "nat \<Rightarrow> 'h mtd_sys \<Rightarrow> 'h mtd_sys option" where
  "del_mtd_partitions master s = del_loop master [] (mtd_partitions s) s"

definition slave_ops :: "bool \<Rightarrow> (mtd_op \<Rightarrow> bool) \<Rightarrow> mtd_op \<Rightarrow> bool" where
  "slave_ops first m op = (
     if op = Op_read \<or> op = Op_write \<or> op = Op_erase then True
     else if op = Op_point \<or> op = Op_unpoint then m Op_point \<and> m Op_unpoint
     else if op = Op_suspend \<or> op = Op_resume then first \<and> m Op_suspend \<and> m Op_resume
     else m op)"

text \<open>Where a partition goes: its offset and size, and the offset for the next one.\<close>

definition place_slave :: "mtd_info \<Rightarrow> mtd_partition \<Rightarrow> u32 \<Rightarrow> (u32 \<times> u32 \<times> u32) option" where
  "place_slave m part cur_offset = (
     let offset = mp_offset part;
         offset = (if offset = MTDPART_OFS_APPEND then cur_offset else offset)
     in do {
       offset \<leftarrow> (if offset = MTDPART_OFS_NXTBLK then
                   (if mi_erasesize m = 0 then None
                    else Some (if cur_offset mod mi_erasesize m \<noteq> 0
                               then (cur_offset div mi_erasesize m + 1) * mi_erasesize m
                               else cur_offset))
                 else Some offset);
       sz \<leftarrow> Some (if mp_size part = MTDPART_SIZ_FULL then mi_size m - offset else mp_size part);
       cur_offset \<leftarrow> Some (offset + sz);
       (offset, sz) \<leftarrow> Some (if offset \<ge> mi_size m then (0, 0) else (offset, sz));
       sz \<leftarrow> Some (if offset + sz > mi_size m then mi_size m - offset else sz);
       Some (offset, sz, cur_offset)
     })"

text \<open>The largest erase size of the regions the partition touches.\<close>

definition slave_erasesize :: "mtd_info \<Rightarrow> u32 \<Rightarrow> u32 \<Rightarrow> u32 option" where
  "slave_erasesize m offset sz = (
     if length (mi_regions m) > 1 then
       (let i = length (takeWhile (\<lambda>r. offset \<ge> fst r) (mi_regions m))
        in if i = 0 then None
           else Some (fold (\<lambda>r e. if e < snd r then snd r else e)
                  (takeWhile (\<lambda>r. offset + sz > fst r) (drop (i - 1) (mi_regions m))) 0))
     else Some (mi_erasesize m))"

definition slave_flags :: "u32 \<Rightarrow> u32 \<Rightarrow> u32 \<Rightarrow> u32 \<Rightarrow> u32 option" where
  "slave_flags flags offset sz es = (
     if flags AND MTD_WRITEABLE \<noteq> 0 \<and> es = 0 then None
     else let flags = (if flags AND MTD_WRITEABLE \<noteq> 0 \<and> offset mod es \<noteq> 0
                       then flags AND NOT MTD_WRITEABLE else flags)
     in Some (if flags AND MTD_WRITEABLE \<noteq> 0 \<and> sz mod es \<noteq> 0
              then flags AND NOT MTD_WRITEABLE else flags))"

text \<open>The scan for bad blocks: the loop runs for ever when the erase size is zero or the
  offset wraps before it passes the size.\<close>

partial_function (option) scan_bad ::
  "(u32 \<Rightarrow> bool) \<Rightarrow> u32 \<Rightarrow> u32 \<Rightarrow> u32 \<Rightarrow> u32 \<Rightarrow> u32 \<Rightarrow> u32 option" where
  "scan_bad bad offset sz es offs n = (
     if offs < sz then scan_bad bad offset sz es (offs + es) (if bad (offs + offset) then n + 1 else n)
     else Some n)"

definition fresh_part :: "mtd_part" where
  "fresh_part = \<lparr>pt_mtd = \<lparr>mi_type = 0, mi_flags = 0, mi_size = 0, mi_erasesize = 0, mi_writesize = 0,
     mi_oobsize = 0, mi_oobavail = 0, mi_subpage_sft = 0, mi_name = [], mi_index = 0, mi_usecount = 0,
     mi_regions = [], mi_has = (\<lambda>_. False), ecc_corrected = 0, ecc_failed = 0, ecc_badblocks = 0\<rparr>,
     pt_master = 0, pt_offset = 0, pt_index = 0, pt_registered = False\<rparr>"

text \<open>One round of the loop of \<^verbatim>\<open>add_mtd_partitions\<close> for the object allocated at \<open>a\<close>.\<close>

definition make_slave ::
  "(u32 \<Rightarrow> bool) \<Rightarrow> nat \<Rightarrow> mtd_info \<Rightarrow> nat \<Rightarrow> mtd_partition \<Rightarrow> u32 \<Rightarrow> (mtd_part \<times> u32) option" where
  "make_slave bad master m i part cur_offset = do {
     flags \<leftarrow> Some (mi_flags m AND NOT (mp_mask_flags part));
     (offset, sz, cur_offset) \<leftarrow> place_slave m part cur_offset;
     es \<leftarrow> slave_erasesize m offset sz;
     flags \<leftarrow> slave_flags flags offset sz es;
     n \<leftarrow> (if mi_has m Op_block_isbad then scan_bad bad offset sz es 0 0 else Some 0);
     Some (\<lparr>pt_mtd = (pt_mtd fresh_part)\<lparr>mi_type := mi_type m, mi_flags := flags, mi_size := sz,
              mi_writesize := mi_writesize m, mi_oobsize := mi_oobsize m, mi_oobavail := mi_oobavail m,
              mi_subpage_sft := mi_subpage_sft m, mi_name := mp_name part,
              mi_has := slave_ops (i = 0) (mi_has m), mi_erasesize := es, ecc_badblocks := n\<rparr>,
            pt_master = master, pt_offset = offset, pt_index = i, pt_registered = False\<rparr>, cur_offset)
   }"

text \<open>The object is linked into the list and, unless its address was asked for, registered.\<close>

definition link_slave ::
  "'h master_ops \<Rightarrow> mtd_partition \<Rightarrow> nat \<Rightarrow> mtd_part \<Rightarrow> 'h mtd_sys \<Rightarrow> 'h mtd_sys option" where
  "link_slave ops part a slave s = (
     let s = s\<lparr>mtd_partitions := a # mtd_partitions s, part_at := (part_at s)(a := slave)\<rparr>
     in if mp_mtdp part then Some s
     else do {
       (_, s) \<leftarrow> add_mtd_device ops a s;
       Some (part_upd a (pt_registered_update (\<lambda>_. True)) s)
     })"

text \<open>\<open>alloc i\<close> is the address of the \<open>i\<close>-th allocation, \<open>None\<close> when it fails.\<close>

fun add_loop ::
  "'h master_ops \<Rightarrow> (nat \<Rightarrow> nat option) \<Rightarrow> nat \<Rightarrow> mtd_info \<Rightarrow> nat \<Rightarrow> mtd_partition list \<Rightarrow> u32 \<Rightarrow>
     'h mtd_sys \<Rightarrow> ((errno + unit) \<times> 'h mtd_sys) option" where
  "add_loop ops alloc master m i [] cur_offset s = Some (Inr (), s)"
| "add_loop ops alloc master m i (part # parts) cur_offset s = (
     case alloc i of
       None \<Rightarrow> do { s \<leftarrow> del_mtd_partitions master s; Some (Inl ENOMEM, s) }
     | Some a \<Rightarrow> do {
         (slave, cur_offset) \<leftarrow>
           make_slave (\<lambda>ofs. mo_isbad ops (uint ofs) (flash s)) master m i part cur_offset;
         s \<leftarrow> link_slave ops part a slave s;
         add_loop ops alloc master m (Suc i) parts cur_offset s
       })"

definition add_mtd_partitions ::
  "'h master_ops \<Rightarrow> (nat \<Rightarrow> nat option) \<Rightarrow> nat \<Rightarrow> mtd_info \<Rightarrow> mtd_partition list \<Rightarrow>
     'h mtd_sys \<Rightarrow> ((errno + unit) \<times> 'h mtd_sys) option" where
  "add_mtd_partitions ops alloc master m parts s = add_loop ops alloc master m 0 parts 0 s"

section \<open>The scan for bad blocks\<close>

definition blocks :: "u32 \<Rightarrow> u32 \<Rightarrow> nat" where
  "blocks sz es = (unat sz + unat es - 1) div unat es"

lemma block_less:
  assumes "es \<noteq> 0"
  shows "k < blocks sz es \<longleftrightarrow> k * unat es < unat sz"
proof -
  have "0 < unat es" using assms by (simp add: unat_gt_0)
  then have "k < blocks sz es \<longleftrightarrow> Suc k * unat es \<le> unat sz + unat es - 1"
    unfolding blocks_def by (metis Suc_le_eq div_le_mono less_eq_div_iff_mult_less_eq)
  also have "\<dots> \<longleftrightarrow> k * unat es < unat sz" using \<open>0 < unat es\<close> by auto
  finally show ?thesis .
qed

lemma scan_bad_blocks:
  assumes "es \<noteq> 0" "unat sz + unat es \<le> 2 ^ 32" "k \<le> blocks sz es"
  shows "scan_bad bad offset sz es (of_nat (k * unat es)) n =
    Some (n + of_nat (length (filter (\<lambda>j. bad (of_nat (j * unat es) + offset)) [k..<blocks sz es])))"
  using assms(3)
proof (induction "blocks sz es - k" arbitrary: k n)
  case 0
  then have "\<not> k < blocks sz es" by simp
  then have "unat sz \<le> k * unat es" using block_less [OF assms(1)] by simp
  moreover have "k * unat es < 2 ^ 32"
  proof -
    have "k * unat es \<le> unat sz + unat es - 1"
      using 0 unfolding blocks_def by (metis diff_is_0_eq le_antisym div_times_less_eq_dividend)
    also have "\<dots> < 2 ^ 32" using assms(1,2) unat_gt_0 [of es] by linarith
    finally show ?thesis .
  qed
  ultimately have "\<not> of_nat (k * unat es) < sz"
    by (simp add: word_less_nat_alt unat_of_nat_lt del: of_nat_mult)
  then show ?case using \<open>\<not> k < blocks sz es\<close> by (simp add: scan_bad.simps del: of_nat_mult)
next
  case (Suc d)
  then have k: "k < blocks sz es" by simp
  then have lt: "k * unat es < unat sz" using block_less [OF assms(1)] by simp
  then have "of_nat (k * unat es) < sz"
    using assms(2) unat_lt2p [of sz] by (simp add: word_less_nat_alt unat_of_nat_lt del: of_nat_mult)
  moreover have "of_nat (k * unat es) + es = of_nat (Suc k * unat es)" by (simp add: algebra_simps)
  ultimately show ?case
    using Suc(1) [of "Suc k"] Suc(2,3) k
    by (simp add: scan_bad.simps [of bad offset sz es "of_nat (k * unat es)"] upt_conv_Cons
        del: of_nat_mult mult_Suc)
qed

lemma scan_bad_stuck: "scan_bad bad offset sz 0 offs n = Some m \<Longrightarrow> \<not> offs < sz"
proof -
  have "es = 0 \<longrightarrow> \<not> offs < sz" if "scan_bad bad offset sz es offs n = Some m" for es
    by (rule scan_bad.raw_induct [OF _ that]) (auto split: if_splits)
  then show "scan_bad bad offset sz 0 offs n = Some m \<Longrightarrow> \<not> offs < sz" by blast
qed



section \<open>What the partitions of a master keep\<close>

text \<open>A slave lies within its master, and is writeable only if the master is and both its ends are
  on a boundary of its erase size.\<close>

definition slave_ok :: "mtd_info \<Rightarrow> mtd_part \<Rightarrow> bool" where
  "slave_ok m p \<longleftrightarrow>
     unat (pt_offset p) + unat (mi_size (pt_mtd p)) \<le> unat (mi_size m) \<and>
     (writeable (pt_mtd p) \<longrightarrow> writeable m \<and> mi_erasesize (pt_mtd p) \<noteq> 0 \<and>
        pt_offset p mod mi_erasesize (pt_mtd p) = 0 \<and> mi_size (pt_mtd p) mod mi_erasesize (pt_mtd p) = 0)"

definition slaves_ok :: "nat \<Rightarrow> mtd_info \<Rightarrow> 'h mtd_sys \<Rightarrow> bool" where
  "slaves_ok master m s \<longleftrightarrow>
     (\<forall>a \<in> set (mtd_partitions s). pt_master (part_at s a) = master \<longrightarrow> slave_ok m (part_at s a))"

lemma place_slave_bounds:
  assumes "place_slave m part cur = Some (offset, sz, cur')" "unat (mp_size part) + unat (mi_size m) \<le> 2 ^ 32"
  shows "unat offset + unat sz \<le> unat (mi_size m)"
proof -
  have clip: "unat o' + unat (if o' + z > mi_size m then mi_size m - o' else z) \<le> unat (mi_size m)"
    if "o' < mi_size m" "z = mi_size m - o' \<or> z = mp_size part" for o' z :: u32
  proof (cases "o' + z > mi_size m")
    case True
    then show ?thesis using that(1) by (simp add: unat_sub_nowrap word_less_nat_alt)
  next
    case False
    have o: "unat o' < unat (mi_size m)" using that(1) by (simp only: word_less_nat_alt)
    from that(2) have "unat o' + unat z < 2 ^ LENGTH(32)"
    proof
      assume "z = mi_size m - o'"
      then have "unat z = unat (mi_size m) - unat o'" by (simp only: unat_sub_nowrap [OF less_imp_le [OF o]])
      then show ?thesis using o unat_lt2p [of "mi_size m", unfolded len_bit0 len_num1] by simp
    next
      assume "z = mp_size part"
      then have "unat z = unat (mp_size part)" by (rule arg_cong)
      then show ?thesis using o assms(2) by simp
    qed
    then have "unat (o' + z) = unat o' + unat z" by (rule unat_add_nowrap)
    moreover have "unat (o' + z) \<le> unat (mi_size m)" using False by (simp only: word_le_nat_alt not_less)
    ultimately show ?thesis using False by (simp only: if_False)
  qed
  have "(offset, sz) = (0, 0) \<or> (\<exists>o' z. o' < mi_size m \<and> (z = mi_size m - o' \<or> z = mp_size part) \<and>
      offset = o' \<and> sz = (if o' + z > mi_size m then mi_size m - o' else z))"
    using assms(1) unfolding place_slave_def Let_def
    by (auto split: if_splits simp: not_le)
  then show ?thesis using clip by auto
qed

lemma slave_flags_writeable:
  "slave_flags flags offset sz es = Some f \<Longrightarrow> f AND MTD_WRITEABLE \<noteq> 0 \<Longrightarrow>
     flags AND MTD_WRITEABLE \<noteq> 0 \<and> es \<noteq> 0 \<and> offset mod es = 0 \<and> sz mod es = 0"
  unfolding slave_flags_def Let_def by (auto split: if_splits simp: and.assoc)

lemma make_slave_ok:
  assumes "make_slave bad master m i part cur = Some (p, cur')"
    "unat (mp_size part) + unat (mi_size m) \<le> 2 ^ 32"
  shows "slave_ok m p" "pt_master p = master"
proof -
  obtain offset sz es flags n where p: "place_slave m part cur = Some (offset, sz, cur')"
    "slave_flags (mi_flags m AND NOT (mp_mask_flags part)) offset sz es = Some flags"
    "pt_offset p = offset" "mi_size (pt_mtd p) = sz" "mi_erasesize (pt_mtd p) = es"
    "mi_flags (pt_mtd p) = flags" "pt_master p = master"
    using assms(1) unfolding make_slave_def by (auto split: bind_splits if_splits)
  have "writeable m" if "(mi_flags m AND NOT (mp_mask_flags part)) AND MTD_WRITEABLE \<noteq> 0"
  proof -
    have "(mi_flags m AND NOT (mp_mask_flags part)) AND MTD_WRITEABLE =
        (mi_flags m AND MTD_WRITEABLE) AND NOT (mp_mask_flags part)" by (simp only: ac_simps)
    with that show ?thesis by (auto simp: writeable_def)
  qed
  then show "slave_ok m p"
    using place_slave_bounds [OF p(1) assms(2)] slave_flags_writeable [OF p(2)] p
    unfolding slave_ok_def by (auto simp: writeable_def)
  show "pt_master p = master" by (fact p(7))
qed

lemma slave_ok_numbers [simp]:
  "slave_ok m (pt_mtd_update (\<lambda>d. d\<lparr>mi_index := i, mi_usecount := u\<rparr>) p) \<longleftrightarrow> slave_ok m p"
  "slave_ok m (pt_registered_update f p) \<longleftrightarrow> slave_ok m p"
  by (simp_all add: slave_ok_def writeable_def)

lemma part_unlock_frame [simp]:
  "part_at (snd (part_unlock ops a ofs len s)) = part_at s"
  "mtd_partitions (snd (part_unlock ops a ofs len s)) = mtd_partitions s"
  "mtd_table (snd (part_unlock ops a ofs len s)) = mtd_table s"
  by (simp_all add: part_unlock_def split: prod.split)

lemma add_mtd_device_frame:
  assumes "add_mtd_device ops a s = Some (r, s')"
  shows "mtd_partitions s' = mtd_partitions s \<and>
    (part_at s' = part_at s \<and> mtd_table s' = mtd_table s \<or>
     (\<exists>i. first_free (mtd_table s) = Some i \<and> mtd_table s' = (mtd_table s)[i := Some a] \<and>
       part_at s' = (part_at s)(a := pt_mtd_update (\<lambda>d. d\<lparr>mi_index := i, mi_usecount := 0\<rparr>) (part_at s a))))"
  using assms unfolding add_mtd_device_def
  by (auto split: if_splits option.splits simp: Let_def part_upd_def)

lemma del_mtd_device_frame:
  assumes "del_mtd_device a s = Some (r, s')"
  shows "part_at s' = part_at s" "mtd_partitions s' = mtd_partitions s" "length (mtd_table s') = length (mtd_table s)"
  using assms unfolding del_mtd_device_def Let_def by (auto split: if_splits)

lemma del_loop_keeps:
  assumes "del_loop master kept xs s = Some s'"
  shows "part_at s' = part_at s \<and>
    mtd_partitions s' = kept @ filter (\<lambda>a. pt_master (part_at s a) \<noteq> master) xs"
  using assms
proof (induction xs arbitrary: kept s)
  case (Cons a xs)
  show ?case
  proof (cases "pt_master (part_at s a) = master")
    case True
    then obtain t where t: "(if pt_registered (part_at s a) then map_option snd (del_mtd_device a s)
        else Some s) = Some t" "del_loop master kept xs t = Some s'"
      using Cons.prems by (auto split: bind_splits)
    then have "part_at t = part_at s" by (auto split: if_splits dest: del_mtd_device_frame)
    with Cons.IH [OF t(2)] True show ?thesis by simp
  next
    case False
    with Cons.prems Cons.IH [of "kept @ [a]" s] show ?thesis by simp
  qed
qed auto

lemma del_mtd_partitions_ok:
  "del_mtd_partitions master s = Some s' \<Longrightarrow> slaves_ok master m s'"
  unfolding del_mtd_partitions_def slaves_ok_def by (drule del_loop_keeps) auto

lemma slave_added_ok:
  assumes "slaves_ok master m s" "slave_ok m slave" "mtd_partitions s' = a # mtd_partitions s"
    "part_at s' = (part_at s)(a := slave)"
  shows "slaves_ok master m s'"
  using assms by (auto simp: slaves_ok_def)

lemma add_loop_ok:
  assumes "add_loop ops alloc master m i parts cur s = Some (r, s')" "slaves_ok master m s"
    "\<forall>part \<in> set parts. unat (mp_size part) + unat (mi_size m) \<le> 2 ^ 32"
  shows "slaves_ok master m s'"
  using assms
proof (induction parts arbitrary: i cur s)
  case (Cons part parts)
  show ?case
  proof (cases "alloc i")
    case None
    with Cons.prems(1) show ?thesis by (auto split: bind_splits dest: del_mtd_partitions_ok)
  next
    case (Some a)
    obtain slave cur' t where t:
      "make_slave (\<lambda>ofs. mo_isbad ops (uint ofs) (flash s)) master m i part cur = Some (slave, cur')"
      "link_slave ops part a slave s = Some t"
      "add_loop ops alloc master m (Suc i) parts cur' t = Some (r, s')"
      using Cons.prems(1) Some by (auto split: bind_splits)
    have ok: "slave_ok m slave" using make_slave_ok(1) [OF t(1)] Cons.prems(3) by simp
    have "slave_ok m (part_at t a) \<and> mtd_partitions t = a # mtd_partitions s \<and>
        part_at t = (part_at s)(a := part_at t a)"
      using t(2) ok unfolding link_slave_def Let_def
      by (auto split: if_splits bind_splits dest!: add_mtd_device_frame simp: part_upd_def)
    then have "slaves_ok master m t" using slave_added_ok [OF Cons.prems(2)] by blast
    then show ?thesis using Cons.IH [OF t(3)] Cons.prems(3) by simp
  qed
qed simp

text \<open>
  C5. Whatever table of partitions is given, every partition of the device lies within it,
  and is writeable only if the device is and the partition starts and ends on an erase
  boundary; also when memory runs out half-way. The sizes of the table must not be so large
  that their sum with the device size exceeds 4 GiB: beyond that the 32-bit sum in the check
  wraps and the check passes.
\<close>

theorem partitions_within:
  assumes "add_mtd_partitions ops alloc master m parts s = Some (r, s')" "slaves_ok master m s"
    "list_all (\<lambda>part. unat (mp_size part) + unat (mi_size m) \<le> 2 ^ 32) parts"
  shows "slaves_ok master m s'"
  using assms add_loop_ok unfolding add_mtd_partitions_def list_all_iff by blast

section \<open>Partitions do not reach into each other\<close>

text \<open>What the flash driver is relied on for: a write changes the bytes of its range only, and
  what a read returns depends on the bytes of its range only.\<close>

definition write_local :: "'h master_ops \<Rightarrow> ('h \<Rightarrow> int \<Rightarrow> u8) \<Rightarrow> bool" where
  "write_local ops cell \<longleftrightarrow> (\<forall>to len buf h x. x \<notin> {to..<to + uint len} \<longrightarrow>
     cell (snd (mo_write ops to len buf h)) x = cell h x)"

definition read_local :: "'h master_ops \<Rightarrow> ('h \<Rightarrow> int \<Rightarrow> u8) \<Rightarrow> bool" where
  "read_local ops cell \<longleftrightarrow> (\<forall>from len h h'. (\<forall>x \<in> {from..<from + uint len}. cell h x = cell h' x) \<longrightarrow>
     fst (snd (mo_read ops from len h)) = fst (snd (mo_read ops from len h')))"

lemma part_clip_range: "0 \<le> from \<Longrightarrow> part_clip mtd from len = 0 \<or>
    from + uint (part_clip mtd from len) \<le> uint (mi_size mtd)"
proof -
  assume "0 \<le> from"
  moreover have "uint (mi_size mtd) < 2 ^ 32" using uint_lt2p [of "mi_size mtd"] by simp
  ultimately have "uint (of_int (uint (mi_size mtd) - from) :: u32) = uint (mi_size mtd) - from"
    if "from < uint (mi_size mtd)" using that by (simp only: uint_word_of_int) simp
  then show ?thesis by (auto simp: part_clip_def)
qed

lemma part_read_data: "fst (snd (part_read ops b from len s)) =
    fst (snd (mo_read ops (from + uint (pt_offset (part_at s b))) (part_clip (mtd_of b s) from len) (flash s)))"
  by (simp add: part_read_def Let_def split: prod.splits)


definition ram_ops :: "(int \<Rightarrow> u8) master_ops" where
  "ram_ops = \<lparr>mo_read = (\<lambda>from len h. (None, map h [from..from + uint len - 1], h)),
     mo_write = (\<lambda>to len buf h. (None, \<lambda>x. if to \<le> x \<and> x < to + uint len then buf ! nat (x - to) else h x)),
     mo_erase = (\<lambda>addr len h. (None, 0, \<lambda>x. if uint addr \<le> x \<and> x < uint addr + uint len then 0xff else h x)),
     mo_lock = (\<lambda>_ _ h. (None, h)), mo_unlock = (\<lambda>_ _ h. (None, h)), mo_isbad = (\<lambda>_ _. False),
     mo_markbad = (\<lambda>_ h. (None, h))\<rparr>"

definition two_parts :: "(int \<Rightarrow> u8) mtd_sys" where
  "two_parts = \<lparr>flash = (\<lambda>_. 0xff),
     part_at = (\<lambda>a. fresh_part\<lparr>pt_mtd := (pt_mtd fresh_part)\<lparr>mi_flags := MTD_WRITEABLE, mi_size := 4\<rparr>,
       pt_offset := of_nat (4 * a)\<rparr>), mtd_partitions = [1, 0], mtd_table = []\<rparr>"

lemma ram_local: "write_local ram_ops (\<lambda>h. h)" "read_local ram_ops (\<lambda>h. h)"
  by (auto simp: write_local_def read_local_def ram_ops_def)


section \<open>Removing what was added\<close>

text \<open>A slot of the table holds what it held at the start, or was free and holds one of the
  new objects, which knows its slot.\<close>

definition slot_ok :: "nat option list \<Rightarrow> nat list \<Rightarrow> 'h mtd_sys \<Rightarrow> nat \<Rightarrow> bool" where
  "slot_ok t0 N s i \<longleftrightarrow> mtd_table s ! i = t0 ! i \<or>
     (t0 ! i = None \<and> (\<exists>a \<in> set N. mtd_table s ! i = Some a \<and> mi_index (mtd_of a s) = i \<and>
        pt_registered (part_at s a)))"

definition table_ok :: "nat \<Rightarrow> nat option list \<Rightarrow> nat list \<Rightarrow> 'h mtd_sys \<Rightarrow> bool" where
  "table_ok master t0 N s \<longleftrightarrow> t0 \<noteq> [] \<and> length (mtd_table s) = length t0 \<and>
     (\<forall>i < length t0. slot_ok t0 N s i) \<and>
     (\<forall>a \<in> set N. pt_master (part_at s a) = master \<and> mi_usecount (mtd_of a s) = 0 \<and>
        mi_index (mtd_of a s) < length t0 \<and> Some a \<notin> set t0)"

lemma table_ok_del:
  assumes "table_ok master t0 (a # N) s"
  shows "\<exists>s'. (if pt_registered (part_at s a) then map_option snd (del_mtd_device a s) else Some s) = Some s' \<and>
    table_ok master t0 N s' \<and> part_at s' = part_at s \<and> mtd_partitions s' = mtd_partitions s"
proof -
  let ?i = "mi_index (mtd_of a s)"
  have a: "?i < length t0" "mi_usecount (mtd_of a s) = 0" "Some a \<notin> set t0" "t0 \<noteq> []"
      "length (mtd_table s) = length t0" and slots: "\<And>i. i < length t0 \<Longrightarrow> slot_ok t0 (a # N) s i"
    using assms by (auto simp: table_ok_def)
  have t0: "t0 ! i \<noteq> Some a" if "i < length t0" for i using a(3) that by (metis nth_mem)
  show ?thesis
  proof (cases "pt_registered (part_at s a) \<and> mtd_table s ! ?i = Some a")
    case True
    let ?s = "s\<lparr>mtd_table := (mtd_table s)[?i := None]\<rparr>"
    have d: "del_mtd_device a s = Some (Inr (), ?s)" using True a by (simp add: del_mtd_device_def Let_def)
    have "slot_ok t0 N ?s i" if "i < length t0" for i
      using slots [OF that] t0 [OF that] True a that
      by (cases "i = ?i") (auto simp: slot_ok_def mtd_of_def)
    then have "table_ok master t0 N ?s" using assms by (auto simp: table_ok_def mtd_of_def)
    then show ?thesis using True d by auto
  next
    case False
    have "slot_ok t0 N s i" if "i < length t0" for i
      using slots [OF that] False by (auto simp: slot_ok_def)
    then have ok: "table_ok master t0 N s" using assms by (auto simp: table_ok_def)
    have "pt_registered (part_at s a) \<Longrightarrow> del_mtd_device a s = Some (Inl ENODEV, s)"
      using False a by (auto simp: del_mtd_device_def Let_def)
    then show ?thesis using ok by (cases "pt_registered (part_at s a)") auto
  qed
qed

lemma table_ok_Nil: "table_ok master t0 [] s \<Longrightarrow> mtd_table s = t0"
  by (auto simp: table_ok_def slot_ok_def intro: nth_equalityI)

lemma del_loop_none:
  "\<forall>a \<in> set P. pt_master (part_at s a) \<noteq> master \<Longrightarrow>
     del_loop master kept P s = Some (s\<lparr>mtd_partitions := kept @ P\<rparr>)"
  by (induction P arbitrary: kept) simp_all

lemma del_loop_added:
  assumes "table_ok master t0 N s" "\<forall>a \<in> set P. pt_master (part_at s a) \<noteq> master"
  shows "\<exists>s'. del_loop master [] (N @ P) s = Some s' \<and> mtd_table s' = t0 \<and> mtd_partitions s' = P"
  using assms
proof (induction N arbitrary: s)
  case Nil
  then show ?case using del_loop_none [of P s master "[]"] table_ok_Nil by auto
next
  case (Cons a N)
  have m: "pt_master (part_at s a) = master" using Cons.prems(1) by (simp add: table_ok_def)
  obtain s' where "(if pt_registered (part_at s a) then map_option snd (del_mtd_device a s) else Some s) = Some s'"
      "table_ok master t0 N s'" "part_at s' = part_at s"
    using table_ok_del [OF Cons.prems(1)] by blast
  then show ?case using Cons.IH [of s'] Cons.prems(2) m by simp
qed

text \<open>What has been added so far, from the state \<open>s0\<close>.\<close>

definition added :: "nat \<Rightarrow> 'h mtd_sys \<Rightarrow> nat list \<Rightarrow> 'h mtd_sys \<Rightarrow> bool" where
  "added master s0 N s \<longleftrightarrow> table_ok master (mtd_table s0) N s \<and> mtd_partitions s = N @ mtd_partitions s0 \<and>
     (\<forall>a. a \<notin> set N \<longrightarrow> part_at s a = part_at s0 a)"

lemma added_del:
  assumes "added master s0 N s" "\<forall>a \<in> set (mtd_partitions s0). pt_master (part_at s0 a) \<noteq> master"
    "set N \<inter> set (mtd_partitions s0) = {}"
  shows "\<exists>s'. del_mtd_partitions master s = Some s' \<and> mtd_table s' = mtd_table s0 \<and>
    mtd_partitions s' = mtd_partitions s0"
proof -
  have "\<forall>a \<in> set (mtd_partitions s0). pt_master (part_at s a) \<noteq> master"
    using assms by (metis IntI added_def empty_iff)
  then show ?thesis
    using assms(1) del_loop_added unfolding del_mtd_partitions_def added_def by fastforce
qed

lemma first_free_slot: "first_free t = Some i \<Longrightarrow> i < length t \<and> t ! i = None"
  by (induction t arbitrary: i) (auto split: if_splits)

lemma make_slave_fresh:
  "make_slave bad master m i part cur = Some (p, cur') \<Longrightarrow> pt_master p = master \<and>
     \<not> pt_registered p \<and> mi_usecount (pt_mtd p) = 0 \<and> mi_index (pt_mtd p) = 0"
  unfolding make_slave_def by (auto split: bind_splits if_splits simp: fresh_part_def)

lemma table_ok_unregistered:
  assumes "table_ok master t0 N s" "Some a \<notin> set t0" "a \<notin> set N" "pt_master p = master"
    "mi_usecount (pt_mtd p) = 0" "mi_index (pt_mtd p) = 0"
    "part_at s' = (part_at s)(a := p)" "mtd_table s' = mtd_table s"
  shows "table_ok master t0 (a # N) s'"
proof -
  have "slot_ok t0 (a # N) s' i" if "slot_ok t0 N s i" for i
    using that assms(3,7,8) by (auto simp: slot_ok_def mtd_of_def)
  then show ?thesis using assms by (auto simp: table_ok_def mtd_of_def)
qed

lemma table_ok_registered:
  assumes "table_ok master t0 N s" "Some a \<notin> set t0" "a \<notin> set N" "pt_master p = master"
    "mi_usecount (pt_mtd p) = 0" "mi_index (pt_mtd p) = i" "pt_registered p"
    "part_at s' = (part_at s)(a := p)" "mtd_table s' = (mtd_table s)[i := Some a]"
    "i < length t0" "mtd_table s ! i = None"
  shows "table_ok master t0 (a # N) s'"
proof -
  have len: "length (mtd_table s) = length t0" using assms(1) by (simp add: table_ok_def)
  have "slot_ok t0 (a # N) s' j" if "slot_ok t0 N s j" "j < length t0" for j
    using that assms(3,6-11) len by (cases "j = i") (auto simp: slot_ok_def mtd_of_def)
  then show ?thesis using assms by (auto simp: table_ok_def mtd_of_def)
qed

lemma added_step:
  assumes "added master s0 N s" "Some a \<notin> set (mtd_table s0)" "a \<notin> set N"
    "make_slave bad master m i part cur = Some (slave, cur')"
    "link_slave ops part a slave s = Some t"
  shows "added master s0 (a # N) t"
proof -
  note fresh = make_slave_fresh [OF assms(4)]
  let ?s = "s\<lparr>mtd_partitions := a # mtd_partitions s, part_at := (part_at s)(a := slave)\<rparr>"
  have ok: "table_ok master (mtd_table s0) N s" using assms(1) by (simp add: added_def)
  have len: "length (mtd_table s) = length (mtd_table s0)" using ok by (simp add: table_ok_def)
  have "table_ok master (mtd_table s0) (a # N) t \<and> mtd_partitions t = a # mtd_partitions s \<and>
      (\<forall>b. b \<noteq> a \<longrightarrow> part_at t b = part_at s b)"
  proof (cases "mp_mtdp part")
    case True
    then have "t = ?s" using assms(5) by (simp add: link_slave_def)
    then show ?thesis using table_ok_unregistered [OF ok assms(2,3), of slave t] fresh by simp
  next
    case False
    then obtain r u where u: "add_mtd_device ops a ?s = Some (r, u)"
        "t = part_upd a (pt_registered_update (\<lambda>_. True)) u"
      using assms(5) by (auto simp: link_slave_def split: bind_splits)
    have p: "mtd_partitions u = a # mtd_partitions s" using add_mtd_device_frame [OF u(1)] by simp
    consider "part_at u = (part_at s)(a := slave)" "mtd_table u = mtd_table s"
      | j where "first_free (mtd_table s) = Some j" "mtd_table u = (mtd_table s)[j := Some a]"
          "part_at u = (part_at s)(a := pt_mtd_update (\<lambda>d. d\<lparr>mi_index := j, mi_usecount := 0\<rparr>) slave)"
      using add_mtd_device_frame [OF u(1)] by auto
    then show ?thesis
    proof cases
      case 1
      then show ?thesis
        using table_ok_unregistered [OF ok assms(2,3), of "slave\<lparr>pt_registered := True\<rparr>" t] fresh p u(2)
        by (simp add: part_upd_def)
    next
      case 2
      then show ?thesis
        using table_ok_registered [OF ok assms(2,3), of "(pt_mtd_update (\<lambda>d. d\<lparr>mi_index := j,
            mi_usecount := 0\<rparr>) slave)\<lparr>pt_registered := True\<rparr>" j t] fresh p u(2)
          first_free_slot [OF 2(1)] len by (simp add: part_upd_def)
    qed
  qed
  then show ?thesis using assms(1) by (auto simp: added_def)
qed

text \<open>The allocator returns objects that are in use nowhere and no object twice.\<close>

definition alloc_fresh :: "(nat \<Rightarrow> nat option) \<Rightarrow> 'h mtd_sys \<Rightarrow> bool" where
  "alloc_fresh alloc s \<longleftrightarrow> (\<forall>j a. alloc j = Some a \<longrightarrow>
     a \<notin> set (mtd_partitions s) \<and> Some a \<notin> set (mtd_table s) \<and> (\<forall>k. alloc k = Some a \<longrightarrow> k = j))"

lemma add_loop_added:
  assumes "add_loop ops alloc master m i parts cur s = Some (r, s')" "added master s0 N s"
    "alloc_fresh alloc s0" "\<forall>a \<in> set N. \<exists>j < i. alloc j = Some a"
    "\<forall>a \<in> set (mtd_partitions s0). pt_master (part_at s0 a) \<noteq> master"
  shows "(r = Inr () \<and> (\<exists>N'. added master s0 N' s' \<and> set N' \<inter> set (mtd_partitions s0) = {})) \<or>
    (r = Inl ENOMEM \<and> mtd_table s' = mtd_table s0 \<and> mtd_partitions s' = mtd_partitions s0)"
  using assms(1,2,4)
proof (induction parts arbitrary: i cur s N)
  have disj: "set N \<inter> set (mtd_partitions s0) = {}" if "\<forall>a \<in> set N. \<exists>j < i. alloc j = Some a" for N i
    using that assms(3) by (fastforce simp: alloc_fresh_def)
  {
    case Nil
    then show ?case using disj [of N i] by auto
  next
    case (Cons part parts)
    show ?case
    proof (cases "alloc i")
      case None
      then show ?thesis
        using Cons.prems added_del [OF Cons.prems(2) assms(5) disj [OF Cons.prems(3)]]
        by (auto split: bind_splits)
    next
      case (Some a)
      obtain slave cur' t where t:
        "make_slave (\<lambda>ofs. mo_isbad ops (uint ofs) (flash s)) master m i part cur = Some (slave, cur')"
        "link_slave ops part a slave s = Some t"
        "add_loop ops alloc master m (Suc i) parts cur' t = Some (r, s')"
        using Cons.prems(1) Some by (auto split: bind_splits)
      have a: "Some a \<notin> set (mtd_table s0)" "a \<notin> set N"
        using Some assms(3) Cons.prems(3) by (fastforce simp: alloc_fresh_def)+
      have "\<forall>b \<in> set (a # N). \<exists>j < Suc i. alloc j = Some b"
        using Some Cons.prems(3) less_Suc_eq by auto
      then show ?thesis using Cons.IH [OF t(3) added_step [OF Cons.prems(2) a t(1,2)]] by blast
    qed
  }
qed

text \<open>
  C31. Removing the partitions of a device undoes adding them: the list of partitions and the
  table of devices are as before, even if the table had no room for all of them. When memory
  runs out half-way, adding itself leaves both as they were.
\<close>

theorem add_del_partitions:
  assumes "add_mtd_partitions ops alloc master m parts s = Some (r, s1)" "alloc_fresh alloc s"
    "list_all (\<lambda>a. pt_master (part_at s a) \<noteq> master) (mtd_partitions s)" "mtd_table s \<noteq> []"
  shows "case r of
      Inr _ \<Rightarrow> \<exists>s2. del_mtd_partitions master s1 = Some s2 \<and> mtd_table s2 = mtd_table s \<and>
        mtd_partitions s2 = mtd_partitions s
    | Inl e \<Rightarrow> e = ENOMEM \<and> mtd_table s1 = mtd_table s \<and> mtd_partitions s1 = mtd_partitions s"
proof -
  have none: "\<forall>a \<in> set (mtd_partitions s). pt_master (part_at s a) \<noteq> master"
    using assms(3) by (simp add: list_all_iff)
  have "added master s [] s" using assms(4) by (simp add: added_def table_ok_def slot_ok_def)
  then consider "r = Inr ()" "\<exists>N. added master s N s1 \<and> set N \<inter> set (mtd_partitions s) = {}"
    | "r = Inl ENOMEM" "mtd_table s1 = mtd_table s" "mtd_partitions s1 = mtd_partitions s"
    using add_loop_added [OF assms(1) [unfolded add_mtd_partitions_def], of s "[]"] assms(2) none by auto
  then show ?thesis using added_del [OF _ none] by cases auto
qed

section \<open>A device with two partitions\<close>

definition demo_master :: mtd_info where
  "demo_master = (pt_mtd fresh_part)\<lparr>mi_flags := MTD_WRITEABLE, mi_size := 0x10000,
     mi_erasesize := 0x1000, mi_writesize := 512\<rparr>"

definition demo_parts :: "mtd_partition list" where
  "demo_parts =
     [\<lparr>mp_name = ''boot'', mp_size = 0x3000, mp_offset = 0, mp_mask_flags = MTD_WRITEABLE, mp_mtdp = False\<rparr>,
      \<lparr>mp_name = ''rest'', mp_size = MTDPART_SIZ_FULL, mp_offset = MTDPART_OFS_APPEND, mp_mask_flags = 0,
       mp_mtdp = False\<rparr>]"

definition demo_sys :: "(int \<Rightarrow> u8) mtd_sys" where
  "demo_sys = \<lparr>flash = (\<lambda>_. 0xff), part_at = (\<lambda>_. fresh_part), mtd_partitions = [], mtd_table = [Some 9, None]\<rparr>"

lemmas demo_defs = demo_master_def demo_parts_def demo_sys_def MTD_WRITEABLE_def MTDPART_SIZ_FULL_def
  MTDPART_OFS_APPEND_def MTDPART_OFS_NXTBLK_def fresh_part_def

lemma demo_run:
  "\<exists>s'. add_mtd_partitions ram_ops (\<lambda>i. Some (i + 20)) 9 demo_master demo_parts demo_sys = Some (Inr (), s') \<and>
     mtd_partitions s' = [21, 20] \<and> mtd_table s' = [Some 9, Some 20] \<and>
     pt_offset (part_at s' 21) = 0x3000 \<and> mi_size (mtd_of 21 s') = 0xd000 \<and> writeable (mtd_of 21 s') \<and>
     \<not> writeable (mtd_of 20 s')"
  by (simp add: add_mtd_partitions_def demo_defs make_slave_def place_slave_def slave_erasesize_def
      slave_flags_def link_slave_def add_mtd_device_def mtd_of_def part_upd_def writeable_def)

theorem partitions_within_witness:
  "\<exists>s'. add_mtd_partitions ram_ops (\<lambda>i. Some (i + 20)) 9 demo_master demo_parts demo_sys = Some (Inr (), s') \<and>
     mtd_partitions s' = [21, 20] \<and> slaves_ok 9 demo_master s'"
proof -
  obtain s' where s: "add_mtd_partitions ram_ops (\<lambda>i. Some (i + 20)) 9 demo_master demo_parts demo_sys =
      Some (Inr (), s')" "mtd_partitions s' = [21, 20]"
    using demo_run by blast
  have "slaves_ok 9 demo_master s'"
    by (rule partitions_within [OF s(1)]) (simp_all add: slaves_ok_def demo_defs)
  then show ?thesis using s by blast
qed

theorem add_del_partitions_witness:
  "\<exists>s1 s2. add_mtd_partitions ram_ops (\<lambda>i. Some (i + 20)) 9 demo_master demo_parts demo_sys = Some (Inr (), s1) \<and>
     mtd_table s1 = [Some 9, Some 20] \<and> del_mtd_partitions 9 s1 = Some s2 \<and> mtd_table s2 = [Some 9, None] \<and>
     mtd_partitions s2 = []"
proof -
  obtain s1 where s: "add_mtd_partitions ram_ops (\<lambda>i. Some (i + 20)) 9 demo_master demo_parts demo_sys =
      Some (Inr (), s1)" "mtd_table s1 = [Some 9, Some 20]"
    using demo_run by blast
  show ?thesis
    using add_del_partitions [OF s(1)] s by (simp add: alloc_fresh_def demo_sys_def)
qed

end
