(* ===== verification/Nand_Ecc.thy ===== *)
theory Nand_Ecc
  imports Prelude
begin

text \<open>
  The software error-correcting code of NAND flash (\<^verbatim>\<open>drivers/mtd/nand/nand_ecc.c\<close>), which the
  flash driver of the machine selects: three bytes of code for each block of 256 bytes. The
  option \<^verbatim>\<open>CONFIG_MTD_NAND_ECC_SMC\<close>, which swaps the first two bytes, is the argument \<open>smc\<close>. A read
  or a write outside the block is \<open>None\<close>.
\<close>

section \<open>Calculation and correction\<close>

definition nand_ecc_precalc_table :: "u8 list" where
  "nand_ecc_precalc_table =
    [0x00, 0x55, 0x56, 0x03, 0x59, 0x0c, 0x0f, 0x5a, 0x5a, 0x0f, 0x0c, 0x59, 0x03, 0x56, 0x55, 0x00,
     0x65, 0x30, 0x33, 0x66, 0x3c, 0x69, 0x6a, 0x3f, 0x3f, 0x6a, 0x69, 0x3c, 0x66, 0x33, 0x30, 0x65,
     0x66, 0x33, 0x30, 0x65, 0x3f, 0x6a, 0x69, 0x3c, 0x3c, 0x69, 0x6a, 0x3f, 0x65, 0x30, 0x33, 0x66,
     0x03, 0x56, 0x55, 0x00, 0x5a, 0x0f, 0x0c, 0x59, 0x59, 0x0c, 0x0f, 0x5a, 0x00, 0x55, 0x56, 0x03,
     0x69, 0x3c, 0x3f, 0x6a, 0x30, 0x65, 0x66, 0x33, 0x33, 0x66, 0x65, 0x30, 0x6a, 0x3f, 0x3c, 0x69,
     0x0c, 0x59, 0x5a, 0x0f, 0x55, 0x00, 0x03, 0x56, 0x56, 0x03, 0x00, 0x55, 0x0f, 0x5a, 0x59, 0x0c,
     0x0f, 0x5a, 0x59, 0x0c, 0x56, 0x03, 0x00, 0x55, 0x55, 0x00, 0x03, 0x56, 0x0c, 0x59, 0x5a, 0x0f,
     0x6a, 0x3f, 0x3c, 0x69, 0x33, 0x66, 0x65, 0x30, 0x30, 0x65, 0x66, 0x33, 0x69, 0x3c, 0x3f, 0x6a,
     0x6a, 0x3f, 0x3c, 0x69, 0x33, 0x66, 0x65, 0x30, 0x30, 0x65, 0x66, 0x33, 0x69, 0x3c, 0x3f, 0x6a,
     0x0f, 0x5a, 0x59, 0x0c, 0x56, 0x03, 0x00, 0x55, 0x55, 0x00, 0x03, 0x56, 0x0c, 0x59, 0x5a, 0x0f,
     0x0c, 0x59, 0x5a, 0x0f, 0x55, 0x00, 0x03, 0x56, 0x56, 0x03, 0x00, 0x55, 0x0f, 0x5a, 0x59, 0x0c,
     0x69, 0x3c, 0x3f, 0x6a, 0x30, 0x65, 0x66, 0x33, 0x33, 0x66, 0x65, 0x30, 0x6a, 0x3f, 0x3c, 0x69,
     0x03, 0x56, 0x55, 0x00, 0x5a, 0x0f, 0x0c, 0x59, 0x59, 0x0c, 0x0f, 0x5a, 0x00, 0x55, 0x56, 0x03,
     0x66, 0x33, 0x30, 0x65, 0x3f, 0x6a, 0x69, 0x3c, 0x3c, 0x69, 0x6a, 0x3f, 0x65, 0x30, 0x33, 0x66,
     0x65, 0x30, 0x33, 0x66, 0x3c, 0x69, 0x6a, 0x3f, 0x3f, 0x6a, 0x69, 0x3c, 0x66, 0x33, 0x30, 0x65,
     0x00, 0x55, 0x56, 0x03, 0x59, 0x0c, 0x0f, 0x5a, 0x5a, 0x0f, 0x0c, 0x59, 0x03, 0x56, 0x55, 0x00]"

text \<open>One round of the loop: the three parity registers after byte \<open>d\<close> at position \<open>i\<close>.\<close>

definition ecc_step :: "nat \<times> u8 \<Rightarrow> u8 \<times> u8 \<times> u8 \<Rightarrow> u8 \<times> u8 \<times> u8" where
  "ecc_step = (\<lambda>(i, d) (reg1, reg2, reg3).
     let idx = nand_ecc_precalc_table ! unat d;
         reg1 = reg1 XOR (idx AND 0x3f)
     in if idx AND 0x40 \<noteq> 0 then (reg1, reg2 XOR NOT (of_nat i), reg3 XOR of_nat i)
        else (reg1, reg2, reg3))"

definition ecc_tmp1 :: "u8 \<Rightarrow> u8 \<Rightarrow> u8" where
  "ecc_tmp1 reg2 reg3 =
     drop_bit 0 (reg3 AND 0x80) OR drop_bit 1 (reg2 AND 0x80) OR
     drop_bit 1 (reg3 AND 0x40) OR drop_bit 2 (reg2 AND 0x40) OR
     drop_bit 2 (reg3 AND 0x20) OR drop_bit 3 (reg2 AND 0x20) OR
     drop_bit 3 (reg3 AND 0x10) OR drop_bit 4 (reg2 AND 0x10)"

definition ecc_tmp2 :: "u8 \<Rightarrow> u8 \<Rightarrow> u8" where
  "ecc_tmp2 reg2 reg3 =
     push_bit 4 (reg3 AND 0x08) OR push_bit 3 (reg2 AND 0x08) OR
     push_bit 3 (reg3 AND 0x04) OR push_bit 2 (reg2 AND 0x04) OR
     push_bit 2 (reg3 AND 0x02) OR push_bit 1 (reg2 AND 0x02) OR
     push_bit 1 (reg3 AND 0x01) OR push_bit 0 (reg2 AND 0x01)"

type_synonym ecc_code = "u8 \<times> u8 \<times> u8"

definition nand_calculate_ecc :: "bool \<Rightarrow> u8 list \<Rightarrow> ecc_code option" where
  "nand_calculate_ecc smc dat = (
     if length dat < 256 then None
     else let (reg1, reg2, reg3) = fold ecc_step (zip [0..<256] dat) (0, 0, 0);
              tmp1 = ecc_tmp1 reg2 reg3;
              tmp2 = ecc_tmp2 reg2 reg3;
              c2 = push_bit 2 (NOT reg1) OR 0x03
          in if smc then Some (NOT tmp2, NOT tmp1, c2) else Some (NOT tmp1, NOT tmp2, c2))"

function countbits :: "u32 \<Rightarrow> nat" where
  "countbits byte = (if byte = 0 then 0 else unat (byte AND 1) + countbits (drop_bit 1 byte))"
  by pat_completeness auto

termination
  by (relation "measure unat") (auto simp: unat_drop_bit unat_gt_0)

declare countbits.simps [simp del]

definition ecc_byteoffs :: "u8 \<Rightarrow> u8 \<Rightarrow> u32" where
  "ecc_byteoffs s0 s1 =
     (ucast s1 AND 0x80) OR (push_bit 1 (ucast s1) AND 0x40) OR
     (push_bit 2 (ucast s1) AND 0x20) OR (push_bit 3 (ucast s1) AND 0x10) OR
     (drop_bit 4 (ucast s0) AND 0x08) OR (drop_bit 3 (ucast s0) AND 0x04) OR
     (drop_bit 2 (ucast s0) AND 0x02) OR (drop_bit 1 (ucast s0) AND 0x01)"

definition ecc_bitnum :: "u8 \<Rightarrow> u32" where
  "ecc_bitnum s2 =
     (drop_bit 5 (ucast s2) AND 0x04) OR (drop_bit 4 (ucast s2) AND 0x02) OR
     (drop_bit 3 (ucast s2) AND 0x01)"

text \<open>What is done with the difference of the codes. The result is \<open>Inr 0\<close> or \<open>Inr 1\<close>, or the
  error, with the block afterwards.\<close>

definition ecc_correct :: "u8 list \<Rightarrow> u8 \<times> u8 \<times> u8 \<Rightarrow> ((errno + nat) \<times> u8 list) option" where
  "ecc_correct dat = (\<lambda>(s0, s1, s2).
     if s0 OR s1 OR s2 = 0 then Some (Inr 0, dat)
     else if (s0 XOR drop_bit 1 s0) AND 0x55 = 0x55 \<and> (s1 XOR drop_bit 1 s1) AND 0x55 = 0x55 \<and>
             (s2 XOR drop_bit 1 s2) AND 0x54 = 0x54 then
       (let byteoffs = unat (ecc_byteoffs s0 s1); bitnum = unat (ecc_bitnum s2)
        in if byteoffs < length dat
           then Some (Inr 1, dat[byteoffs := dat ! byteoffs XOR ucast (push_bit bitnum (1 :: u32))])
           else None)
     else if countbits (ucast s0 OR push_bit 8 (ucast s1) OR push_bit 16 (ucast s2)) = 1
       then Some (Inr 1, dat)
     else Some (Inl EBADMSG, dat))"

definition nand_correct_data ::
  "bool \<Rightarrow> u8 list \<Rightarrow> ecc_code \<Rightarrow> ecc_code \<Rightarrow> ((errno + nat) \<times> u8 list) option" where
  "nand_correct_data smc dat = (\<lambda>(r0, r1, r2) (c0, c1, c2).
     ecc_correct dat (if smc then (c0 XOR r0, c1 XOR r1, c2 XOR r2)
                      else (c1 XOR r1, c0 XOR r0, c2 XOR r2)))"

section \<open>The table\<close>

text \<open>
  What one set bit contributes: which of its neighbourhoods of one, two and four columns it
  is in, and bit 6 for the parity of the byte.
\<close>

definition bit_parity :: "nat \<Rightarrow> u8" where
  "bit_parity b = 0x40 OR (if odd b then 0x02 else 0x01) OR
     (if odd (b div 2) then 0x08 else 0x04) OR (if odd (b div 4) then 0x20 else 0x10)"

definition xsum :: "u8 list \<Rightarrow> u8" where
  "xsum xs = foldr (XOR) xs 0"

definition byte_parity :: "u8 \<Rightarrow> u8" where
  "byte_parity d = xsum (map (\<lambda>b. if bit d b then bit_parity b else 0) [0..<8])"


lemma table_all: "nand_ecc_precalc_table = map (\<lambda>n. byte_parity (of_nat n)) [0..<256]"
  by code_simp

lemma table_nth: "nand_ecc_precalc_table ! unat d = byte_parity d"
  using unat_lt2p [of d] by (simp add: table_all del: upt.simps)

section \<open>Linearity\<close>

lemma xsum_Nil [simp]: "xsum [] = 0" by (simp add: xsum_def)
lemma xsum_Cons [simp]: "xsum (x # xs) = x XOR xsum xs" by (simp add: xsum_def)

lemma xsum_xor: "xsum (map (\<lambda>i. f i XOR g i) xs) = xsum (map f xs) XOR xsum (map g xs)"
  by (induction xs) (simp_all add: ac_simps)

lemma xsum_single:
  "distinct xs \<Longrightarrow> xsum (map (\<lambda>i. if i = p then v else 0) xs) = (if p \<in> set xs then v else 0)"
  by (induction xs) auto

lemma xsum_bits: "bit (xsum xs) i \<longleftrightarrow> odd (length (filter (\<lambda>x. bit x i) xs))"
  by (induction xs) (auto simp: bit_xor_iff)

lemma xsum_flip:
  assumes "p < n" "\<And>i. i < n \<Longrightarrow> f i = g i XOR (if i = p then v else 0)"
  shows "xsum (map f [0..<n]) = xsum (map g [0..<n]) XOR v"
proof -
  have "map f [0..<n] = map (\<lambda>i. g i XOR (if i = p then v else 0)) [0..<n]"
    using assms(2) by (intro map_cong) auto
  also have "xsum \<dots> = xsum (map g [0..<n]) XOR xsum (map (\<lambda>i. if i = p then v else 0) [0..<n])"
    by (rule xsum_xor)
  also have "xsum (map (\<lambda>i. if i = p then v else 0) [0..<n]) = v"
    using assms(1) by (simp add: xsum_single)
  finally show ?thesis .
qed

lemma byte_parity_xor: "byte_parity (d XOR e) = byte_parity d XOR byte_parity e"
proof -
  have "(\<lambda>b. if bit (d XOR e) b then bit_parity b else 0) =
      (\<lambda>b. (if bit d b then bit_parity b else 0) XOR (if bit e b then bit_parity b else 0))"
    by (auto simp: bit_xor_iff)
  then show ?thesis by (simp add: byte_parity_def xsum_xor)
qed

lemma byte_parity_0 [simp]: "byte_parity 0 = 0"
  using byte_parity_xor [of 0 0] by simp

lemma byte_parity_bit: "b < 8 \<Longrightarrow> byte_parity (push_bit b 1) = bit_parity b"
proof -
  assume b: "b < 8"
  have "map (\<lambda>c. if bit (push_bit b (1 :: u8)) c then bit_parity c else 0) [0..<8] =
      map (\<lambda>c. if c = b then bit_parity b else 0) [0..<8]"
    using b by (intro map_cong) (auto simp: bit_exp_iff)
  then have "byte_parity (push_bit b 1) = xsum (map (\<lambda>c. if c = b then bit_parity b else 0) [0..<8])"
    by (simp only: byte_parity_def)
  then show ?thesis using b by (simp add: xsum_single del: upt.simps upt_conv_Cons)
qed

lemma all_less_8:
  "(\<forall>i < 8. P i) \<longleftrightarrow> P 0 \<and> P 1 \<and> P 2 \<and> P 3 \<and> P 4 \<and> P 5 \<and> P 6 \<and> P (7 :: nat)"
  by (simp add: eval_nat_numeral All_less_Suc conj_ac)

lemma eq8: "(x :: u8) = y \<longleftrightarrow> bit x 0 = bit y 0 \<and> bit x 1 = bit y 1 \<and> bit x 2 = bit y 2 \<and>
    bit x 3 = bit y 3 \<and> bit x 4 = bit y 4 \<and> bit x 5 = bit y 5 \<and> bit x 6 = bit y 6 \<and> bit x 7 = bit y 7"
  unfolding word_eq_bits [of x y] len_bit0 len_num1 by (simp add: all_less_8)

text \<open>The three registers of a block, and the effect of one flipped bit on them.\<close>

definition ecc_regs :: "u8 list \<Rightarrow> u8 \<times> u8 \<times> u8" where
  "ecc_regs dat = fold ecc_step (zip [0..<256] dat) (0, 0, 0)"

definition xor3 :: "u8 \<times> u8 \<times> u8 \<Rightarrow> u8 \<times> u8 \<times> u8 \<Rightarrow> u8 \<times> u8 \<times> u8" where
  "xor3 = (\<lambda>(a, b, c) (x, y, z). (a XOR x, b XOR y, c XOR z))"

definition flip_bit :: "nat \<Rightarrow> nat \<Rightarrow> u8 list \<Rightarrow> u8 list" where
  "flip_bit p b dat = dat[p := dat ! p XOR push_bit b 1]"

abbreviation col :: "u8 \<Rightarrow> u8" where "col d \<equiv> byte_parity d AND 0x3f"
abbreviation par :: "u8 \<Rightarrow> bool" where "par d \<equiv> bit (byte_parity d) 6"

lemma and40: "(x :: u8) AND 0x40 \<noteq> 0 \<longleftrightarrow> bit x 6"
  by (simp add: eq8 bit_and_iff)

lemma ecc_step_fold:
  "fold ecc_step xs (a, b, c) =
     (a XOR xsum (map (\<lambda>(i, d). col d) xs),
      b XOR xsum (map (\<lambda>(i, d). if par d then NOT (of_nat i) else 0) xs),
      c XOR xsum (map (\<lambda>(i, d). if par d then of_nat i else 0) xs))"
  by (induction xs arbitrary: a b c)
     (auto simp: ecc_step_def table_nth Let_def and40 xor.assoc)

lemma ecc_regs_sum:
  assumes "256 \<le> length dat"
  shows "ecc_regs dat =
     (xsum (map (\<lambda>i. col (dat ! i)) [0..<256]),
      xsum (map (\<lambda>i. if par (dat ! i) then NOT (of_nat i) else 0) [0..<256]),
      xsum (map (\<lambda>i. if par (dat ! i) then of_nat i else 0) [0..<256]))"
proof -
  have "zip [0..<256] dat = map (\<lambda>i. (i, dat ! i)) [0..<256]"
    using assms by (auto intro!: nth_equalityI)
  then show ?thesis by (simp add: ecc_regs_def ecc_step_fold comp_def)
qed

lemma bit_parity_bits:
  "bit (bit_parity b) 6" "bit (bit_parity b) 0 \<longleftrightarrow> even b" "bit (bit_parity b) 1 \<longleftrightarrow> odd b"
  "bit (bit_parity b) 2 \<longleftrightarrow> even (b div 2)" "bit (bit_parity b) 3 \<longleftrightarrow> odd (b div 2)"
  "bit (bit_parity b) 4 \<longleftrightarrow> even (b div 4)" "bit (bit_parity b) 5 \<longleftrightarrow> odd (b div 4)"
  by (simp_all add: bit_parity_def bit_or_iff)

lemma ecc_regs_flip:
  assumes "length dat = 256" "p < 256" "b < 8"
  shows "ecc_regs (flip_bit p b dat) =
     xor3 (ecc_regs dat) (bit_parity b AND 0x3f, NOT (of_nat p), of_nat p)"
proof -
  let ?e = "flip_bit p b dat"
  have n: "?e ! i = dat ! i XOR (if i = p then push_bit b 1 else 0)" if "i < 256" for i
    using that assms by (simp add: flip_bit_def)
  have bp: "byte_parity (?e ! i) = byte_parity (dat ! i) XOR (if i = p then bit_parity b else 0)"
    if "i < 256" for i
    using byte_parity_bit [OF assms(3)] by (simp add: n [OF that] byte_parity_xor)
  have c: "col (?e ! i) = col (dat ! i) XOR (if i = p then bit_parity b AND 0x3f else 0)"
    if "i < 256" for i by (simp add: bp [OF that] bit.conj_xor_distrib2)
  have r: "(if par (?e ! i) then v else 0) = (if par (dat ! i) then v else 0) XOR (if i = p then v else 0)"
    if "i < 256" for i and v :: u8
    by (simp add: bp [OF that] bit_xor_iff bit_parity_bits)
  have len: "256 \<le> length ?e" "256 \<le> length dat" using assms(1) by (simp_all add: flip_bit_def)
  show ?thesis
    unfolding ecc_regs_sum [OF len(1)] ecc_regs_sum [OF len(2)] xor3_def prod.case
    by (intro arg_cong2 [where f = Pair] xsum_flip [OF assms(2)]) (simp_all only: c r, simp_all)
qed

lemma tmp_xor:
  "ecc_tmp1 (a XOR x) (b XOR y) = ecc_tmp1 a b XOR ecc_tmp1 x y"
  "ecc_tmp2 (a XOR x) (b XOR y) = ecc_tmp2 a b XOR ecc_tmp2 x y"
  by (simp_all add: eq8 ecc_tmp1_def ecc_tmp2_def bitwise)

definition ecc_syndrome :: "u8 \<times> u8 \<times> u8 \<Rightarrow> u8 \<times> u8 \<times> u8" where
  "ecc_syndrome = (\<lambda>(d1, d2, d3). (ecc_tmp2 d2 d3, ecc_tmp1 d2 d3, push_bit 2 d1))"

lemma correct_data_syndrome:
  assumes "length dat = 256" "length dat' = 256" "ecc_regs dat' = xor3 (ecc_regs dat) d"
    "nand_calculate_ecc smc dat = Some r" "nand_calculate_ecc smc dat' = Some c"
  shows "nand_correct_data smc x r c = ecc_correct x (ecc_syndrome d)"
proof -
  obtain a1 a2 a3 where a: "ecc_regs dat = (a1, a2, a3)" by (cases "ecc_regs dat")
  obtain d1 d2 d3 where d: "d = (d1, d2, d3)" by (cases d)
  have a': "ecc_regs dat' = (a1 XOR d1, a2 XOR d2, a3 XOR d3)" using assms(3) by (simp add: a d xor3_def)
  have n: "NOT u XOR NOT v = u XOR v" for u v :: u8 by (rule bit_word_eqI) (auto simp: bitwise)
  have l: "(u XOR v) XOR u = v" for u v :: u8 by (rule bit_word_eqI) (auto simp: bitwise)
  have p: "(push_bit 2 (NOT (u XOR v)) OR 3) XOR (push_bit 2 (NOT u) OR 3) = push_bit 2 v" for u v :: u8
    by (rule bit_word_eqI, simp only: bitwise) auto
  show ?thesis using assms(1,2,4,5)
    unfolding nand_calculate_ecc_def ecc_regs_def [symmetric] a a'
    by (cases smc) (auto simp: nand_correct_data_def ecc_syndrome_def d tmp_xor n l p)
qed

lemma xor3_assoc: "xor3 (xor3 a b) c = xor3 a (xor3 b c)"
  by (cases a; cases b; cases c) (simp add: xor3_def xor.assoc)

section \<open>Counting bits\<close>

lemma countbits_sum: "unat x < 2 ^ n \<Longrightarrow> countbits x = (\<Sum>i < n. if bit x i then 1 else 0)"
proof (induction n arbitrary: x)
  case 0
  then have "x = 0" by (simp add: unat_eq_zero)
  then show ?case by (simp add: countbits.simps)
next
  case (Suc n)
  have b: "bit x 0 \<longleftrightarrow> odd x" by (simp add: bit_0)
  have "unat (drop_bit 1 x) < 2 ^ n" using Suc.prems by (simp add: unat_drop_bit)
  then have "countbits (drop_bit 1 x) = (\<Sum>i < n. if bit x (Suc i) then 1 else 0)"
    using Suc.IH [of "drop_bit 1 x"] by (simp add: bit_drop_word)
  moreover have "unat (x AND 1) = (if bit x 0 then 1 else 0)" by (simp add: and_one_eq b odd_iff_mod_2_eq_one)
  ultimately have "x \<noteq> 0 \<Longrightarrow> countbits x = (\<Sum>i < Suc n. if bit x i then 1 else 0)"
    by (simp add: countbits.simps [of x] sum.lessThan_Suc_shift del: sum.lessThan_Suc)
  then show ?case by (cases "x = 0") (simp_all add: countbits.simps)
qed

lemma countbits_32: "countbits x = (\<Sum>i < 32. if bit x i then 1 else 0)"
  using unat_lt2p [of x] by (intro countbits_sum) simp

lemma sum_pairs: "(\<Sum>i < 2 * n. f i) = (\<Sum>j < n. f (2 * j) + f (2 * j + 1 :: nat) :: nat)"
  by (induction n) simp_all

lemma countbits_pairs: "(\<And>j. j < 16 \<Longrightarrow> bit x (2 * j) = bit x (2 * j + 1)) \<Longrightarrow> even (countbits x)"
  using sum_pairs [of "\<lambda>i. if bit x i then 1 else 0" 16] unfolding countbits_32 by (simp add: dvd_sum)

lemma countbits_exp: "k < 32 \<Longrightarrow> countbits (2 ^ k) = 1"
proof -
  assume "k < 32"
  then have "(\<Sum>i < 32. if bit (2 ^ k :: u32) i then 1 else 0 :: nat) = (\<Sum>i \<in> {..<32}. if i = k then 1 else 0 :: nat)"
    by (intro sum.cong) (auto simp: bit_exp_iff)
  then show ?thesis using \<open>k < 32\<close> by (simp add: countbits_32)
qed
section \<open>Detection and correction\<close>

lemma bit_high: "unat (m :: u32) < 2 ^ k \<Longrightarrow> k \<le> i \<Longrightarrow> \<not> bit m i"
proof -
  assume "unat m < 2 ^ k" "k \<le> i"
  then have "unat m < 2 ^ i" by (meson less_le_trans one_le_numeral power_increasing)
  then show "\<not> bit m i" by (metis bit_iff_odd_drop_bit bit_0_eq div_less drop_bit_eq_div even_zero
        unat_drop_bit unsigned_eq_0_iff bot_apply bit_0)
qed

lemma syndrome_bits:
  "(ecc_tmp2 (NOT x) x XOR drop_bit 1 (ecc_tmp2 (NOT x) x)) AND 0x55 = 0x55"
  "(ecc_tmp1 (NOT x) x XOR drop_bit 1 (ecc_tmp1 (NOT x) x)) AND 0x55 = 0x55"
  by (simp_all only: eq8 ecc_tmp1_def ecc_tmp2_def bitwise) (simp_all add: numeral_eq_Suc)

lemma byteoffs_single: "ecc_byteoffs (ecc_tmp2 (NOT x) x) (ecc_tmp1 (NOT x) x) = ucast x"
proof (rule bit_word_eqI)
  fix i :: nat
  let ?l = "ecc_byteoffs (ecc_tmp2 (NOT x) x) (ecc_tmp1 (NOT x) x)"
  have "\<forall>i < 8. bit ?l i = bit (ucast x :: u32) i"
    unfolding all_less_8
    by (simp only: ecc_byteoffs_def ecc_tmp1_def ecc_tmp2_def bitwise) (simp add: numeral_eq_Suc)
  moreover have "\<not> bit ?l i" if "8 \<le> i"
    using that bit_high [of "0x80" 8 i] bit_high [of "0x40" 8 i] bit_high [of "0x20" 8 i]
      bit_high [of "0x10" 8 i] bit_high [of "0x8" 8 i] bit_high [of "0x4" 8 i]
      bit_high [of "0x2" 8 i] bit_high [of "0x1" 8 i]
    unfolding ecc_byteoffs_def bit_or_iff bit_and_iff by simp
  ultimately show "bit ?l i = bit (ucast x :: u32) i" 
    by (cases "i < 8") (auto simp: bit_ucast_word dest: bit_imp_le_length)
qed

lemma syndrome_column:
  assumes "b < 8" "s = push_bit 2 (bit_parity b AND 0x3f)"
  shows "(s XOR drop_bit 1 s) AND 0x54 = 0x54" "unat (ecc_bitnum s) = b"
proof -
  have "\<forall>b < 8. let s = push_bit 2 (bit_parity b AND 0x3f) in
      (s XOR drop_bit 1 s) AND 0x54 = 0x54 \<and> unat (ecc_bitnum s) = b"
    unfolding all_less_8 Let_def by (simp add: bit_parity_def ecc_bitnum_def)
  then show "(s XOR drop_bit 1 s) AND 0x54 = 0x54" "unat (ecc_bitnum s) = b"
    using assms by (auto simp: Let_def)
qed
abbreviation flip_delta :: "nat \<Rightarrow> nat \<Rightarrow> u8 \<times> u8 \<times> u8" where
  "flip_delta p b \<equiv> (bit_parity b AND 0x3f, NOT (of_nat p), of_nat p)"

lemma flip_flip: "p < length dat \<Longrightarrow> flip_bit p b (flip_bit p b dat) = dat"
  by (simp add: flip_bit_def xor.assoc)

lemma length_flip [simp]: "length (flip_bit p b dat) = length dat"
  by (simp add: flip_bit_def)

lemma ucast_push: "b < 8 \<Longrightarrow> (ucast (push_bit b (1 :: u32)) :: u8) = push_bit b 1"
  by (rule bit_word_eqI, simp only: bitwise) auto

lemma correct_single:
  assumes "length dat = 256" "p < 256" "b < 8"
  shows "ecc_correct (flip_bit p b dat) (ecc_syndrome (flip_delta p b)) = Some (Inr 1, dat)"
proof -
  let ?x = "of_nat p :: u8"
  define s0 s1 s2 where "s0 = ecc_tmp2 (NOT ?x) ?x" "s1 = ecc_tmp1 (NOT ?x) ?x"
    "s2 = push_bit 2 (bit_parity b AND 0x3f)"
  note s = this
  have c: "(s0 XOR drop_bit 1 s0) AND 0x55 = 0x55" "(s1 XOR drop_bit 1 s1) AND 0x55 = 0x55"
    "(s2 XOR drop_bit 1 s2) AND 0x54 = 0x54" "unat (ecc_bitnum s2) = b"
    using syndrome_bits [of ?x] syndrome_column [OF assms(3) refl] by (simp_all add: s)
  have "unat (ucast ?x :: u32) = p"
    using assms(2) by (simp add: unat_ucast_up unat_of_nat_lt)
  then have o: "unat (ecc_byteoffs s0 s1) = p" by (simp add: s byteoffs_single)
  have "s0 \<noteq> 0" using c(1) by auto
  then have nz: "s0 OR s1 OR s2 \<noteq> 0" by (auto simp: or_eq_0_iff)
  have f: "(flip_bit p b dat)[p := flip_bit p b dat ! p XOR push_bit b 1] = dat"
    using flip_flip [of p dat b] assms by (simp add: flip_bit_def)
  have syn: "ecc_syndrome (flip_delta p b) = (s0, s1, s2)" by (simp add: ecc_syndrome_def s)
  show ?thesis
    unfolding syn ecc_correct_def prod.case o c(4) Let_def ucast_push [OF assms(3)] f
    using nz c(1-3) assms by simp
qed

lemma tmp_same:
  "bit (ecc_tmp1 x x) 0 = bit x 4" "bit (ecc_tmp1 x x) 1 = bit x 4"
  "bit (ecc_tmp1 x x) 2 = bit x 5" "bit (ecc_tmp1 x x) 3 = bit x 5"
  "bit (ecc_tmp1 x x) 4 = bit x 6" "bit (ecc_tmp1 x x) 5 = bit x 6"
  "bit (ecc_tmp1 x x) 6 = bit x 7" "bit (ecc_tmp1 x x) 7 = bit x 7"
  "bit (ecc_tmp2 x x) 0 = bit x 0" "bit (ecc_tmp2 x x) 1 = bit x 0"
  "bit (ecc_tmp2 x x) 2 = bit x 1" "bit (ecc_tmp2 x x) 3 = bit x 1"
  "bit (ecc_tmp2 x x) 4 = bit x 2" "bit (ecc_tmp2 x x) 5 = bit x 2"
  "bit (ecc_tmp2 x x) 6 = bit x 3" "bit (ecc_tmp2 x x) 7 = bit x 3"
  by (simp_all only: ecc_tmp1_def ecc_tmp2_def bitwise) (simp_all add: numeral_eq_Suc)

definition paired :: "u8 \<Rightarrow> bool" where
  "paired s \<longleftrightarrow> (\<forall>j < 4. bit s (2 * j) = bit s (2 * j + 1))"

lemma paired_iff: "paired s \<longleftrightarrow> bit s 0 = bit s 1 \<and> bit s 2 = bit s 3 \<and> bit s 4 = bit s 5 \<and> bit s 6 = bit s 7"
  by (simp add: paired_def eval_nat_numeral All_less_Suc conj_ac)

lemma paired_even:
  assumes "paired s0" "paired s1" "paired s2"
  shows "even (countbits (ucast s0 OR push_bit 8 (ucast s1) OR push_bit 16 (ucast s2)))"
proof (rule countbits_pairs)
  fix j :: nat
  assume "j < 16"
  have p: "bit s (2 * j) = bit s (2 * j + 1)" if "paired s" for s :: u8 and j
    using that unfolding paired_def
    by (cases "j < 4") (auto dest: bit_imp_le_length)
  have e: "n \<le> 2 * j \<Longrightarrow> even n \<Longrightarrow> 2 * j - n = 2 * (j - n div 2) \<and> 2 * j + 1 - n = 2 * (j - n div 2) + 1" for n
    by auto
  have q: "bit (push_bit n (ucast s) :: u32) (2 * j) = bit (push_bit n (ucast s) :: u32) (2 * j + 1)"
    if "paired s" "even n" for s :: u8 and n
  proof (cases "n \<le> 2 * j")
    case True
    have "j - n div 2 < 16" "2 * (j - n div 2) < 31" using \<open>j < 16\<close> by auto
    then show ?thesis using True \<open>j < 16\<close> e [OF True that(2)] p [OF that(1), of "j - n div 2"]
      by (simp add: bitwise)
  next
    case False
    then have "\<not> n \<le> 2 * j + 1" using that(2) by (auto elim: evenE)
    with False show ?thesis by (simp add: bitwise)
  qed
  show "bit (ucast s0 OR push_bit 8 (ucast s1) OR push_bit 16 (ucast s2) :: u32) (2 * j) =
      bit (ucast s0 OR push_bit 8 (ucast s1) OR push_bit 16 (ucast s2) :: u32) (2 * j + 1)"
    using q [OF assms(1), of 0] q [OF assms(2), of 8] q [OF assms(3), of 16] by (simp add: bit_or_iff)
qed

lemma paired_no_single: "paired s \<Longrightarrow> (s XOR drop_bit 1 s) AND 0x55 \<noteq> 0x55"
  by (simp only: paired_iff eq8 bitwise) (simp add: numeral_eq_Suc)

lemma half_eq:
  assumes "n div 2 = k div 2" "even n = even k"
  shows "n = (k :: nat)"
proof -
  have "n mod 2 = k mod 2" using assms(2) by (simp only: mod2_eq_if)
  then have "2 * (n div 2) + n mod 2 = 2 * (k div 2) + k mod 2" by (simp only: assms(1))
  then show ?thesis by (simp only: mult_div_mod_eq)
qed

lemma bits3:
  assumes "(n :: nat) < 8" "k < 8" "even n = even k" "even (n div 2) = even (k div 2)"
    "even (n div 4) = even (k div 4)"
  shows "n = k"
proof -
  have h: "m div 2 div 2 = m div 4" "m < 8 \<Longrightarrow> m div 4 div 2 = 0" for m :: nat
    by (simp_all add: div_mult2_eq [symmetric])
  have "n div 4 = k div 4" using half_eq [OF _ assms(5)] h(2) [OF assms(1)] h(2) [OF assms(2)] by simp
  then have "n div 2 div 2 = k div 2 div 2" by (simp only: h(1))
  then have "n div 2 = k div 2" using assms(4) by (rule half_eq)
  then show ?thesis using assms(3) by (rule half_eq)
qed

lemma xor_zero: "(v :: u8) XOR w = 0 \<longleftrightarrow> v = w"
  by (auto simp: bit_eq_iff bit_xor_iff)

lemma correct_double:
  assumes "p < 256" "q < 256" "b < 8" "c < 8" "(p, b) \<noteq> (q, c)"
  shows "ecc_correct dat (ecc_syndrome (xor3 (flip_delta p b) (flip_delta q c))) = Some (Inl EBADMSG, dat)"
proof -
  define x where "x = (of_nat p XOR of_nat q :: u8)"
  define y where "y = (bit_parity b AND 0x3f) XOR (bit_parity c AND 0x3f)"
  define s0 s1 s2 where "s0 = ecc_tmp2 x x" "s1 = ecc_tmp1 x x" "s2 = push_bit 2 y"
  note s = this
  have n: "NOT (of_nat p) XOR NOT (of_nat q) = x" unfolding x_def
    by (rule bit_word_eqI) (auto simp: bitwise)
  have syn: "ecc_syndrome (xor3 (flip_delta p b) (flip_delta q c)) = (s0, s1, s2)"
    unfolding ecc_syndrome_def xor3_def prod.case n x_def [symmetric] y_def [symmetric] s ..
  have y: "bit y 0 = (even b \<noteq> even c)" "bit y 1 = (even b \<noteq> even c)"
    "bit y 2 = (even (b div 2) \<noteq> even (c div 2))" "bit y 3 = (even (b div 2) \<noteq> even (c div 2))"
    "bit y 4 = (even (b div 4) \<noteq> even (c div 4))" "bit y 5 = (even (b div 4) \<noteq> even (c div 4))"
    "\<not> bit y 6" "\<not> bit y 7"
    by (simp_all only: y_def bit_xor_iff bit_and_iff bit_parity_bits) simp_all
  have ps: "paired s0" "paired s1" by (simp_all only: s paired_iff tmp_same)
  have p2: "paired s2" unfolding s paired_iff bit_push_word using y by simp
  have "s0 OR s1 OR s2 \<noteq> 0"
  proof
    assume "s0 OR s1 OR s2 = 0"
    then have z: "s0 = 0" "s1 = 0" "s2 = 0" by (simp_all add: or_eq_0_iff)
    then have "x = 0" using tmp_same [of x] by (simp add: s eq8)
    have u: "unat (of_nat n :: u8) = n" if "n < 256" for n
      using that unat_of_nat_lt [where 'a = 8, of n] by simp
    from \<open>x = 0\<close> have "unat (of_nat p :: u8) = unat (of_nat q :: u8)" by (simp only: x_def xor_zero)
    then have pq: "p = q"
      using u [OF assms(1)] u [OF assms(2)] by simp
    have "even b = even c" "even (b div 2) = even (c div 2)" "even (b div 4) = even (c div 4)"
      using z(3) y unfolding s eq8 bit_push_word by simp_all
    then have "b = c" using bits3 [OF assms(3,4)] by simp
    with pq assms(5) show False by simp
  qed
  then show ?thesis
    unfolding syn ecc_correct_def prod.case
    using paired_no_single [OF ps(1)] paired_even [OF ps p2] by auto
qed

text \<open>A code with one of its 24 bits flipped.\<close>

definition flip_code :: "nat \<Rightarrow> ecc_code \<Rightarrow> ecc_code" where
  "flip_code k = (\<lambda>(c0, c1, c2).
     if k < 8 then (c0 XOR push_bit k 1, c1, c2)
     else if k < 16 then (c0, c1 XOR push_bit (k - 8) 1, c2)
     else (c0, c1, c2 XOR push_bit (k - 16) 1))"

lemma correct_code:
  assumes "k < 8"
  shows "ecc_correct dat (push_bit k 1, 0, 0) = Some (Inr 1, dat)"
    "ecc_correct dat (0, push_bit k 1, 0) = Some (Inr 1, dat)"
    "ecc_correct dat (0, 0, push_bit k 1) = Some (Inr 1, dat)"
proof -
  have u: "(ucast (push_bit k (1 :: u8)) :: u32) = push_bit k 1" 
    using assms by (intro bit_word_eqI) (auto simp: bitwise bit_exp_iff)
  have nz: "push_bit k (1 :: u8) \<noteq> 0" using assms by (auto simp: eq8 bit_exp_iff)
  have c: "countbits (push_bit m (push_bit k 1)) = 1" if "m \<le> 16" for m
    using countbits_exp [of "k + m"] that assms by (simp add: push_bit_eq_mult power_add mult.commute)
  show "ecc_correct dat (push_bit k 1, 0, 0) = Some (Inr 1, dat)"
    "ecc_correct dat (0, push_bit k 1, 0) = Some (Inr 1, dat)"
    "ecc_correct dat (0, 0, push_bit k 1) = Some (Inr 1, dat)"
    using nz c [of 0] c [of 8] c [of 16] by (simp_all only: ecc_correct_def prod.case u) auto
qed

lemma correct_flipped_code:
  assumes "k < 24"
  shows "nand_correct_data smc dat (flip_code k code) code = Some (Inr 1, dat)"
proof -
  obtain c0 c1 c2 where code: "code = (c0, c1, c2)" by (cases code)
  have x: "c XOR (c XOR v) = v" for c v :: u8 by (simp add: xor.assoc [symmetric])
  have k: "k - 8 < 8" if "k < 16" "\<not> k < 8" using that by simp
  have k': "k - 16 < 8" if "\<not> k < 16" using that assms by simp
  show ?thesis
    unfolding code flip_code_def nand_correct_data_def prod.case
    using correct_code [of k] correct_code [OF k] correct_code [OF k']
    by (simp only: prod.case x xor_self_eq split: if_split) blast
qed

text \<open>
  C2. The code of a block corrects one flipped bit and detects two. With nothing flipped the
  block is accepted; one flipped bit among the 2048 of the data is found and flipped back; one
  among the 24 of the stored code is reported as corrected with the data left alone; and two
  distinct flipped bits of data are never accepted or miscorrected: the result is
  \<^verbatim>\<open>EBADMSG\<close> and the data is left alone. This holds for both byte orders of the code.
\<close>

theorem ecc_secded:
  assumes "length dat = 256" "p < 256" "q < 256" "b < 8" "c < 8" "(p, b) \<noteq> (q, c)" "k < 24"
  shows "\<exists>code code1 code2. nand_calculate_ecc smc dat = Some code \<and>
     nand_correct_data smc dat code code = Some (Inr 0, dat) \<and>
     nand_correct_data smc dat (flip_code k code) code = Some (Inr 1, dat) \<and>
     nand_calculate_ecc smc (flip_bit p b dat) = Some code1 \<and>
     nand_correct_data smc (flip_bit p b dat) code code1 = Some (Inr 1, dat) \<and>
     nand_calculate_ecc smc (flip_bit q c (flip_bit p b dat)) = Some code2 \<and>
     nand_correct_data smc (flip_bit q c (flip_bit p b dat)) code code2 =
       Some (Inl EBADMSG, flip_bit q c (flip_bit p b dat))"
proof -
  have ex: "\<exists>code. nand_calculate_ecc smc d = Some code" if "length d = 256" for d
    using that by (simp add: nand_calculate_ecc_def Let_def split: prod.split)
  let ?d1 = "flip_bit p b dat" and ?d2 = "flip_bit q c (flip_bit p b dat)"
  obtain code code1 code2 where c: "nand_calculate_ecc smc dat = Some code"
      "nand_calculate_ecc smc ?d1 = Some code1" "nand_calculate_ecc smc ?d2 = Some code2"
    using ex [of dat] ex [of ?d1] ex [of ?d2] assms(1) by auto
  have "nand_correct_data smc dat code code = Some (Inr 0, dat)"
    by (cases code) (simp add: nand_correct_data_def ecc_correct_def)
  moreover have "nand_correct_data smc ?d1 code code1 = Some (Inr 1, dat)"
    using correct_data_syndrome [OF _ _ ecc_regs_flip c(1,2)] correct_single assms by simp
  moreover have "ecc_regs ?d2 = xor3 (ecc_regs dat) (xor3 (flip_delta p b) (flip_delta q c))"
    using ecc_regs_flip [of ?d1 q c] ecc_regs_flip [of dat p b] assms by (simp add: xor3_assoc)
  then have "nand_correct_data smc ?d2 code code2 = Some (Inl EBADMSG, ?d2)"
    using correct_data_syndrome [OF _ _ _ c(1,3)] correct_double assms by simp
  ultimately show ?thesis using c correct_flipped_code [OF assms(7)] by blast
qed

theorem ecc_secded_witness:
  "\<exists>code code1 code2. nand_calculate_ecc False (replicate 256 0xa5) = Some code \<and>
     nand_correct_data False (replicate 256 0xa5) code code = Some (Inr 0, replicate 256 0xa5) \<and>
     nand_correct_data False (replicate 256 0xa5) (flip_code 17 code) code =
       Some (Inr 1, replicate 256 0xa5) \<and>
     nand_calculate_ecc False (flip_bit 77 3 (replicate 256 0xa5)) = Some code1 \<and>
     nand_correct_data False (flip_bit 77 3 (replicate 256 0xa5)) code code1 =
       Some (Inr 1, replicate 256 0xa5) \<and>
     nand_calculate_ecc False (flip_bit 77 4 (flip_bit 77 3 (replicate 256 0xa5))) = Some code2 \<and>
     nand_correct_data False (flip_bit 77 4 (flip_bit 77 3 (replicate 256 0xa5))) code code2 =
       Some (Inl EBADMSG, flip_bit 77 4 (flip_bit 77 3 (replicate 256 0xa5)))"
  by (rule ecc_secded) simp_all

end
