(* ===== verification/Mmsp2_Nand.thy ===== *)
theory Mmsp2_Nand
  imports Mtd_Part Nand_Ecc Mmsp2_Io
begin

text \<open>
  The NAND flash driver of the machine (\<^verbatim>\<open>drivers/mtd/nand/mmsp2.c\<close>): the three operations it
  gives to the generic NAND code, its partition table, and its initialisation. The option
  \<^verbatim>\<open>CONFIG_MP25XXF_SHADOW_ENABLE\<close>, which moves the flash's registers, is the argument \<open>shadow\<close>.
  What \<^verbatim>\<open>nand_scan\<close> finds is an argument.
\<close>

section \<open>Operations\<close>

definition MMSP2_IO :: "bool \<Rightarrow> u32 \<Rightarrow> u32" where
  "MMSP2_IO shadow x = (if shadow then x + 0x80000000 else x)"

definition NF_IO_START :: "bool \<Rightarrow> u32" where "NF_IO_START shadow = MMSP2_IO shadow 0x1c000000"
definition NFCMD :: "bool \<Rightarrow> u32" where "NFCMD shadow = NF_IO_START shadow + 0x10"
definition NFADDR :: "bool \<Rightarrow> u32" where "NFADDR shadow = NF_IO_START shadow + 0x18"
definition MEMNANDCTRL :: u32 where "MEMNANDCTRL = 0xc0003a3a"
definition NAND_READY_DETECT :: u16 where "NAND_READY_DETECT = 0x8000"
definition NAND_CMD_NONE :: int where "NAND_CMD_NONE = -1"
definition NAND_CLE :: u32 where "NAND_CLE = 2"

definition REGB_wr :: "'h mmio \<Rightarrow> u32 \<Rightarrow> u8 \<Rightarrow> 'h \<Rightarrow> 'h" where
  "REGB_wr io x v h = wr8 io (io_p2v x) v h"

definition mmsp2_nand_hwcontrol :: "'h mmio \<Rightarrow> bool \<Rightarrow> int \<Rightarrow> u32 \<Rightarrow> 'h \<Rightarrow> 'h" where
  "mmsp2_nand_hwcontrol io shadow cmd ctrl h = (
     if cmd = NAND_CMD_NONE then h
     else if ctrl AND NAND_CLE \<noteq> 0 then REGB_wr io (NFCMD shadow) (of_int cmd) h
     else REGB_wr io (NFADDR shadow) (of_int cmd) h)"

definition mmsp2_nand_select_chip :: "'h mmio \<Rightarrow> int \<Rightarrow> 'h \<Rightarrow> 'h" where
  "mmsp2_nand_select_chip io chip h = (
     let (mem, h) = REGW_rd io MEMNANDCTRL h;
         mem = mem AND 0xfffc;
         mem = mem OR (of_int chip AND 3)
     in REGW_wr io MEMNANDCTRL mem h)"

text \<open>The loop that clears the ready flag; \<open>None\<close> when it never reads as clear.\<close>

partial_function (option) ready_loop :: "'h mmio \<Rightarrow> 'h \<Rightarrow> 'h option" where
  "ready_loop io h = (
     let (v, h) = REGW_rd io MEMNANDCTRL h
     in if v AND NAND_READY_DETECT \<noteq> 0
        then ready_loop io (REGW_upd io MEMNANDCTRL (\<lambda>v. v OR NAND_READY_DETECT) h)
        else Some h)"

definition mmsp2_nand_dev_ready :: "'h mmio \<Rightarrow> 'h \<Rightarrow> (bool \<times> 'h) option" where
  "mmsp2_nand_dev_ready io h = (
     let (v, h) = REGW_rd io MEMNANDCTRL h
     in if v AND NAND_READY_DETECT = NAND_READY_DETECT
        then map_option (Pair True) (ready_loop io h)
        else Some (False, h))"

section \<open>Partitions\<close>

definition partition_info :: "mtd_partition list" where
  "partition_info =
     [\<lparr>mp_name = ''Bootloader'', mp_size = 0x80000, mp_offset = 0, mp_mask_flags = MTD_WRITEABLE,
       mp_mtdp = False\<rparr>,
      \<lparr>mp_name = ''Param'', mp_size = 0x20000, mp_offset = MTDPART_OFS_APPEND, mp_mask_flags = 0,
       mp_mtdp = False\<rparr>,
      \<lparr>mp_name = ''Kernel'', mp_size = 0x100000, mp_offset = MTDPART_OFS_APPEND, mp_mask_flags = 0,
       mp_mtdp = False\<rparr>,
      \<lparr>mp_name = ''Filesystem'', mp_size = 0x1800000, mp_offset = MTDPART_OFS_APPEND, mp_mask_flags = 0,
       mp_mtdp = False\<rparr>,
      \<lparr>mp_name = ''Extend'', mp_size = MTDPART_SIZ_FULL, mp_offset = MTDPART_OFS_APPEND, mp_mask_flags = 0,
       mp_mtdp = False\<rparr>]"

datatype nand_ecc_modes = NAND_ECC_NONE | NAND_ECC_SOFT | NAND_ECC_HW | NAND_ECC_HW_SYNDROME

text \<open>\<open>scan\<close> is \<^verbatim>\<open>nand_scan\<close>: given the chosen error correction, the device it found, if any. The
  result of \<^verbatim>\<open>add_mtd_partitions\<close> is ignored.\<close>

definition mmsp2_nand_init ::
  "bool \<Rightarrow> (nand_ecc_modes \<Rightarrow> mtd_info option) \<Rightarrow> 'h master_ops \<Rightarrow> (nat \<Rightarrow> nat option) \<Rightarrow> nat \<Rightarrow>
     'h mtd_sys \<Rightarrow> ((errno + unit) \<times> 'h mtd_sys) option" where
  "mmsp2_nand_init hardware_ecc scan ops alloc master s = (
     case scan (if hardware_ecc then NAND_ECC_HW else NAND_ECC_SOFT) of
       None \<Rightarrow> Some (Inl ENXIO, s)
     | Some m \<Rightarrow> do {
         (_, s) \<leftarrow> add_mtd_partitions ops alloc master m partition_info s;
         Some (Inr (), s)
       })"

section \<open>The layout\<close>

definition layout :: "'h mtd_sys \<Rightarrow> (string \<times> u32 \<times> u32 \<times> bool) list" where
  "layout s = map (\<lambda>a. (mi_name (mtd_of a s), pt_offset (part_at s a), mi_size (mtd_of a s),
     writeable (mtd_of a s))) (rev (mtd_partitions s))"

lemma make_slave_single:
  assumes "mi_regions m = []" "mi_erasesize m \<noteq> 0" "place_slave m part cur = Some (offset, sz, cur')"
    "unat sz + unat (mi_erasesize m) \<le> 2 ^ 32"
    "offset mod mi_erasesize m = 0" "sz mod mi_erasesize m = 0"
  shows "\<exists>p. make_slave bad master m i part cur = Some (p, cur') \<and> pt_offset p = offset \<and>
     mi_size (pt_mtd p) = sz \<and> mi_name (pt_mtd p) = mp_name part \<and>
     mi_flags (pt_mtd p) = mi_flags m AND NOT (mp_mask_flags part) \<and>
     mi_writesize (pt_mtd p) = mi_writesize m"
proof -
  have "\<exists>n. scan_bad bad offset sz (mi_erasesize m) 0 0 = Some n"
    using scan_bad_blocks [OF assms(2,4), of 0 bad offset 0] by auto
  then show ?thesis using assms
    unfolding make_slave_def slave_erasesize_def slave_flags_def by (auto simp: Let_def)
qed

lemma link_slave_layout:
  assumes "mi_writesize (pt_mtd slave) \<noteq> 0" "a \<notin> set (mtd_partitions s)"
  shows "\<exists>t. link_slave ops part a slave s = Some t \<and> mtd_partitions t = a # mtd_partitions s \<and>
    layout t = layout s @ [(mi_name (pt_mtd slave), pt_offset slave, mi_size (pt_mtd slave),
      writeable (pt_mtd slave))]"
proof -
  have "\<exists>t p. link_slave ops part a slave s = Some t \<and> mtd_partitions t = a # mtd_partitions s \<and>
      part_at t = (part_at s)(a := p) \<and> mi_name (pt_mtd p) = mi_name (pt_mtd slave) \<and>
      pt_offset p = pt_offset slave \<and> mi_size (pt_mtd p) = mi_size (pt_mtd slave) \<and>
      mi_flags (pt_mtd p) = mi_flags (pt_mtd slave)"
    using assms(1) unfolding link_slave_def add_mtd_device_def Let_def
    by (auto simp: mtd_of_def part_upd_def split: option.splits)
  then obtain t p where t: "link_slave ops part a slave s = Some t" "mtd_partitions t = a # mtd_partitions s"
      "part_at t = (part_at s)(a := p)" "mi_name (pt_mtd p) = mi_name (pt_mtd slave)"
      "pt_offset p = pt_offset slave" "mi_size (pt_mtd p) = mi_size (pt_mtd slave)"
      "mi_flags (pt_mtd p) = mi_flags (pt_mtd slave)" by blast
  then have "layout t = layout s @ [(mi_name (pt_mtd slave), pt_offset slave, mi_size (pt_mtd slave),
      writeable (pt_mtd slave))]"
    using assms(2) by (auto simp: layout_def mtd_of_def writeable_def)
  with t show ?thesis by blast
qed

lemma add_loop_layout:
  assumes "alloc i = Some a" "a \<notin> set (mtd_partitions s)" "mi_regions m = []" "mi_erasesize m \<noteq> 0"
    "mi_writesize m \<noteq> 0" "place_slave m part cur = Some (offset, sz, cur')"
    "unat sz + unat (mi_erasesize m) \<le> 2 ^ 32" "offset mod mi_erasesize m = 0" "sz mod mi_erasesize m = 0"
  shows "\<exists>t. add_loop ops alloc master m i (part # parts) cur s =
      add_loop ops alloc master m (Suc i) parts cur' t \<and> mtd_partitions t = a # mtd_partitions s \<and>
    layout t = layout s @ [(mp_name part, offset, sz,
      (mi_flags m AND NOT (mp_mask_flags part)) AND MTD_WRITEABLE \<noteq> 0)]"
proof -
  obtain p where p: "make_slave (\<lambda>ofs. mo_isbad ops (uint ofs) (flash s)) master m i part cur = Some (p, cur')"
      "pt_offset p = offset" "mi_size (pt_mtd p) = sz" "mi_name (pt_mtd p) = mp_name part"
      "mi_flags (pt_mtd p) = mi_flags m AND NOT (mp_mask_flags part)" "mi_writesize (pt_mtd p) = mi_writesize m"
    using make_slave_single [OF assms(3,4,6-9)] by blast
  then have "mi_writesize (pt_mtd p) \<noteq> 0" using assms(5) by simp
  then obtain t where "link_slave ops part a p s = Some t" "mtd_partitions t = a # mtd_partitions s"
      "layout t = layout s @ [(mi_name (pt_mtd p), pt_offset p, mi_size (pt_mtd p), writeable (pt_mtd p))]"
    using link_slave_layout assms(2) by blast
  then show ?thesis using p assms(1) by (auto simp: writeable_def)
qed

lemma mod_multiple:
  assumes "unat es dvd 0x20000" "0x20000 dvd unat x"
  shows "x mod es = 0"
proof -
  have "unat es dvd unat x" using assms by (rule dvd_trans)
  then have "unat (x mod es) = 0" by (simp add: unat_mod_distrib)
  then show ?thesis by (simp add: unat_eq_zero)
qed

lemmas part_consts = MTDPART_OFS_APPEND_def MTDPART_OFS_NXTBLK_def MTDPART_SIZ_FULL_def

lemma minus_words: "(- 1 :: u32) = 0xffffffff" "(- 2 :: u32) = 0xfffffffe"
  by simp_all

lemma place_sized:
  assumes "cur + sz < mi_size m" "cur < mi_size m" "sz \<noteq> 0" "mp_offset part = MTDPART_OFS_APPEND \<or> mp_offset part = cur"
    "mp_size part = sz" "cur \<noteq> - 1" "cur \<noteq> - 2"
  shows "place_slave m part cur = Some (cur, sz, cur + sz)"
  using assms unfolding place_slave_def by (auto simp: part_consts Let_def)

lemma place_rest:
  assumes "cur < mi_size m" "mp_offset part = MTDPART_OFS_APPEND" "mp_size part = MTDPART_SIZ_FULL"
    "cur \<noteq> - 1" "cur \<noteq> - 2"
  shows "place_slave m part cur = Some (cur, mi_size m - cur, mi_size m)"
  using assms unfolding place_slave_def by (auto simp: part_consts Let_def)

text \<open>A chip the table fits: its erase blocks divide 128 KiB and the chip, and the chip is larger than
  the partitions of fixed size.\<close>

definition chip_ok :: "mtd_info \<Rightarrow> bool" where
  "chip_ok m \<longleftrightarrow> mi_regions m = [] \<and> mi_erasesize m \<noteq> 0 \<and> unat (mi_erasesize m) dvd 0x20000 \<and>
     unat (mi_erasesize m) dvd unat (mi_size m) \<and> 0x19a0000 < unat (mi_size m) \<and> unat (mi_size m) \<le> 2 ^ 31 \<and>
     mi_writesize m \<noteq> 0 \<and> writeable m"

text \<open>Partitions of fixed size that follow each other from \<open>cur\<close> and where they end.\<close>

fun plan :: "u32 \<Rightarrow> mtd_partition list \<Rightarrow> (string \<times> u32 \<times> u32 \<times> bool) list" where
  "plan cur [] = []"
| "plan cur (p # ps) = (mp_name p, cur, mp_size p, mp_mask_flags p = 0) # plan (cur + mp_size p) ps"

fun plan_end :: "u32 \<Rightarrow> mtd_partition list \<Rightarrow> u32" where
  "plan_end cur [] = cur"
| "plan_end cur (p # ps) = plan_end (cur + mp_size p) ps"

fun fits :: "u32 \<Rightarrow> mtd_partition list \<Rightarrow> bool" where
  "fits cur [] \<longleftrightarrow> True"
| "fits cur (p # ps) \<longleftrightarrow> unat cur \<le> 0x19a0000 \<and> unat (cur + mp_size p) \<le> 0x19a0000 \<and> mp_size p \<noteq> 0 \<and>
     (mp_offset p = MTDPART_OFS_APPEND \<or> mp_offset p = cur) \<and> 0x20000 dvd unat cur \<and>
     0x20000 dvd unat (mp_size p) \<and> unat (mp_size p) \<le> 2 ^ 31 \<and>
     (mp_mask_flags p = 0 \<or> mp_mask_flags p = MTD_WRITEABLE) \<and> fits (cur + mp_size p) ps"

lemma chip_place:
  assumes "chip_ok m" "fits cur (p # ps)"
  shows "place_slave m p cur = Some (cur, mp_size p, cur + mp_size p)"
proof -
  have lt: "x < mi_size m" if "unat x \<le> 0x19a0000" for x
    using that assms(1) by (simp add: word_less_nat_alt chip_ok_def)
  have "unat (- 1 :: u32) = 0xffffffff" "unat (- 2 :: u32) = 0xfffffffe"
    by (simp_all only: minus_words) simp_all
  then have "cur \<noteq> - 1" "cur \<noteq> - 2" using assms(2) by auto
  then show ?thesis using assms(2) lt by (intro place_sized) simp_all
qed

lemma chip_round:
  assumes "chip_ok m" "fits cur (p # ps)" "f i \<notin> set (mtd_partitions s)"
  shows "\<exists>t. add_loop ops (\<lambda>i. Some (f i)) master m i (p # qs) cur s =
      add_loop ops (\<lambda>i. Some (f i)) master m (Suc i) qs (cur + mp_size p) t \<and>
    mtd_partitions t = f i # mtd_partitions s \<and>
    layout t = layout s @ [(mp_name p, cur, mp_size p, mp_mask_flags p = 0)]"
proof -
  have m: "mi_regions m = []" "mi_erasesize m \<noteq> 0" "mi_writesize m \<noteq> 0" "unat (mi_erasesize m) dvd 0x20000"
    using assms(1) by (simp_all add: chip_ok_def)
  have "unat (mi_erasesize m) \<le> 0x20000" using m(4) by (simp add: dvd_imp_le)
  then have fit: "unat (mp_size p) + unat (mi_erasesize m) \<le> 2 ^ 32" using assms(2) by simp
  have w: "((mi_flags m AND NOT (mp_mask_flags p)) AND MTD_WRITEABLE \<noteq> 0) = (mp_mask_flags p = 0)"
    using assms by (auto simp: chip_ok_def writeable_def MTD_WRITEABLE_def and.assoc)
  have "cur mod mi_erasesize m = 0" "mp_size p mod mi_erasesize m = 0"
    using assms(2) mod_multiple [OF m(4)] by simp_all
  then show ?thesis
    using add_loop_layout [where alloc = "\<lambda>i. Some (f i)", OF refl assms(3) m(1-3) chip_place [OF assms(1,2)] fit, of ops master qs]
    unfolding w by (simp del: add_loop.simps)
qed

lemma chip_rounds:
  assumes "chip_ok m" "inj f" "fits cur ps" "mtd_partitions s = map f (rev [0..<i])"
  shows "\<exists>t. add_loop ops (\<lambda>i. Some (f i)) master m i (ps @ qs) cur s =
      add_loop ops (\<lambda>i. Some (f i)) master m (i + length ps) qs (plan_end cur ps) t \<and>
    mtd_partitions t = map f (rev [0..<i + length ps]) \<and> layout t = layout s @ plan cur ps"
  using assms(3,4)
proof (induction ps arbitrary: cur s i)
  case (Cons p ps)
  have "f i \<notin> set (mtd_partitions s)" using Cons.prems(2) assms(2) by (auto simp: inj_eq)
  then obtain t where t: "add_loop ops (\<lambda>i. Some (f i)) master m i (p # ps @ qs) cur s =
      add_loop ops (\<lambda>i. Some (f i)) master m (Suc i) (ps @ qs) (cur + mp_size p) t"
      "mtd_partitions t = map f (rev [0..<Suc i])"
      "layout t = layout s @ [(mp_name p, cur, mp_size p, mp_mask_flags p = 0)]"
    using chip_round [OF assms(1) Cons.prems(1)] Cons.prems(2) by fastforce
  show ?case
    using Cons.IH [of "cur + mp_size p" t "Suc i"] Cons.prems(1) t by (simp del: add_loop.simps)
qed auto

text \<open>
  C33. On every chip larger than the fixed partitions whose erase blocks are at most 128 KiB, the
  driver's initialisation selects the software code and divides the chip without gap or overlap
  into the five partitions of its table, the last one up to the end of the chip; the first is
  read-only and the others are writeable, whatever blocks of the chip are bad.
\<close>

theorem gp2x_partitions:
  assumes "scan NAND_ECC_SOFT = Some m" "chip_ok m" "inj f" "mtd_partitions s = []"
  shows "\<exists>s'. mmsp2_nand_init False scan ops (\<lambda>i. Some (f i)) master s = Some (Inr (), s') \<and>
    layout s' = [(''Bootloader'', 0, 0x80000, False), (''Param'', 0x80000, 0x20000, True),
      (''Kernel'', 0xa0000, 0x100000, True), (''Filesystem'', 0x1a0000, 0x1800000, True),
      (''Extend'', 0x19a0000, mi_size m - 0x19a0000, True)]"
proof -
  let ?fixed = "butlast partition_info" and ?e = "last partition_info"
  have parts: "partition_info = ?fixed @ [?e]" by (simp add: partition_info_def)
  have "fits 0 ?fixed" by (simp add: partition_info_def part_consts MTD_WRITEABLE_def)
  moreover have "mtd_partitions s = map f (rev [0..<0])" using assms(4) by simp
  moreover have e: "0 + length ?fixed = 4" "plan_end 0 ?fixed = 0x19a0000" "layout s = []"
    using assms(4) by (simp_all add: partition_info_def layout_def)
  ultimately obtain t where t: "add_loop ops (\<lambda>i. Some (f i)) master m 0 partition_info 0 s =
      add_loop ops (\<lambda>i. Some (f i)) master m 4 [?e] 0x19a0000 t" "mtd_partitions t = map f (rev [0..<4])"
      "layout t = plan 0 ?fixed"
    using chip_rounds [OF assms(2,3), of 0 ?fixed s 0 ops master "[?e]"]
    unfolding parts [symmetric] e append_Nil by blast
  have n: "f 4 \<notin> set (mtd_partitions t)" using t(2) assms(3) by (auto simp: inj_eq)
  have m: "mi_regions m = []" "mi_erasesize m \<noteq> 0" "mi_writesize m \<noteq> 0" "unat (mi_erasesize m) dvd 0x20000"
      "unat (mi_erasesize m) dvd unat (mi_size m)" "0x19a0000 < unat (mi_size m)" "unat (mi_size m) \<le> 2 ^ 31"
    using assms(2) by (simp_all add: chip_ok_def)
  have pl: "place_slave m ?e 0x19a0000 = Some (0x19a0000, mi_size m - 0x19a0000, mi_size m)"
    using m(6) by (intro place_rest) (simp_all add: partition_info_def word_less_nat_alt)
  have z: "unat (mi_size m - 0x19a0000) = unat (mi_size m) - 0x19a0000" using m(6) by (simp add: unat_sub_nowrap)
  have "unat (mi_erasesize m) dvd 0x19a0000" using m(4) by (rule dvd_trans) simp
  then have "unat (mi_erasesize m) dvd unat (mi_size m - 0x19a0000)" unfolding z using m(5) by (rule dvd_diff_nat [rotated])
  then have "unat ((mi_size m - 0x19a0000) mod mi_erasesize m) = 0" by (simp add: unat_mod_distrib)
  then have al: "(mi_size m - 0x19a0000) mod mi_erasesize m = 0" by (simp add: unat_eq_zero)
  have al0: "0x19a0000 mod mi_erasesize m = 0" by (rule mod_multiple [OF m(4)]) simp
  have "unat (mi_erasesize m) \<le> 0x20000" using m(4) by (simp add: dvd_imp_le)
  then have fit: "unat (mi_size m - 0x19a0000) + unat (mi_erasesize m) \<le> 2 ^ 32" using z m(7) by simp
  obtain u where u: "add_loop ops (\<lambda>i. Some (f i)) master m 4 [?e] 0x19a0000 t =
      add_loop ops (\<lambda>i. Some (f i)) master m (Suc 4) [] (mi_size m) u"
      "layout u = layout t @ [(''Extend'', 0x19a0000, mi_size m - 0x19a0000, True)]"
    using add_loop_layout [where alloc = "\<lambda>i. Some (f i)", OF refl n m(1-3) pl fit al0 al, of ops master "[]"] assms(2)
    by (auto simp: partition_info_def chip_ok_def writeable_def simp del: add_loop.simps)
  have "add_mtd_partitions ops (\<lambda>i. Some (f i)) master m partition_info s = Some (Inr (), u)"
    unfolding add_mtd_partitions_def t(1) u(1) by simp
  moreover have "layout u = plan 0 ?fixed @ [(''Extend'', 0x19a0000, mi_size m - 0x19a0000, True)]"
    by (simp only: u(2) t(3))
  ultimately show ?thesis
    using assms(1) by (simp add: mmsp2_nand_init_def partition_info_def MTD_WRITEABLE_def)
qed

definition gp2x_chip :: mtd_info where
  "gp2x_chip = (pt_mtd fresh_part)\<lparr>mi_flags := MTD_WRITEABLE, mi_size := 0x4000000, mi_erasesize := 0x4000,
     mi_writesize := 512, mi_has := (\<lambda>op. op = Op_block_isbad)\<rparr>"

theorem gp2x_partitions_witness:
  "\<exists>s'. mmsp2_nand_init False (\<lambda>_. Some gp2x_chip) ram_ops (\<lambda>i. Some (i + 20)) 9 demo_sys = Some (Inr (), s') \<and>
    layout s' = [(''Bootloader'', 0, 0x80000, False), (''Param'', 0x80000, 0x20000, True),
      (''Kernel'', 0xa0000, 0x100000, True), (''Filesystem'', 0x1a0000, 0x1800000, True),
      (''Extend'', 0x19a0000, mi_size gp2x_chip - 0x19a0000, True)]"
  by (rule gp2x_partitions)
     (simp_all add: chip_ok_def gp2x_chip_def fresh_part_def writeable_def MTD_WRITEABLE_def demo_sys_def)

section \<open>The ready flag\<close>

text \<open>The control register of the chip: the ready flag is cleared by writing one to it, the other
  bits hold what is written.\<close>

definition nand_control :: "'h mmio \<Rightarrow> ('h \<Rightarrow> u16) \<Rightarrow> bool" where
  "nand_control io ctl \<longleftrightarrow> (\<forall>h. rd16 io (io_p2v MEMNANDCTRL) h = (ctl h, h) \<and>
     (\<forall>v. ctl (wr16 io (io_p2v MEMNANDCTRL) v h) =
        (v AND NOT NAND_READY_DETECT) OR (ctl h AND NAND_READY_DETECT AND NOT v)))"

lemma ready_bit: "bit NAND_READY_DETECT i \<longleftrightarrow> i = 15"
proof -
  have R: "NAND_READY_DETECT = push_bit 15 1" by (simp add: NAND_READY_DETECT_def)
  show ?thesis unfolding R bit_push_word bit_one_word by auto
qed

text \<open>
  C34. Asking whether the chip is ready always returns: the answer is the flag, a set flag is
  cleared, and no other bit of the control register changes.
\<close>

theorem nand_ready_returns:
  assumes "nand_control io ctl"
  shows "\<exists>h'. mmsp2_nand_dev_ready io h = Some (bit (ctl h) 15, h') \<and>
    ctl h' = ctl h AND NOT NAND_READY_DETECT"
proof -
  let ?a = "io_p2v MEMNANDCTRL" and ?R = NAND_READY_DETECT
  have rd: "rd16 io ?a h = (ctl h, h)" for h using assms by (simp add: nand_control_def)
  have flag: "v AND ?R = (if bit v 15 then ?R else 0)" for v
    using ready_bit by (intro bit_word_eqI) (auto simp: bit_and_iff)
  have ne: "?R \<noteq> 0" by (simp add: NAND_READY_DETECT_def)
  show ?thesis
  proof (cases "bit (ctl h) 15")
    case True
    define h1 where "h1 = wr16 io ?a (ctl h OR ?R) h"
    have "ctl h1 = ((ctl h OR ?R) AND NOT ?R) OR (ctl h AND ?R AND NOT (ctl h OR ?R))"
      using assms by (simp add: nand_control_def h1_def)
    also have "\<dots> = ctl h AND NOT ?R"
      by (intro bit_word_eqI) (auto simp: bitwise)
    finally have c: "ctl h1 = ctl h AND NOT ?R" .
    then have "\<not> bit (ctl h1) 15" by (simp add: bit_and_iff bit_not_iff ready_bit)
    then have "ready_loop io h1 = Some h1" by (simp add: ready_loop.simps io_defs rd flag)
    then have "ready_loop io h = Some h1"
      using True ne by (simp add: ready_loop.simps [of io h] io_defs rd flag h1_def)
    then show ?thesis using True c by (simp add: mmsp2_nand_dev_ready_def io_defs rd flag)
  next
    case False
    then have "ctl h AND NOT ?R = ctl h" by (intro bit_word_eqI) (auto simp: bitwise ready_bit)
    then show ?thesis using False ne by (simp add: mmsp2_nand_dev_ready_def io_defs rd flag)
  qed
qed

text \<open>A chip that has just become ready.\<close>

definition ready_chip :: "u16 mmio" where
  "ready_chip = \<lparr>rd32 = (\<lambda>_ h. (0, h)), wr32 = (\<lambda>_ _ h. h), rd16 = (\<lambda>_ h. (h, h)),
     wr16 = (\<lambda>_ v h. (v AND NOT NAND_READY_DETECT) OR (h AND NAND_READY_DETECT AND NOT v)),
     rd8 = (\<lambda>_ h. (0, h)), wr8 = (\<lambda>_ _ h. h)\<rparr>"

theorem nand_ready_returns_witness:
  "\<exists>h'. mmsp2_nand_dev_ready ready_chip 0x8003 = Some (bit (0x8003 :: u16) 15, h') \<and>
    h' = 0x8003 AND NOT NAND_READY_DETECT"
  by (rule nand_ready_returns [where ctl = "\<lambda>h. h"]) (simp add: nand_control_def ready_chip_def)

end
