(* ===== verification/Mmsp2_Mmc.thy ===== *)
theory Mmsp2_Mmc
  imports Mmsp2_Io Mmsp2_Devices Irq_Core
begin

text \<open>
  The MMC/SD host driver of the machine (\<^verbatim>\<open>drivers/mmc/host/mp2520f.c\<close>,
  \<^verbatim>\<open>include/asm-arm/arch-mp25xxf/regs-sdi.h\<close>): requests with programmed input, the bus settings,
  and the interrupt handler, which only silences the controller. The pages a
  scatter list points to are part of a memory from virtual addresses to bytes. The debug prints
  are compiled in, and the registers they print are loaded. An error of zero is \<open>None\<close>; a
  \<^verbatim>\<open>BUG_ON\<close>, a division by zero and a loop that does not end are \<open>None\<close> results.
\<close>

section \<open>Registers\<close>

definition SDICON :: u32 where "SDICON = MP25XXF_MMC_START + 0x00"
definition SDIPRE :: u32 where "SDIPRE = MP25XXF_MMC_START + 0x02"
definition SDICMDARG :: u32 where "SDICMDARG = MP25XXF_MMC_START + 0x04"
definition SDICMDCON :: u32 where "SDICMDCON = MP25XXF_MMC_START + 0x08"
definition SDICMDSTA :: u32 where "SDICMDSTA = MP25XXF_MMC_START + 0x0a"
definition SDIRSP0 :: u32 where "SDIRSP0 = MP25XXF_MMC_START + 0x0c"
definition SDIRSP1 :: u32 where "SDIRSP1 = MP25XXF_MMC_START + 0x0e"
definition SDIRSP2 :: u32 where "SDIRSP2 = MP25XXF_MMC_START + 0x10"
definition SDIRSP3 :: u32 where "SDIRSP3 = MP25XXF_MMC_START + 0x12"
definition SDIRSP4 :: u32 where "SDIRSP4 = MP25XXF_MMC_START + 0x14"
definition SDIRSP5 :: u32 where "SDIRSP5 = MP25XXF_MMC_START + 0x16"
definition SDIRSP6 :: u32 where "SDIRSP6 = MP25XXF_MMC_START + 0x18"
definition SDIRSP7 :: u32 where "SDIRSP7 = MP25XXF_MMC_START + 0x1a"
definition SDIBSIZE :: u32 where "SDIBSIZE = MP25XXF_MMC_START + 0x1e"
definition SDIDATCON :: u32 where "SDIDATCON = MP25XXF_MMC_START + 0x20"
definition SDIDATSTA :: u32 where "SDIDATSTA = MP25XXF_MMC_START + 0x28"
definition SDIFSTA :: u32 where "SDIFSTA = MP25XXF_MMC_START + 0x2a"
definition SDIDAT :: u32 where "SDIDAT = MP25XXF_MMC_START + 0x2c"
definition SDIINTENB1 :: u32 where "SDIINTENB1 = MP25XXF_MMC_START + 0x30"
definition SDIINTENB0 :: u32 where "SDIINTENB0 = MP25XXF_MMC_START + 0x32"
definition SDIDTIMERL :: u32 where "SDIDTIMERL = MP25XXF_MMC_START + 0x36"
definition SDIDTIMERH :: u32 where "SDIDTIMERH = MP25XXF_MMC_START + 0x38"

definition SDICON_BYTE_BE :: u16 where "SDICON_BYTE_BE = 0x10"
definition SDICON_FRESET :: u16 where "SDICON_FRESET = 2"
definition SDICON_ENCLK :: u16 where "SDICON_ENCLK = 1"
definition SDICMDCON_HOSTRCV :: u16 where "SDICMDCON_HOSTRCV = 0x400"
definition SDICMDCON_HOSTWAITS :: u16 where "SDICMDCON_HOSTWAITS = 0x200"
definition SDICMDCON_CMDOPST :: u16 where "SDICMDCON_CMDOPST = 0x100"
definition SDICMDCON_CMDINDEX_MSK :: u32 where "SDICMDCON_CMDINDEX_MSK = 0xff"
definition SDICMDSTA_RSPCRC :: u16 where "SDICMDSTA_RSPCRC = 0x1000"
definition SDICMDSTA_CMDTOUT :: u16 where "SDICMDSTA_CMDTOUT = 0x400"
definition SDICMDSTA_RSPFIN :: u16 where "SDICMDSTA_RSPFIN = 0x200"
definition SDICMDSTA_RSPINDEX :: u16 where "SDICMDSTA_RSPINDEX = 0xff"
definition SDIDATCON_TARSP :: u32 where "SDIDATCON_TARSP = 0x100000"
definition SDIDATCON_RACMD :: u32 where "SDIDATCON_RACMD = 0x80000"
definition SDIDATCON_BLKMODE :: u32 where "SDIDATCON_BLKMODE = 0x20000"
definition SDIDATCON_WIDE :: u32 where "SDIDATCON_WIDE = 0x10000"
definition SDIDATCON_DATMODE_RS :: u32 where "SDIDATCON_DATMODE_RS = 0x2000"
definition SDIDATCON_DATMODE_TS :: u32 where "SDIDATCON_DATMODE_TS = 0x3000"
definition SDIDATCON_STOPMODE :: u32 where "SDIDATCON_STOPMODE = 0x4000"
definition SDIFSTA_RFDET :: u16 where "SDIFSTA_RFDET = 0x1000"

section \<open>Data\<close>

definition MMC_RSP_PRESENT :: u32 where "MMC_RSP_PRESENT = 1"
definition MMC_RSP_136 :: u32 where "MMC_RSP_136 = 2"
definition MMC_RSP_CRC :: u32 where "MMC_RSP_CRC = 4"
definition MMC_DATA_WRITE :: u32 where "MMC_DATA_WRITE = 0x100"
definition MMC_DATA_READ :: u32 where "MMC_DATA_READ = 0x200"
definition MMC_BUS_WIDTH_4 :: u8 where "MMC_BUS_WIDTH_4 = 2"
definition MMC_POWER_OFF :: u8 where "MMC_POWER_OFF = 0"
definition MMC_POWER_UP :: u8 where "MMC_POWER_UP = 1"
definition MMC_POWER_ON :: u8 where "MMC_POWER_ON = 2"

record mmc_command =
  cmd_opcode :: u32
  cmd_arg :: u32
  cmd_resp :: "u32 list"
  cmd_flags :: u32
  cmd_error :: "errno option"

text \<open>The scatter list is a list of virtual address and length.\<close>

record mmc_data =
  data_blksz :: u32
  data_blocks :: u32
  data_flags :: u32
  data_bytes_xfered :: u32
  data_sg :: "(u32 \<times> u32) list"
  data_stop :: "mmc_command option"

record mmc_request =
  req_cmd :: mmc_command
  req_data :: "mmc_data option"

record mmc_ios =
  ios_clock :: u32
  ios_power_mode :: u8
  ios_bus_width :: u8

record mmsp2_mmc_host =
  mh_bus_width :: u8
  mh_power_mode :: u32
  mh_clock :: u32
  mh_irq :: int

type_synonym ram = "u32 \<Rightarrow> u8"

text \<open>The statement \<^verbatim>\<open>R &= R\<close>: two loads and a store.\<close>

definition REGW_self :: "'h mmio \<Rightarrow> u32 \<Rightarrow> 'h \<Rightarrow> 'h" where
  "REGW_self io x h = (let (v, h) = REGW_rd io x h; (w, h) = REGW_rd io x h in REGW_wr io x (v AND w) h)"

section \<open>Programmed input\<close>

text \<open>One round's choice of the buffer: the next entry of the scatter list when this one is full.\<close>

definition pio_segment :: "(u32 \<times> u32) list \<Rightarrow> nat \<Rightarrow> u32 \<Rightarrow> u32 \<Rightarrow> (nat \<times> u32 \<times> u32) option" where
  "pio_segment sgs idx buffer left = (
     if left = 0 then
       (if Suc idx = length sgs then None
        else if Suc idx < length sgs then Some (Suc idx, fst (sgs ! Suc idx), snd (sgs ! Suc idx)) else None)
     else Some (idx, buffer, left))"

lemma count_up: "cnt < len \<Longrightarrow> unat (cnt + 1 :: u32) = unat cnt + 1" for cnt len :: u32
  using unat_add_nowrap [of cnt 1] unat_lt2p [of len] by (simp add: word_less_nat_alt)

function pio_loop ::
  "'h mmio \<Rightarrow> (u32 \<times> u32) list \<Rightarrow> u32 \<Rightarrow> u32 \<Rightarrow> nat \<Rightarrow> u32 \<Rightarrow> u32 \<Rightarrow> ram \<Rightarrow> 'h \<Rightarrow> (u32 \<times> ram \<times> 'h) option" where
  "pio_loop io sgs len cnt idx buffer left r h = (
     let (fsta, h) = REGW_rd io SDIFSTA h
     in if fsta AND SDIFSTA_RFDET \<noteq> 0 \<and> cnt < len then
          (case pio_segment sgs idx buffer left of
             None \<Rightarrow> None
           | Some (idx, buffer, left) \<Rightarrow>
               let (b, h) = REGB_rd io SDIDAT h
               in pio_loop io sgs len (cnt + 1) idx buffer (left - 1) (r(buffer + cnt := b))
                    (REGW_self io SDIFSTA h))
        else Some (cnt, r, h))"
  by pat_completeness auto

termination
  by (relation "measure (\<lambda>(_, _, len, cnt, _). unat len - unat cnt)")
     (auto simp: count_up word_less_nat_alt)

declare pio_loop.simps [simp del]

definition mp2520f_mmc_pio_read ::
  "'h mmio \<Rightarrow> mmc_data \<Rightarrow> ram \<Rightarrow> 'h \<Rightarrow> (mmc_data \<times> ram \<times> 'h) option" where
  "mp2520f_mmc_pio_read io data r h = (
     let len = data_blksz data * data_blocks data
     in case data_sg data of
          [] \<Rightarrow> None
        | (buffer, left) # _ \<Rightarrow> do {
            (cnt, r, h) \<leftarrow> pio_loop io (data_sg data) len 0 0 buffer left r h;
            Some (data\<lparr>data_bytes_xfered := 0 + cnt\<rparr>, r,
                  REG_upd io SDIDATCON (\<lambda>v. v OR SDIDATCON_STOPMODE) h)
          })"

section \<open>Commands and data\<close>

definition mp2520f_start_command :: "'h mmio \<Rightarrow> mmc_command \<Rightarrow> 'h \<Rightarrow> 'h" where
  "mp2520f_start_command io cmd h = (
     let h = REGW_wr io SDICMDCON (ucast ((cmd_opcode cmd AND SDICMDCON_CMDINDEX_MSK) OR 0x40)) h;
         h = (if cmd_flags cmd AND MMC_RSP_PRESENT \<noteq> 0 then
                let h = (if cmd_flags cmd AND MMC_RSP_136 \<noteq> 0
                         then REGW_upd io SDICMDCON (\<lambda>v. v OR SDICMDCON_HOSTRCV) h else h)
                in REGW_upd io SDICMDCON (\<lambda>v. v OR SDICMDCON_HOSTWAITS) h
              else h);
         h = REG_wr io SDICMDARG (cmd_arg cmd) h
     in REGW_upd io SDICMDCON (\<lambda>v. v OR SDICMDCON_CMDOPST) h)"

definition mp2520f_start_data :: "'h mmio \<Rightarrow> mmsp2_mmc_host \<Rightarrow> mmc_data \<Rightarrow> 'h \<Rightarrow> 'h" where
  "mp2520f_start_data io host data h = (
     let sdidatcon = (if mh_bus_width host = MMC_BUS_WIDTH_4 then SDIDATCON_WIDE else 0);
         h = REGW_wr io SDIBSIZE (ucast (data_blksz data)) h;
         sdidatcon = sdidatcon OR ((data_blocks data AND 0xff) OR SDIDATCON_BLKMODE);
         sdidatcon = (if data_flags data AND MMC_DATA_WRITE \<noteq> 0
                      then sdidatcon OR (SDIDATCON_TARSP OR SDIDATCON_DATMODE_TS) else sdidatcon);
         sdidatcon = (if data_flags data AND MMC_DATA_READ \<noteq> 0
                      then sdidatcon OR (SDIDATCON_RACMD OR SDIDATCON_DATMODE_RS) else sdidatcon)
     in REG_wr io SDIDATCON sdidatcon h)"

text \<open>A pair of response registers as one word of the response.\<close>

definition rsp_pair :: "'h mmio \<Rightarrow> u32 \<Rightarrow> u32 \<Rightarrow> 'h \<Rightarrow> u32 \<times> 'h" where
  "rsp_pair io lo hi h = (
     let (a, h) = REGW_rd io lo h; (b, h) = REGW_rd io hi h
     in (ucast a OR push_bit 16 (ucast b), h))"

definition cmd_result :: "u32 \<Rightarrow> u16 \<Rightarrow> errno option \<Rightarrow> errno option" where
  "cmd_result flags sdicmdsta old = (
     if sdicmdsta AND SDICMDSTA_CMDTOUT \<noteq> 0 then Some ETIMEDOUT
     else if sdicmdsta AND SDICMDSTA_RSPFIN = 0 then Some EINVAL
     else if flags AND MMC_RSP_CRC \<noteq> 0 \<and> sdicmdsta AND SDICMDSTA_RSPCRC \<noteq> 0 then Some EILSEQ
     else old)"

definition mmsp2_mmc_cmd_end :: "'h mmio \<Rightarrow> mmc_command \<Rightarrow> 'h \<Rightarrow> mmc_command \<times> 'h" where
  "mmsp2_mmc_cmd_end io cmd h = (
     let (_, h) = REGW_rd io SDICMDSTA h;
         (sdicmdsta, h) = REGW_rd io SDICMDSTA h;
         (cmd, h) =
           (if cmd_flags cmd AND MMC_RSP_PRESENT \<noteq> 0 then
              let (resp, h) =
                    (if cmd_flags cmd AND MMC_RSP_136 \<noteq> 0 then
                       let (r3, h) = rsp_pair io SDIRSP6 SDIRSP7 h;
                           (r2, h) = rsp_pair io SDIRSP4 SDIRSP5 h;
                           (r1, h) = rsp_pair io SDIRSP2 SDIRSP3 h;
                           (r0, h) = rsp_pair io SDIRSP0 SDIRSP1 h
                       in ([r0, r1, r2, r3], h)
                     else let (r0, h) = rsp_pair io SDIRSP0 SDIRSP1 h
                          in ((cmd_resp cmd)[0 := r0], h))
              in (cmd\<lparr>cmd_resp := resp, cmd_error := cmd_result (cmd_flags cmd) sdicmdsta (cmd_error cmd)\<rparr>, h)
            else (cmd, h))
     in (cmd, REGW_wr io SDICMDSTA sdicmdsta h))"

definition mmsp2_mmc_data_end ::
  "'h mmio \<Rightarrow> mmc_data \<Rightarrow> ram \<Rightarrow> 'h \<Rightarrow> (mmc_data \<times> ram \<times> 'h) option" where
  "mmsp2_mmc_data_end io data r h = do {
     (data, r, h) \<leftarrow> (if data_flags data AND MMC_DATA_WRITE \<noteq> 0 then Some (data, r, h)
                     else mp2520f_mmc_pio_read io data r h);
     h \<leftarrow> Some (REGW_self io SDIDATSTA h);
     Some (data, r, REGW_upd io SDICON (\<lambda>v. v OR SDICON_FRESET) h)
   }"

text \<open>The loop that waits for the command to have some status.\<close>

partial_function (option) wait_status :: "'h mmio \<Rightarrow> 'h \<Rightarrow> 'h option" where
  "wait_status io h = (
     let (v, h) = REGW_rd io SDICMDSTA h
     in if v AND NOT SDICMDSTA_RSPINDEX = 0 then wait_status io h else Some h)"

text \<open>The request is handed back to the MMC core: it is the result.\<close>

definition mmsp2_mmc_request_end ::
  "'h mmio \<Rightarrow> mmc_request \<Rightarrow> ram \<Rightarrow> 'h \<Rightarrow> (mmc_request \<times> ram \<times> 'h) option" where
  "mmsp2_mmc_request_end io req r h = (
     let (_, h) = REGW_rd io SDICMDSTA h;
         (_, h) = REGW_rd io SDIDATSTA h;
         (_, h) = REGW_rd io SDIFSTA h
     in do {
       h \<leftarrow> wait_status io h;
       (cmd, h) \<leftarrow> Some (mmsp2_mmc_cmd_end io (req_cmd req) h);
       case req_data req of
         None \<Rightarrow> Some (req\<lparr>req_cmd := cmd\<rparr>, r, h)
       | Some data \<Rightarrow>
           if cmd_error cmd = None then do {
             (data, r, h) \<leftarrow> mmsp2_mmc_data_end io data r h;
             h \<leftarrow> Some (case data_stop data of None \<Rightarrow> h | Some stop \<Rightarrow> mp2520f_start_command io stop h);
             Some (req\<lparr>req_cmd := cmd, req_data := Some data\<rparr>, r, h)
           } else Some (req\<lparr>req_cmd := cmd\<rparr>, r, h)
     })"

definition mmsp2_mmc_request ::
  "'h mmio \<Rightarrow> mmsp2_mmc_host \<Rightarrow> mmc_request \<Rightarrow> ram \<Rightarrow> 'h \<Rightarrow> (mmc_request \<times> ram \<times> 'h) option" where
  "mmsp2_mmc_request io host req r h = (
     let h = (case req_data req of None \<Rightarrow> h | Some data \<Rightarrow> mp2520f_start_data io host data h);
         h = mp2520f_start_command io (req_cmd req) h
     in mmsp2_mmc_request_end io req r h)"

text \<open>The interrupt handler.\<close>

definition mmsp2_mmc_irq :: "'h mmio \<Rightarrow> 'h \<Rightarrow> u32 \<times> 'h" where
  "mmsp2_mmc_irq io h = (
     let (_, h) = REGW_rd io SDICMDSTA h;
         h = REGW_wr io SDIINTENB1 0 h;
         h = REGW_wr io SDIINTENB0 0 h;
         h = REGW_self io SDICMDSTA h;
         h = REGW_self io SDIDATSTA h
     in (IRQ_HANDLED, REGW_self io SDIFSTA h))"

section \<open>Bus settings\<close>

definition mmc_set_power :: "'h mmio \<Rightarrow> u8 \<Rightarrow> 'h \<Rightarrow> 'h" where
  "mmc_set_power io mode h = (
     if mode = MMC_POWER_OFF then
       (let h = REGW_wr io SDICON 0 h;
            h = REG_wr io SDIDATCON 0 h;
            h = REGW_wr io SDIINTENB1 0 h;
            h = REGW_wr io SDIINTENB0 0 h;
            h = REGW_wr io SDIDTIMERL 0 h;
            h = REGW_wr io SDIDTIMERH 0 h
        in REGW_wr io SDIBSIZE 0 h)
     else if mode = MMC_POWER_UP then
       (let h = REGW_wr io SDICON (SDICON_FRESET OR SDICON_BYTE_BE OR SDICON_ENCLK) h;
            h = REGW_wr io SDIDTIMERL 0xffff h
        in REGW_wr io SDIDTIMERH 0x007f h)
     else if mode = MMC_POWER_ON then REGW_upd io SDICON (\<lambda>v. v OR SDICON_ENCLK) h
     else h)"

definition mmsp2_mmc_set_ios ::
  "'h mmio \<Rightarrow> mmc_ios \<Rightarrow> mmsp2_mmc_host \<Rightarrow> 'h \<Rightarrow> (mmsp2_mmc_host \<times> 'h) option" where
  "mmsp2_mmc_set_ios io ios host h = (
     let h = (if ios_bus_width ios = MMC_BUS_WIDTH_4 then REG_upd io SDIDATCON (\<lambda>v. v OR SDIDATCON_WIDE) h
              else REG_upd io SDIDATCON (\<lambda>v. v AND NOT SDIDATCON_WIDE) h);
         host = host\<lparr>mh_bus_width := ios_bus_width ios\<rparr>
     in do {
       (host, h) \<leftarrow> (if ios_clock ios \<noteq> 0 \<and> ios_clock ios \<noteq> mh_clock host then do {
           (pclk, h) \<leftarrow> mmsp2_get_pclk io h;
           Some (host\<lparr>mh_clock := ios_clock ios\<rparr>, REGW_wr io SDIPRE (ucast (pclk div ios_clock ios - 1)) h)
         } else Some (host, h));
       Some (if mh_power_mode host \<noteq> ucast (ios_power_mode ios)
             then (host\<lparr>mh_power_mode := ucast (ios_power_mode ios)\<rparr>, mmc_set_power io (ios_power_mode ios) h)
             else (host, h))
     })"

section \<open>Where the bytes of a read go\<close>

text \<open>The entry of the scatter list that holds byte \<open>i\<close> of a transfer.\<close>

fun seg_base :: "(u32 \<times> u32) list \<Rightarrow> nat \<Rightarrow> u32" where
  "seg_base [] i = 0"
| "seg_base ((a, l) # sgs) i = (if i < unat l then a else seg_base sgs (i - unat l))"

definition sg_bytes :: "(u32 \<times> u32) list \<Rightarrow> nat" where
  "sg_bytes sgs = sum_list (map (\<lambda>e. unat (snd e)) sgs)"

fun put_bytes :: "(u32 \<times> u32) list \<Rightarrow> nat \<Rightarrow> u8 list \<Rightarrow> ram \<Rightarrow> ram" where
  "put_bytes sgs i [] r = r"
| "put_bytes sgs i (b # bs) r = put_bytes sgs (Suc i) bs (r(seg_base sgs i + of_nat i := b))"

text \<open>The receive FIFO: the flag says whether it holds bytes, a load of the data register takes
  the oldest one, and the status and control registers do not change it.\<close>

definition rx_fifo :: "'h mmio \<Rightarrow> ('h \<Rightarrow> u8 list) \<Rightarrow> bool" where
  "rx_fifo io q \<longleftrightarrow> (\<forall>h.
     (fst (rd16 io (io_p2v SDIFSTA) h) AND SDIFSTA_RFDET \<noteq> 0 \<longleftrightarrow> q h \<noteq> []) \<and>
     q (snd (rd16 io (io_p2v SDIFSTA) h)) = q h \<and>
     (\<forall>v. q (wr16 io (io_p2v SDIFSTA) v h) = q h) \<and>
     (q h \<noteq> [] \<longrightarrow> rd8 io (io_p2v SDIDAT) h = (hd (q h), snd (rd8 io (io_p2v SDIDAT) h))) \<and>
     q (snd (rd8 io (io_p2v SDIDAT) h)) = tl (q h) \<and>
     q (snd (rd32 io (io_p2v SDIDATCON) h)) = q h \<and>
     (\<forall>v. q (wr32 io (io_p2v SDIDATCON) v h) = q h))"

lemma seg_base_at:
  "idx < length sgs \<Longrightarrow> sg_bytes (take idx sgs) \<le> i \<Longrightarrow> i < sg_bytes (take (Suc idx) sgs) \<Longrightarrow>
   seg_base sgs i = fst (sgs ! idx)"
proof (induction sgs arbitrary: i idx)
  case (Cons e sgs)
  then show ?case by (cases e; cases idx) (auto simp: sg_bytes_def)
qed simp

lemma sg_bytes_Suc:
  "idx < length sgs \<Longrightarrow> sg_bytes (take (Suc idx) sgs) = sg_bytes (take idx sgs) + unat (snd (sgs ! idx))"
  by (simp add: sg_bytes_def take_Suc_conv_app_nth)

text \<open>The place in the scatter list after \<open>i\<close> bytes.\<close>

definition at_byte :: "(u32 \<times> u32) list \<Rightarrow> nat \<Rightarrow> nat \<Rightarrow> u32 \<Rightarrow> u32 \<Rightarrow> bool" where
  "at_byte sgs i idx buffer left \<longleftrightarrow> idx < length sgs \<and> buffer = fst (sgs ! idx) \<and>
     sg_bytes (take idx sgs) \<le> i \<and> unat left + i = sg_bytes (take (Suc idx) sgs)"

lemma pio_segment_next:
  assumes "at_byte sgs i idx buffer left" "list_all (\<lambda>e. snd e \<noteq> 0) sgs" "i < sg_bytes sgs"
  obtains idx' left' where "pio_segment sgs idx buffer left = Some (idx', seg_base sgs i, left')"
    "at_byte sgs (Suc i) idx' (seg_base sgs i) (left' - 1)"
proof -
  have step: "at_byte sgs (Suc i) k (seg_base sgs i) (l - 1) \<and> seg_base sgs i = fst (sgs ! k)"
    if "at_byte sgs i k b l" "l \<noteq> 0" for k b l
  proof -
    have "unat (l - 1) + 1 = unat l" using that(2) by (simp add: unat_minus_one unat_gt_0)
    moreover have "seg_base sgs i = fst (sgs ! k)"
      using that unat_gt_0 [of l] by (intro seg_base_at) (auto simp: at_byte_def)
    ultimately show ?thesis using that(1) by (simp add: at_byte_def)
  qed
  show thesis
  proof (cases "left = 0")
    case False
    then show thesis using step [OF assms(1) False] assms(1) that [of idx left]
      by (simp add: pio_segment_def at_byte_def)
  next
    case True
    have i: "i = sg_bytes (take (Suc idx) sgs)" using assms(1) True by (simp add: at_byte_def)
    have lt: "Suc idx < length sgs"
    proof (rule ccontr)
      assume "\<not> Suc idx < length sgs"
      then show False using i assms(3) by simp
    qed
    have at: "at_byte sgs i (Suc idx) (fst (sgs ! Suc idx)) (snd (sgs ! Suc idx))"
      using lt i by (simp add: at_byte_def sg_bytes_Suc)
    have "snd (sgs ! Suc idx) \<noteq> 0" using assms(2) lt by (simp add: list_all_length)
    from step [OF at this] show thesis
      using lt that [of "Suc idx" "snd (sgs ! Suc idx)"] True by (auto simp: pio_segment_def)
  qed
qed

lemma pio_loop_bytes:
  assumes "rx_fifo io q" "list_all (\<lambda>e. snd e \<noteq> 0) sgs"
  shows "q h = bs \<Longrightarrow> unat cnt = i \<Longrightarrow> i \<le> unat len \<Longrightarrow> at_byte sgs i idx buffer left \<Longrightarrow>
    i + length (take (unat len - i) bs) \<le> sg_bytes sgs \<Longrightarrow>
    \<exists>h'. pio_loop io sgs len cnt idx buffer left r h =
        Some (of_nat (i + length (take (unat len - i) bs)), put_bytes sgs i (take (unat len - i) bs) r, h') \<and>
      q h' = drop (unat len - i) bs"
proof (induction bs arbitrary: h cnt i idx buffer left r)
  case Nil
  obtain v h1 where rd: "rd16 io (io_p2v SDIFSTA) h = (v, h1)" by fastforce
  have "v AND SDIFSTA_RFDET = 0" "q h1 = []"
    using assms(1) Nil.prems(1) rd unfolding rx_fifo_def by (metis fst_conv, metis snd_conv)
  then show ?case using Nil.prems rd by (auto simp: pio_loop.simps [of io sgs len cnt] io_defs)
next
  case (Cons b bs)
  obtain v h1 where rd: "rd16 io (io_p2v SDIFSTA) h = (v, h1)" by fastforce
  have v: "v AND SDIFSTA_RFDET \<noteq> 0" "q h1 = b # bs"
    using assms(1) Cons.prems(1) rd unfolding rx_fifo_def by (metis fst_conv list.distinct(1), metis snd_conv)
  show ?case
  proof (cases "i < unat len")
    case False
    then have "cnt = len" using Cons.prems(2,3) by (simp add: word_unat_eq_iff)
    then show ?thesis using False Cons.prems v rd
      by (simp add: pio_loop.simps [of io sgs len len] io_defs)
  next
    case True
    have lt: "cnt < len" using True Cons.prems(2) by (simp add: word_less_nat_alt)
    obtain m where m: "unat len - i = Suc m" using True by (metis Suc_diff_Suc)
    then have m': "unat len - Suc i = m" by simp
    obtain idx' left' where seg: "pio_segment sgs idx buffer left = Some (idx', seg_base sgs i, left')"
      "at_byte sgs (Suc i) idx' (seg_base sgs i) (left' - 1)"
      using pio_segment_next [OF Cons.prems(4) assms(2)] Cons.prems(5) m by auto
    obtain h2 where rd8: "rd8 io (io_p2v SDIDAT) h1 = (b, h2)" "q h2 = bs"
      using assms(1) v(2) unfolding rx_fifo_def by (metis list.sel(1,3) list.distinct(1) snd_conv)
    have self: "q (REGW_self io SDIFSTA h2) = bs"
      using assms(1) rd8(2) by (auto simp: REGW_self_def io_defs rx_fifo_def split: prod.splits) (metis snd_conv)
    have cnt: "cnt = of_nat i" using Cons.prems(2) by auto
    have "unat (cnt + 1) = Suc i" using count_up [OF lt] Cons.prems(2) by simp
    moreover have "pio_loop io sgs len cnt idx buffer left r h =
        pio_loop io sgs len (cnt + 1) idx' (seg_base sgs i) (left' - 1)
          (r(seg_base sgs i + cnt := b)) (REGW_self io SDIFSTA h2)"
      using rd v(1) lt seg(1) rd8(1) by (simp add: pio_loop.simps [of io sgs len cnt] io_defs)
    ultimately show ?thesis
      using Cons.IH [OF self, of "cnt + 1" "Suc i"] seg(2) Cons.prems(5) True m m' cnt by simp
  qed
qed

lemma pio_read_bytes:
  assumes "rx_fifo io q" "list_all (\<lambda>e. snd e \<noteq> 0) (data_sg data)" "data_sg data \<noteq> []"
    and "bs = take (unat (data_blksz data * data_blocks data)) (q h)" "length bs \<le> sg_bytes (data_sg data)"
  obtains h' where "mp2520f_mmc_pio_read io data r h =
      Some (data\<lparr>data_bytes_xfered := of_nat (length bs)\<rparr>, put_bytes (data_sg data) 0 bs r, h')"
    "q h' = drop (length bs) (q h)"
proof -
  obtain a l sgs where sg: "data_sg data = (a, l) # sgs" using assms(3) by (metis list.exhaust surj_pair)
  let ?len = "data_blksz data * data_blocks data"
  have "at_byte (data_sg data) 0 0 a l" using sg by (simp add: at_byte_def sg_bytes_def)
  from pio_loop_bytes [OF assms(1,2) refl _ _ this, of 0 ?len h r]
  obtain h1 where h1: "pio_loop io (data_sg data) ?len 0 0 a l r h =
      Some (of_nat (length bs), put_bytes (data_sg data) 0 bs r, h1)" "q h1 = drop (unat ?len) (q h)"
    using assms(4,5) by auto
  have "q (REG_upd io SDIDATCON f h1) = q h1" for f
    using assms(1) by (simp add: rx_fifo_def io_defs split_def Let_def)
  then show thesis using that h1 sg assms(4)
    by (simp add: mp2520f_mmc_pio_read_def min_def)
qed

lemma put_bytes_append:
  "put_bytes sgs i (xs @ ys) r = put_bytes sgs (i + length xs) ys (put_bytes sgs i xs r)"
  by (induction xs arbitrary: i r) simp_all

lemma put_bytes_other:
  "(\<And>j. j < length bs \<Longrightarrow> x \<noteq> seg_base sgs (i + j) + of_nat (i + j)) \<Longrightarrow> put_bytes sgs i bs r x = r x"
proof (induction bs arbitrary: i r)
  case (Cons b bs)
  have "x \<noteq> seg_base sgs (Suc i + j) + of_nat (Suc i + j)" if "j < length bs" for j
    using Cons.prems [of "Suc j"] that by simp
  then show ?case using Cons.IH [of "Suc i"] Cons.prems [of 0] by simp
qed simp

lemma of_nat_distinct: "i < 2 ^ 32 \<Longrightarrow> j < 2 ^ 32 \<Longrightarrow> (of_nat i :: u32) = of_nat j \<longleftrightarrow> i = j"
  by (auto dest!: arg_cong [of _ _ unat] simp: unat_of_nat_lt)

lemma put_bytes_const:
  "(\<And>j. j < length bs \<Longrightarrow> seg_base sgs (i + j) = c) \<Longrightarrow> i + length bs < 2 ^ 32 \<Longrightarrow> k < length bs \<Longrightarrow>
   put_bytes sgs i bs r (c + of_nat (i + k)) = bs ! k"
proof (induction bs arbitrary: i k r)
  case (Cons b bs)
  have IH: "seg_base sgs (Suc i + j) = c" if "j < length bs" for j
    using Cons.prems(1) [of "Suc j"] that by simp
  show ?case
  proof (cases k)
    case 0
    have "put_bytes sgs (Suc i) bs (r(c + of_nat i := b)) (c + of_nat i) = b"
    proof (subst put_bytes_other)
      fix j assume "j < length bs"
      moreover have "of_nat i \<noteq> (of_nat (Suc i + j) :: u32)"
        using of_nat_distinct [of i "Suc i + j"] Cons.prems(2) \<open>j < length bs\<close> by simp
      ultimately show "c + of_nat i \<noteq> seg_base sgs (Suc i + j) + of_nat (Suc i + j)"
        using IH by simp
    qed simp
    then show ?thesis using 0 Cons.prems(1) [of 0] by simp
  next
    case (Suc k')
    then show ?thesis using Cons.IH [of "Suc i" k'] IH Cons.prems by simp
  qed
qed simp

text \<open>
  C35. Reading into one buffer stores the bytes of the FIFO there, in order and nowhere else, until
  the FIFO is empty or the length of the request is reached, and reports how many there were.
\<close>

theorem mmc_read_buffer:
  assumes "rx_fifo io q" "data_sg data = [(a, l)]" "l \<noteq> 0"
    and "n = min (unat (data_blksz data * data_blocks data)) (length (q h))" "n \<le> unat l"
  shows "\<exists>r' h'. mp2520f_mmc_pio_read io data r h = Some (data\<lparr>data_bytes_xfered := of_nat n\<rparr>, r', h') \<and>
    q h' = drop n (q h) \<and> (\<forall>i < n. r' (a + of_nat i) = q h ! i) \<and>
    (\<forall>x. (\<forall>i < n. x \<noteq> a + of_nat i) \<longrightarrow> r' x = r x)"
proof -
  define bs where "bs = take (unat (data_blksz data * data_blocks data)) (q h)"
  have n: "length bs = n" using assms(4) by (simp add: bs_def min.commute)
  obtain h' where h': "mp2520f_mmc_pio_read io data r h =
      Some (data\<lparr>data_bytes_xfered := of_nat n\<rparr>, put_bytes [(a, l)] 0 bs r, h')" "q h' = drop n (q h)"
    using pio_read_bytes [OF assms(1) _ _ bs_def, where r = r] assms(2,3,5) n
    by (auto simp: sg_bytes_def)
  have base: "seg_base [(a, l)] (0 + i) = a" if "i < length bs" for i using that assms(5) n by simp
  have nth: "bs ! i = q h ! i" if "i < n" for i using that assms(4) by (simp add: bs_def)
  have lim: "0 + length bs < 2 ^ 32" using unat_lt2p [of l] assms(5) n by simp
  have "put_bytes [(a, l)] 0 bs r (a + of_nat i) = q h ! i" if "i < n" for i
    using put_bytes_const [where r = r and k = i, OF base lim] that n nth [OF that] by simp
  moreover have "put_bytes [(a, l)] 0 bs r x = r x" if "\<forall>i < n. x \<noteq> a + of_nat i" for x
    by (rule put_bytes_other) (use base that n in auto)
  ultimately show ?thesis using h' by blast
qed

text \<open>
  C36. With two buffers the bytes of the second are stored at the right distance from each other
  but too far into it, by the length of the first buffer: the count that indexes the buffer is
  not reset when the buffer changes. The start of the second buffer is left as it was.
\<close>

theorem mmc_read_second_buffer:
  assumes "rx_fifo io q" "data_sg data = [(a, l), (b, m)]" "l \<noteq> 0" "m \<noteq> 0"
    and "unat (data_blksz data * data_blocks data) = unat l + unat m" "unat l + unat m \<le> length (q h)"
  shows "\<exists>r' h'. mp2520f_mmc_pio_read io data r h =
      Some (data\<lparr>data_bytes_xfered := l + m\<rparr>, r', h') \<and>
    (\<forall>j < unat m. r' (b + l + of_nat j) = q h ! (unat l + j)) \<and>
    (\<forall>x. (\<forall>j < unat l. x \<noteq> a + of_nat j) \<and> (\<forall>j < unat m. x \<noteq> b + l + of_nat j) \<longrightarrow> r' x = r x)"
proof -
  let ?n = "unat l + unat m" and ?sg = "[(a, l), (b, m)]"
  define xs where "xs = take (unat l) (q h)"
  define ys where "ys = take (unat m) (drop (unat l) (q h))"
  have bs: "xs @ ys = take (unat (data_blksz data * data_blocks data)) (q h)"
    unfolding assms(5) xs_def ys_def by (rule take_add [symmetric])
  have len: "length xs = unat l" "length ys = unat m" using assms(6) by (simp_all add: xs_def ys_def)
  have nth: "ys ! j = q h ! (unat l + j)" if "j < unat m" for j using that assms(6) by (simp add: ys_def)
  have lim: "unat l + length ys < 2 ^ 32"
    using unat_lt2p [of "data_blksz data * data_blocks data"] assms(5) len by simp
  let ?r' = "put_bytes ?sg (unat l) ys (put_bytes ?sg 0 xs r)"
  obtain h' where h': "mp2520f_mmc_pio_read io data r h = Some (data\<lparr>data_bytes_xfered := l + m\<rparr>, ?r', h')"
    using pio_read_bytes [OF assms(1) _ _ bs, where r = r] assms(2-4) len
    by (auto simp: sg_bytes_def put_bytes_append)
  have addr: "b + l + of_nat j = b + of_nat (unat l + j)" for j by simp
  have base: "seg_base ?sg (unat l + j) = b" if "j < length ys" for j using that len by simp
  have "?r' (b + l + of_nat j) = q h ! (unat l + j)" if "j < unat m" for j
    unfolding addr using put_bytes_const [where k = j, OF base lim] that len nth [OF that] by simp
  moreover have "?r' x = r x"
    if x: "\<forall>j < unat l. x \<noteq> a + of_nat j" "\<forall>j < unat m. x \<noteq> b + l + of_nat j" for x
  proof -
    have "?r' x = put_bytes ?sg 0 xs r x"
      by (rule put_bytes_other) (use x(2) [unfolded addr] base len in auto)
    also have "\<dots> = r x" by (rule put_bytes_other) (use x(1) len in auto)
    finally show ?thesis .
  qed
  ultimately show ?thesis using h' by blast
qed

section \<open>The end of a command\<close>

definition responded :: "u16 \<Rightarrow> bool" where
  "responded v \<longleftrightarrow> v AND NOT SDICMDSTA_RSPINDEX \<noteq> 0"

text \<open>
  The card: the status may change with every load of the status register until it has answered,
  and then stays; the other registers that are loaded do not change.
\<close>

definition card_regs :: "u32 list" where
  "card_regs = [SDIRSP0, SDIRSP1, SDIRSP2, SDIRSP3, SDIRSP4, SDIRSP5, SDIRSP6, SDIRSP7, SDIDATSTA, SDIFSTA]"

definition card_status :: "'h mmio \<Rightarrow> ('h \<Rightarrow> u16) \<Rightarrow> ('h \<Rightarrow> 'h) \<Rightarrow> (u32 \<Rightarrow> u16) \<Rightarrow> bool" where
  "card_status io sta tick rsp \<longleftrightarrow> (\<forall>h.
     rd16 io (io_p2v SDICMDSTA) h = (sta h, tick h) \<and>
     (responded (sta h) \<longrightarrow> sta (tick h) = sta h) \<and>
     list_all (\<lambda>x. rd16 io (io_p2v x) h = (rsp x, h)) card_regs)"

lemma wait_status_ends:
  assumes "card_status io sta tick rsp" "responded (sta ((tick ^^ k) h))"
  shows "\<exists>h'. wait_status io h = Some h' \<and> sta h' = sta ((tick ^^ k) h)"
  using assms(2)
proof (induction k arbitrary: h)
  case 0
  then show ?case
    using assms(1) by (simp add: wait_status.simps [of io h] io_defs card_status_def responded_def)
next
  case (Suc k)
  note laws = assms(1) [unfolded card_status_def, rule_format, of h]
  have rd: "rd16 io (io_p2v SDICMDSTA) h = (sta h, tick h)" using laws by simp
  show ?case
  proof (cases "responded (sta h)")
    case False
    then show ?thesis using Suc.IH [of "tick h"] Suc.prems rd
      by (simp add: wait_status.simps [of io h] io_defs responded_def funpow_swap1)
  next
    case True
    have stay: "sta ((tick ^^ j) h) = sta h" for j
    proof (induction j)
      case (Suc j)
      then show ?case using assms(1) True by (simp add: card_status_def)
    qed simp
    have "wait_status io h = Some (tick h)"
      using True rd by (simp add: wait_status.simps [of io h] io_defs responded_def)
    then show ?thesis using stay [of "Suc k"] stay [of 1] by auto
  qed
qed

lemma wait_status_answered:
  assumes "card_status io sta tick rsp" "wait_status io h = Some h'"
  shows "\<exists>k. responded (sta ((tick ^^ k) h))"
proof -
  have rd: "rd16 io (io_p2v SDICMDSTA) h = (sta h, tick h)" for h
    using assms(1) by (simp add: card_status_def)
  have "io' = io \<longrightarrow> (\<exists>k. responded (sta ((tick ^^ k) h)))" if "wait_status io' h = Some h'" for io'
  proof (rule wait_status.raw_induct [OF _ that])
    fix f io' h h'
    assume IH: "\<And>io' h h'. f io' h = Some h' \<Longrightarrow> io' = io \<longrightarrow> (\<exists>k. responded (sta ((tick ^^ k) h)))"
      and run: "(let (v, h) = REGW_rd io' SDICMDSTA h
        in if v AND NOT SDICMDSTA_RSPINDEX = 0 then f io' h else Some h) = Some h'"
    show "io' = io \<longrightarrow> (\<exists>k. responded (sta ((tick ^^ k) h)))"
    proof
      assume [simp]: "io' = io"
      show "\<exists>k. responded (sta ((tick ^^ k) h))"
      proof (cases "responded (sta h)")
        case True
        then show ?thesis by (metis funpow_0)
      next
        case False
        then have "f io (tick h) = Some h'" using run rd by (simp add: io_defs responded_def)
        then obtain k where "responded (sta ((tick ^^ k) (tick h)))" using IH by blast
        then show ?thesis by (metis funpow_Suc_right comp_apply)
      qed
    qed
  qed
  then show ?thesis using assms(2) by blast
qed

text \<open>What the registers hold of a response.\<close>

definition response :: "(u32 \<Rightarrow> u16) \<Rightarrow> mmc_command \<Rightarrow> u32 list" where
  "response rsp cmd = (
     let w = (\<lambda>lo hi. ucast (rsp lo) OR push_bit 16 (ucast (rsp hi)) :: u32)
     in if cmd_flags cmd AND MMC_RSP_PRESENT = 0 then cmd_resp cmd
        else if cmd_flags cmd AND MMC_RSP_136 \<noteq> 0
        then [w SDIRSP0 SDIRSP1, w SDIRSP2 SDIRSP3, w SDIRSP4 SDIRSP5, w SDIRSP6 SDIRSP7]
        else (cmd_resp cmd)[0 := w SDIRSP0 SDIRSP1])"

lemma cmd_end_result:
  assumes "card_status io sta tick rsp" "responded (sta h)"
  obtains h' where "mmsp2_mmc_cmd_end io cmd h = (cmd\<lparr>cmd_resp := response rsp cmd,
      cmd_error := (if cmd_flags cmd AND MMC_RSP_PRESENT = 0 then cmd_error cmd
        else cmd_result (cmd_flags cmd) (sta h) (cmd_error cmd))\<rparr>, h')"
proof -
  have rd: "rd16 io (io_p2v SDICMDSTA) g = (sta g, tick g)" for g
    using assms(1) by (simp add: card_status_def)
  have rs: "rd16 io (io_p2v x) g = (rsp x, g)" if "x \<in> set card_regs" for x g
    using assms(1) that by (simp add: card_status_def list_all_iff)
  have pair: "rsp_pair io lo hi g = (ucast (rsp lo) OR push_bit 16 (ucast (rsp hi)), g)"
    if "lo \<in> set card_regs" "hi \<in> set card_regs" for lo hi g
    using that by (simp add: rsp_pair_def io_defs rs)
  have "sta (tick h) = sta h" using assms by (simp add: card_status_def)
  then have "\<exists>h'. mmsp2_mmc_cmd_end io cmd h = (cmd\<lparr>cmd_resp := response rsp cmd,
      cmd_error := (if cmd_flags cmd AND MMC_RSP_PRESENT = 0 then cmd_error cmd
        else cmd_result (cmd_flags cmd) (sta h) (cmd_error cmd))\<rparr>, h')"
    by (cases "cmd_flags cmd AND MMC_RSP_PRESENT = 0"; cases "cmd_flags cmd AND MMC_RSP_136 = 0")
       (simp_all add: mmsp2_mmc_cmd_end_def io_defs rd response_def pair card_regs_def)
  then show thesis using that by blast
qed


section \<open>The clock\<close>

text \<open>The 16-bit registers of the controller and of the clocks hold what is written, and the
  data control register is apart from them.\<close>

definition clock_addrs :: "u32 set" where
  "clock_addrs = io_p2v ` {SDICON, SDIPRE, SDIINTENB1, SDIINTENB0, SDIDTIMERL, SDIDTIMERH, SDIBSIZE,
     FPLLVSETREG, SYSCSETREG}"

definition clock_regs :: "'h mmio \<Rightarrow> ('h \<Rightarrow> u32 \<Rightarrow> u16) \<Rightarrow> bool" where
  "clock_regs io view \<longleftrightarrow> plain16 io view clock_addrs \<and>
     (\<forall>h. \<forall>a \<in> clock_addrs. view (snd (rd32 io (io_p2v SDIDATCON) h)) a = view h a \<and>
        (\<forall>v. view (wr32 io (io_p2v SDIDATCON) v h) a = view h a))"

lemmas sdi_addr_defs = SDICON_def SDIPRE_def SDIINTENB1_def SDIINTENB0_def SDIDTIMERL_def
  SDIDTIMERH_def SDIBSIZE_def SDIDATCON_def FPLLVSETREG_def SYSCSETREG_def MP25XXF_MMC_START_def io_p2v_def

lemma clock_regs_wr:
  assumes "clock_regs io view" "x \<in> {SDICON, SDIPRE, SDIINTENB1, SDIINTENB0, SDIDTIMERL, SDIDTIMERH, SDIBSIZE}"
  shows "view (wr16 io (io_p2v x) v h) (io_p2v SDIPRE) = (if x = SDIPRE then v else view h (io_p2v SDIPRE))"
proof -
  have mem: "io_p2v x \<in> clock_addrs" "io_p2v SDIPRE \<in> clock_addrs" using assms(2) by (auto simp: clock_addrs_def)
  have "io_p2v SDIPRE = io_p2v x \<longleftrightarrow> x = SDIPRE" using assms(2) by (auto simp: sdi_addr_defs)
  then show ?thesis
    using assms(1) mem by (simp add: clock_regs_def plain16_def)
qed

lemma clock_regs_rd: "clock_regs io view \<Longrightarrow> io_p2v x \<in> clock_addrs \<Longrightarrow> rd16 io (io_p2v x) h = (view h (io_p2v x), h)"
  by (simp add: clock_regs_def plain16_def)

lemma clock_regs_datcon:
  "clock_regs io view \<Longrightarrow> a \<in> clock_addrs \<Longrightarrow> view (REG_upd io SDIDATCON f h) a = view h a"
  "clock_regs io view \<Longrightarrow> a \<in> clock_addrs \<Longrightarrow> view (REG_wr io SDIDATCON w h) a = view h a"
  by (simp_all add: clock_regs_def io_defs split_def Let_def)

lemma set_power_keeps_clock:
  assumes "clock_regs io view"
  shows "view (mmc_set_power io mode h) (io_p2v SDIPRE) = view h (io_p2v SDIPRE)"
proof -
  have mem: "io_p2v SDIPRE \<in> clock_addrs" "io_p2v SDICON \<in> clock_addrs" by (simp_all add: clock_addrs_def)
  have ne: "SDICON \<noteq> SDIPRE" "SDIINTENB1 \<noteq> SDIPRE" "SDIINTENB0 \<noteq> SDIPRE" "SDIDTIMERL \<noteq> SDIPRE"
    "SDIDTIMERH \<noteq> SDIPRE" "SDIBSIZE \<noteq> SDIPRE" by (simp_all add: sdi_addr_defs)
  show ?thesis
    using clock_regs_datcon(2) [OF assms mem(1), unfolded REG_wr_def]
    by (simp add: mmc_set_power_def Let_def REGW_wr_def REG_wr_def REGW_upd_def REGW_rd_def
        clock_regs_wr [OF assms] clock_regs_rd [OF assms mem(2)] ne)
qed

text \<open>
  C38. Setting a clock the divider can reach gives the card a clock that is not below the requested
  one, and less than twice it: the quotient is rounded down, so unless the peripheral clock is a
  multiple of the request the card is clocked faster than was asked for.
\<close>

theorem mmc_clock_rounds_up:
  assumes "clock_regs io view" "pclk = calc_clk (view h (io_p2v FPLLVSETREG)) div 4"
    and "ios_clock ios = c" "c \<noteq> 0" "c \<noteq> mh_clock host" "c \<le> pclk" "unat pclk div unat c \<le> 65536"
  shows "\<exists>host' h' d. mmsp2_mmc_set_ios io ios host h = Some (host', h') \<and> mh_clock host' = c \<and>
    d = unat (view h' (io_p2v SDIPRE)) + 1 \<and> unat c * d \<le> unat pclk \<and> unat pclk < unat c * (d + 1) \<and>
    unat pclk < 2 * (unat c * d)"
proof -
  let ?D = "unat pclk div unat c"
  have mem: "io_p2v SDIPRE \<in> clock_addrs" "io_p2v FPLLVSETREG \<in> clock_addrs" "io_p2v SYSCSETREG \<in> clock_addrs"
    by (simp_all add: clock_addrs_def)
  have c0: "unat c > 0" using assms(4) by (simp add: unat_gt_0)
  have le: "unat c \<le> unat pclk" using assms(6) by (simp add: word_le_nat_alt)
  have D: "1 \<le> ?D" using div_le_mono [OF le, of "unat c"] c0 by simp
  have q: "unat (pclk div c - 1) = ?D - 1"
    using D by (subst unat_sub) (simp_all add: word_le_nat_alt unat_div)
  have pre: "unat (ucast (pclk div c - 1) :: u16) + 1 = ?D"
    using q D assms(7) by (simp add: unsigned_ucast_eq take_bit_nat_eq_self)
  define h1 where "h1 = (if ios_bus_width ios = MMC_BUS_WIDTH_4 then REG_upd io SDIDATCON (\<lambda>v. v OR SDIDATCON_WIDE) h
      else REG_upd io SDIDATCON (\<lambda>v. v AND NOT SDIDATCON_WIDE) h)"
  have "view h1 (io_p2v FPLLVSETREG) = view h (io_p2v FPLLVSETREG)"
    using clock_regs_datcon(1) [OF assms(1) mem(2)] by (simp add: h1_def)
  then have "mmsp2_get_pclk io h1 = Some (pclk, h1)"
    using mmsp2_get_pclk_total [of io h1] assms(2)
    by (auto simp: mmsp2_get_pclk_def Let_def REGW_rd_def clock_regs_rd [OF assms(1)] mem split: if_splits)
  then have "\<exists>host' h'. mmsp2_mmc_set_ios io ios host h = Some (host', h') \<and> mh_clock host' = c \<and>
      view h' (io_p2v SDIPRE) = ucast (pclk div c - 1)"
    using assms(3-5) clock_regs_wr [OF assms(1), of SDIPRE]
    by (cases "mh_power_mode host = ucast (ios_power_mode ios)")
       (simp_all add: mmsp2_mmc_set_ios_def h1_def [symmetric] Let_def set_power_keeps_clock [OF assms(1)] REGW_wr_def)
  then obtain host' h' where run: "mmsp2_mmc_set_ios io ios host h = Some (host', h')" "mh_clock host' = c"
      "view h' (io_p2v SDIPRE) = ucast (pclk div c - 1)"
    by blast
  have "unat c * ?D \<le> unat pclk" "unat pclk < unat c * (?D + 1)"
    using c0 by (simp_all add: mult.commute times_div_less_eq_dividend dividend_less_times_div)
  moreover have "unat c * (?D + 1) \<le> 2 * (unat c * ?D)"
    using D by (simp add: algebra_simps)
  ultimately have "unat pclk < 2 * (unat c * ?D)" by linarith
  moreover have "?D = unat (view h' (io_p2v SDIPRE)) + 1" using run(3) pre by simp
  ultimately show ?thesis using run(1,2) \<open>unat c * ?D \<le> unat pclk\<close> \<open>unat pclk < unat c * (?D + 1)\<close> by blast
qed

section \<open>Instances\<close>

text \<open>A controller that is only its receive FIFO.\<close>

definition fifo_dev :: "u8 list mmio" where
  "fifo_dev = \<lparr>rd32 = (\<lambda>_ h. (0, h)), wr32 = (\<lambda>_ _ h. h),
     rd16 = (\<lambda>_ h. (if h = [] then 0 else SDIFSTA_RFDET, h)), wr16 = (\<lambda>_ _ h. h),
     rd8 = (\<lambda>_ h. (case h of [] \<Rightarrow> 0 | b # _ \<Rightarrow> b, tl h)), wr8 = (\<lambda>_ _ h. h)\<rparr>"

definition read_data :: "(u32 \<times> u32) list \<Rightarrow> mmc_data" where
  "read_data sgs = \<lparr>data_blksz = 2, data_blocks = 1, data_flags = MMC_DATA_READ, data_bytes_xfered = 0,
     data_sg = sgs, data_stop = None\<rparr>"

lemma fifo_dev_rx: "rx_fifo fifo_dev (\<lambda>h. h)"
  by (auto simp: rx_fifo_def fifo_dev_def SDIFSTA_RFDET_def split: list.splits)

theorem mmc_read_buffer_witness:
  "\<exists>r' h'. mp2520f_mmc_pio_read fifo_dev (read_data [(0x1000, 512)]) (\<lambda>_. 0) [7, 8, 9] =
      Some ((read_data [(0x1000, 512)])\<lparr>data_bytes_xfered := 2\<rparr>, r', h') \<and>
    h' = [9] \<and> r' 0x1000 = 7 \<and> r' 0x1001 = 8 \<and> r' 0x1002 = 0"
proof -
  have "\<exists>r' h'. mp2520f_mmc_pio_read fifo_dev (read_data [(0x1000, 512)]) (\<lambda>_. 0) [7, 8, 9] =
      Some ((read_data [(0x1000, 512)])\<lparr>data_bytes_xfered := of_nat 2\<rparr>, r', h') \<and>
    h' = drop 2 [7, 8, 9] \<and> (\<forall>i < 2. r' (0x1000 + of_nat i) = [7, 8, 9] ! i) \<and>
    (\<forall>x. (\<forall>i < 2. x \<noteq> 0x1000 + of_nat i) \<longrightarrow> r' x = (\<lambda>_. 0) x)"
    by (rule mmc_read_buffer [OF fifo_dev_rx, where l = 512]) (simp_all add: read_data_def)
  then obtain r' h' where r': "mp2520f_mmc_pio_read fifo_dev (read_data [(0x1000, 512)]) (\<lambda>_. 0) [7, 8, 9] =
      Some ((read_data [(0x1000, 512)])\<lparr>data_bytes_xfered := of_nat 2\<rparr>, r', h')"
    "h' = drop 2 [7, 8, 9]" "\<forall>i < 2. r' (0x1000 + of_nat i) = [7, 8, 9] ! i"
    "\<forall>x. (\<forall>i < 2. x \<noteq> 0x1000 + of_nat i) \<longrightarrow> r' x = (\<lambda>_. 0) x"
    by blast
  have "r' 0x1002 = 0" using r'(4) by (simp add: less_2_cases_iff)
  then show ?thesis using r'(1,2) r'(3) [rule_format, of 0] r'(3) [rule_format, of 1] by simp
qed

theorem mmc_read_second_buffer_witness:
  "\<exists>r' h'. mp2520f_mmc_pio_read fifo_dev (read_data [(0x1000, 1), (0x2000, 1)]) (\<lambda>_. 0) [7, 8] =
      Some ((read_data [(0x1000, 1), (0x2000, 1)])\<lparr>data_bytes_xfered := 2\<rparr>, r', h') \<and>
    r' 0x2001 = 8 \<and> r' 0x2000 = 0"
proof -
  have "\<exists>r' h'. mp2520f_mmc_pio_read fifo_dev (read_data [(0x1000, 1), (0x2000, 1)]) (\<lambda>_. 0) [7, 8] =
      Some ((read_data [(0x1000, 1), (0x2000, 1)])\<lparr>data_bytes_xfered := 1 + 1\<rparr>, r', h') \<and>
    (\<forall>j < unat (1 :: u32). r' (0x2000 + 1 + of_nat j) = [7, 8] ! (unat (1 :: u32) + j)) \<and>
    (\<forall>x. (\<forall>j < unat (1 :: u32). x \<noteq> 0x1000 + of_nat j) \<and>
       (\<forall>j < unat (1 :: u32). x \<noteq> 0x2000 + 1 + of_nat j) \<longrightarrow> r' x = (\<lambda>_. 0) x)"
    by (rule mmc_read_second_buffer [OF fifo_dev_rx]) (simp_all add: read_data_def)
  then obtain r' h' where r': "mp2520f_mmc_pio_read fifo_dev (read_data [(0x1000, 1), (0x2000, 1)]) (\<lambda>_. 0) [7, 8] =
      Some ((read_data [(0x1000, 1), (0x2000, 1)])\<lparr>data_bytes_xfered := 1 + 1\<rparr>, r', h')"
    "\<forall>j < unat (1 :: u32). r' (0x2000 + 1 + of_nat j) = [7, 8] ! (unat (1 :: u32) + j)"
    "\<forall>x. (\<forall>j < unat (1 :: u32). x \<noteq> 0x1000 + of_nat j) \<and>
       (\<forall>j < unat (1 :: u32). x \<noteq> 0x2000 + 1 + of_nat j) \<longrightarrow> r' x = (\<lambda>_. 0) x"
    by blast
  have "r' 0x2000 = 0" using r'(3) by simp
  then show ?thesis using r'(1,2) by simp
qed

text \<open>A card that answers at the third load of the status register.\<close>

definition slow_card :: "nat mmio" where
  "slow_card = \<lparr>rd32 = (\<lambda>_ h. (0, h)), wr32 = (\<lambda>_ _ h. h),
     rd16 = (\<lambda>a h. if a = io_p2v SDICMDSTA then (if h < 2 then 0 else SDICMDSTA_RSPFIN, Suc h) else (0x11, h)),
     wr16 = (\<lambda>_ _ h. h), rd8 = (\<lambda>_ h. (0, h)), wr8 = (\<lambda>_ _ h. h)\<rparr>"

definition status_cmd :: mmc_command where
  "status_cmd = \<lparr>cmd_opcode = 13, cmd_arg = 0, cmd_resp = [0, 0, 0, 0],
     cmd_flags = MMC_RSP_PRESENT OR MMC_RSP_CRC, cmd_error = None\<rparr>"


theorem mmc_clock_rounds_up_witness:
  "\<exists>host' h'. mmsp2_mmc_set_ios regfile \<lparr>ios_clock = 400000, ios_power_mode = 2, ios_bus_width = 0\<rparr>
      \<lparr>mh_bus_width = 0, mh_power_mode = 0, mh_clock = 0, mh_irq = 0\<rparr> (\<lambda>_. 0) = Some (host', h') \<and>
    mh_clock host' = 400000 \<and> regview16 h' (io_p2v SDIPRE) = 17"
proof -
  have regs: "clock_regs regfile regview16"
    by (simp add: clock_regs_def plain16_def clock_addrs_def regfile_def regview16_def sdi_addr_defs CPW_START_def)
  have pclk: "7372800 = calc_clk (regview16 (\<lambda>_. 0) (io_p2v FPLLVSETREG)) div 4"
    by (simp add: regview16_def calc_clk_def GET_MDIV_def GET_PDIV_def GET_SDIV_def CLOCK_TICK_RATE_def)
  obtain host' h' d where r: "mmsp2_mmc_set_ios regfile \<lparr>ios_clock = 400000, ios_power_mode = 2, ios_bus_width = 0\<rparr>
      \<lparr>mh_bus_width = 0, mh_power_mode = 0, mh_clock = 0, mh_irq = 0\<rparr> (\<lambda>_. 0) = Some (host', h')"
    "mh_clock host' = 400000" "d = unat (regview16 h' (io_p2v SDIPRE)) + 1"
    "400000 * d \<le> 7372800" "7372800 < 400000 * (d + 1)"
    using mmc_clock_rounds_up [where view = regview16 and h = "\<lambda>_. 0" and c = 400000 and pclk = 7372800 and
        ios = "\<lparr>ios_clock = 400000, ios_power_mode = 2, ios_bus_width = 0\<rparr>" and
        host = "\<lparr>mh_bus_width = 0, mh_power_mode = 0, mh_clock = 0, mh_irq = 0\<rparr>", OF regs pclk] by auto
  have "unat (regview16 h' (io_p2v SDIPRE)) = unat (17 :: u16)" using r(3-5) by simp
  then show ?thesis using r(1,2) unsigned_word_eqI by blast
qed

end
