(* ===== verification/Spec2Isabelle.thy ===== *)
theory Spec2Isabelle
  imports Mmsp2_Timer Kfifo Uart_Receive Mmsp2_Nand Mmsp2_Mmc
begin

text \<open>
  A verification development for the GP2X port of Linux 2.6.24, a hand-held console with a
  MagicEyes MMSP2 system on a chip (\<^verbatim>\<open>kernel/linux\<close> under the source root). It models the code
  the port adds, and the parts of the generic kernel this code runs on, as functions on explicit
  states, and proves what makes them correct.

  \<^bold>\<open>The program and how its parts interact.\<close> An interrupt enters through the macro
  \<^verbatim>\<open>get_irqnr_and_base\<close>, which finds the line, and \<^verbatim>\<open>asm_do_IRQ\<close>, which calls the flow handler
  of its descriptor; the generic interrupt layer masks the line, runs the registered actions and
  unmasks it. The machine's controller has 32 main lines, two of which are demultiplexed into
  timer and UART lines. The timer driver and the UART driver are clients of that layer: the first
  provides the clock event device and the clock source, the second the port operations the serial
  core calls. Storage is NAND flash, behind a software error-correcting code and the partition
  layer, and SD cards, behind a host driver that polls the controller.

  \<^bold>\<open>Theories.\<close>
  \<^item> \<open>Prelude\<close>: words, error numbers, shared lemmas and named collections.
  \<^item> \<open>Mmsp2_Io\<close>: register access and the static mapping (\<^verbatim>\<open>hardware.h\<close>, \<^verbatim>\<open>regs-gpio.h\<close>), pins and
    clocks (\<^verbatim>\<open>mach-mp2520f/generic.c\<close>). The device is a parameter, the record \<open>mmio\<close> of its loads
    and stores, so nothing is assumed of a register but what a theorem names.
  \<^item> \<open>Irq_Core\<close>, \<open>Irq_Line\<close>: descriptors, chips, registration, enabling and flow handlers
    (\<^verbatim>\<open>kernel/irq/*.c\<close>, \<^verbatim>\<open>arch/arm/kernel/irq.c\<close>). A chip callback is a value of \<open>irq_chip\<close>, absent
    when the C pointer is null; registered handlers are the parameter \<open>env\<close>.
  \<^item> \<open>Mmsp2_Irq\<close>: the machine's chips, demultiplexers and boot set-up (\<^verbatim>\<open>mach-mp2520f/irq.c\<close>,
    \<^verbatim>\<open>entry-macro.S\<close>).
  \<^item> \<open>Clocksource\<close>, \<open>Mmsp2_Timer\<close>: the clock source list (\<^verbatim>\<open>kernel/time/clocksource.c\<close>), event
    programming (\<^verbatim>\<open>clockevents.c\<close>) and the machine's timer (\<^verbatim>\<open>mach-mp2520f/timecs.c\<close>).
  \<^item> \<open>Bitops\<close>, \<open>Ring\<close>, \<open>Kfifo\<close>, \<open>Xmit_Buf\<close>: bit operations (\<^verbatim>\<open>asm-generic/bitops\<close>, \<^verbatim>\<open>log2.h\<close>,
    \<^verbatim>\<open>lib/hweight.c\<close>), and two byte rings, \<^verbatim>\<open>kernel/kfifo.c\<close> and the transmit buffer of
    \<^verbatim>\<open>circ_buf.h\<close>. The locale \<open>fifo\<close> of \<open>Ring\<close> is their contract; both are instances.
  \<^item> \<open>Serial_Core\<close>, \<open>Mmsp2_Devices\<close>, \<open>Mmsp2_Uart\<close>, \<open>Uart_Lines\<close>, \<open>Uart_Data\<close>, \<open>Uart_Receive\<close>: the
    serial core (\<^verbatim>\<open>drivers/serial/serial_core.c\<close>), the platform resources, and the UART driver
    (\<^verbatim>\<open>mp25xxf_uart.c\<close>), with its interrupt lines, transmission, and reception and probe as
    separate groups of lemmas.
  \<^item> \<open>Nand_Ecc\<close>, \<open>Mtd_Part\<close>, \<open>Mmsp2_Nand\<close>: the error-correcting code (\<^verbatim>\<open>nand_ecc.c\<close>), partitions
    (\<^verbatim>\<open>mtdpart.c\<close>, \<^verbatim>\<open>mtdcore.c\<close>) and the machine's NAND driver (\<^verbatim>\<open>drivers/mtd/nand/mmsp2.c\<close>).
  \<^item> \<open>Mmsp2_Mmc\<close>: the SD host driver (\<^verbatim>\<open>drivers/mmc/host/mp2520f.c\<close>): requests
    (\<^verbatim>\<open>mmsp2_mmc_request\<close>), programmed input into a memory of bytes (\<^verbatim>\<open>mp2520f_mmc_pio_read\<close>) and
    bus settings (\<^verbatim>\<open>mmsp2_mmc_set_ios\<close>).

  \<^bold>\<open>Conventions.\<close> Integers have their C width. A call through a null pointer, an access out of
  bounds, a \<^verbatim>\<open>BUG_ON\<close> and a loop that does not end are the result \<open>None\<close>; errors the code
  returns are values of \<open>errno\<close>. Locks are not state: there is one processor, and each operation
  is one step; interleavings are sequences of such steps. Device registers are 16- or 32-bit cells
  reached through \<open>mmio\<close>; \<open>plain16\<close> and \<open>plain32\<close> name registers that hold what is written, and
  \<open>regfile\<close> is the concrete device on which the instances are evaluated.

  \<^bold>\<open>What is shown.\<close>
  \<^item> Interrupts: an invariant on disable depths over every reachable state, masking during
    handling, nesting of disables, sharing and release of lines, shutting down unanswered lines,
    the entry macro, the demultiplexers, and the state after boot.
  \<^item> Timer: bounds on the programmed events, detection of missed events, the modes, and the order
    and choice of clock sources.
  \<^item> Rings: both buffers refine a byte queue, also when the kfifo's indices wrap.
  \<^item> UART: everything written reaches the wire in order once the interrupts come, received
    characters reach the terminal in order, the claim flags follow the lines, a closed port cannot
    be opened again, and the probe gives each port its own lines.
  \<^item> Flash: single errors are corrected and double errors detected; partitions stay inside the
    device and do not reach into each other; creating and removing partitions are inverse; the scan
    for bad blocks and the ready test end.
  \<^item> SD cards: where the bytes of a read go, with one buffer and with two; a command ends exactly
    when the card answers, with the right error; the clock that a setting gives.
  \<^item> Pins and clocks: what the pin functions change, exactness of the PLL arithmetic.

  \<^bold>\<open>Bounds and fuel.\<close> The demultiplexers call flow handlers, which may call demultiplexers: their
  nesting has the fuel \<open>n\<close>, and one level is enough because no demultiplexed line is chained at
  boot. The transmit loop has the 16 rounds of the source and the receive
  loop as many as the FIFO is long; the loop that reads a card counts up to the length of the
  request and needs no fuel. The waiting loops are partial functions,
  and that they return is proved from what is assumed of the device.

  \<^bold>\<open>Not modelled.\<close> Code that only prints or hands tables to other layers; the DMA, frame buffer
  and multi-layer-controller drivers, whose code registers with layers that are not modelled; the
  probe and removal of the MMC host, for the same reason; the console, port opening and settings of the serial
  layer; out-of-band flash data; the generic NAND, MMC, tty and driver-model layers, which enter as
  parameters where they are needed; the old timer driver, which is not built; and the rest of the
  kernel, which the port does not change.
\<close>

end
